(* ===== verification/Prelude.thy ===== *)
theory Prelude
  imports Complex_Main "HOL-Library.AList" "HOL-Library.Multiset"
begin

text \<open>
  Shared vocabulary of the development.

  The Go code returns an error value beside its result. An error is either the typed
  \<^verbatim>\<open>common.KNXVaultError\<close> (a code, a message and an optional cause) or a plain
  \<^verbatim>\<open>fmt.Errorf\<close> value. A fallible operation is modelled by a value of type
  \<open>'a res\<close>: \<open>Inl\<close> the error, \<open>Inr\<close> the result. The message of a formatted error
  is represented by its format string.
  The theory also holds the generic list and option lemmas the components share, and the
  named collections they fill.
\<close>

section \<open>Errors and results\<close>

datatype ErrorCode =
    ErrCodeInternal
  | ErrCodeValidation
  | ErrCodeUnauthorized
  | ErrCodeForbidden
  | ErrCodeNotFound
  | ErrCodeUnavailable

datatype error =
    Plain string
  | Errorf string error
  | KNXVaultError (Code: ErrorCode) (Message: string) (Cause: "error option")

type_synonym 'a res = "error + 'a"

definition New :: "ErrorCode \<Rightarrow> string \<Rightarrow> error" where
  "New c m = KNXVaultError c m None"

definition Wrap :: "ErrorCode \<Rightarrow> string \<Rightarrow> error \<Rightarrow> error" where
  "Wrap c m cause = KNXVaultError c m (Some cause)"

text \<open>
  \<open>Errorf\<close> is an error with a message and a wrapped error, \<^verbatim>\<open>fmt.Errorf\<close> with the verb \<^verbatim>\<open>%w\<close>.
  \<^verbatim>\<open>errors.As(err, &kv)\<close> finds the outermost typed error, if any.
\<close>

fun as_knx :: "error \<Rightarrow> (ErrorCode \<times> string) option" where
  "as_knx (Plain _) = None"
| "as_knx (Errorf _ e) = as_knx e"
| "as_knx (KNXVaultError c m _) = Some (c, m)"

definition is_ok :: "'a res \<Rightarrow> bool" where
  "is_ok r = (case r of Inl _ \<Rightarrow> False | Inr _ \<Rightarrow> True)"

lemma is_ok_simps [simp]: "is_ok (Inr x)" "\<not> is_ok (Inl e)"
  by (simp_all add: is_ok_def)

lemma is_ok_iff: "is_ok r \<longleftrightarrow> (\<exists>x. r = Inr x)"
  by (cases r) auto

lemma New_inject [simp]: "New c m = New c' m' \<longleftrightarrow> c = c' \<and> m = m'"
  by (simp add: New_def)

lemma New_neq_Wrap [simp]: "New c m \<noteq> Wrap c' m' e" "Wrap c' m' e \<noteq> New c m"
  by (simp_all add: New_def Wrap_def)

lemma as_knx_New [simp]: "as_knx (New c m) = Some (c, m)"
  by (simp add: New_def)

lemma as_knx_Wrap [simp]: "as_knx (Wrap c m e) = Some (c, m)"
  by (simp add: Wrap_def)

text \<open>\<^verbatim>\<open>uuid.UUID\<close> by its canonical text.\<close>

type_synonym uuid = string

definition uuid_Nil :: uuid where
  "uuid_Nil = ''00000000-0000-0000-0000-000000000000''"

text \<open>The values of type \<^verbatim>\<open>any\<close> the code distinguishes, and a \<^verbatim>\<open>map[string]any\<close>.\<close>

datatype any =
    NilAny
  | Str string
  | Anys "any list"
  | Strs "string list"
  | Num rat
  | BoolAny bool
  | Dict "(string \<times> any) list"
  | OtherAny

type_synonym any_map = "(string \<times> any) list"

section \<open>Lemma collections\<close>

named_theorems go_strings \<open>characterisations of the functions of package strings\<close>
named_theorems op_defs \<open>definitions of a component's operations\<close>
named_theorems inv_intros \<open>an operation keeps its component's invariant\<close>

section \<open>Lists\<close>

fun suffixes_of :: "'a list \<Rightarrow> 'a list list" where
  "suffixes_of [] = [[]]"
| "suffixes_of (x # xs) = (x # xs) # suffixes_of xs"

lemma set_suffixes_of: "set (suffixes_of s) = {t. \<exists>u. s = u @ t}"
proof (induction s)
  case (Cons x s)
  show ?case
  proof (intro set_eqI iffI)
    fix t assume "t \<in> set (suffixes_of (x # s))"
    then consider "t = x # s" | u where "s = u @ t" using Cons.IH by auto
    then show "t \<in> {t. \<exists>u. x # s = u @ t}"
      by cases (auto intro: exI [of _ "[]"] exI [of _ "x # _"])
  next
    fix t assume "t \<in> {t. \<exists>u. x # s = u @ t}"
    then obtain u where "x # s = u @ t" by auto
    then show "t \<in> set (suffixes_of (x # s))"
      using Cons.IH by (cases u) auto
  qed
qed auto

text \<open>Association lists as maps: an update of a fresh key appends, and iterating keeps the keys.\<close>

lemma update_fresh: "k \<notin> fst ` set al \<Longrightarrow> AList.update k v al = al @ [(k, v)]"
  by (induction al) auto

lemma set_update_subset: "set (AList.update k v al) \<subseteq> insert (k, v) (set al)"
  by (induction al) auto

lemma distinct_keys_mset: "mset xs = mset ys \<Longrightarrow> distinct (map fst ys) \<Longrightarrow> distinct (map fst xs)"
  by (metis mset_eq_imp_distinct_iff mset_map)

lemma find_SomeD: "find P xs = Some x \<Longrightarrow> P x \<and> x \<in> set xs"
  by (auto simp: find_Some_iff)

lemma find_None_iff_ball: "find P xs = None \<longleftrightarrow> (\<forall>x \<in> set xs. \<not> P x)"
  by (auto simp: find_None_iff)

end
