(* ===== verification/GoStrings.thy ===== *)
theory GoStrings
  imports Prelude
begin

text \<open>
  The functions of Go's package \<^verbatim>\<open>strings\<close> that the vault uses. A Go string is its list of
  bytes, here a HOL \<open>string\<close> (a list of 8-bit characters). \<^verbatim>\<open>ToLower\<close> and
  \<^verbatim>\<open>TrimSpace\<close> are given on ASCII text: Go also folds and trims Unicode letters and
  spaces of bytes from 0x80 on, which these definitions leave as they are.
  Each definition is followed by the characterisation in terms of append that the component
  proofs use.
\<close>

section \<open>Prefixes, suffixes, substrings\<close>

definition HasPrefix :: "string \<Rightarrow> string \<Rightarrow> bool" where
  "HasPrefix s p \<longleftrightarrow> take (length p) s = p"

definition HasSuffix :: "string \<Rightarrow> string \<Rightarrow> bool" where
  "HasSuffix s p \<longleftrightarrow> length p \<le> length s \<and> drop (length s - length p) s = p"

definition TrimPrefix :: "string \<Rightarrow> string \<Rightarrow> string" where
  "TrimPrefix s p = (if HasPrefix s p then drop (length p) s else s)"

definition TrimSuffix :: "string \<Rightarrow> string \<Rightarrow> string" where
  "TrimSuffix s p = (if HasSuffix s p then take (length s - length p) s else s)"

fun Contains :: "string \<Rightarrow> string \<Rightarrow> bool" where
  "Contains [] sub = (sub = [])"
| "Contains (c # s) sub = (HasPrefix (c # s) sub \<or> Contains s sub)"

definition ContainsAny :: "string \<Rightarrow> string \<Rightarrow> bool" where
  "ContainsAny s chars \<longleftrightarrow> list_ex (\<lambda>c. List.member chars c) s"

fun IndexByte :: "string \<Rightarrow> char \<Rightarrow> nat option" where
  "IndexByte [] c = None"
| "IndexByte (x # s) c = (if x = c then Some 0 else map_option Suc (IndexByte s c))"

text \<open>Non-overlapping occurrences, left to right. An empty \<open>sub\<close> is not used by the vault.\<close>

function Count :: "string \<Rightarrow> string \<Rightarrow> nat" where
  "Count s sub =
     (if sub = [] then Suc (length s)
      else if s = [] then 0
      else if HasPrefix s sub then Suc (Count (drop (length sub) s) sub)
      else Count (tl s) sub)"
  by pat_completeness auto
termination
proof (relation "measure (\<lambda>(s, sub). length s)", goal_cases)
  case (2 s sub)
  then show ?case by (cases s; cases sub) auto
qed (auto simp: Suc_leI neq_Nil_conv)

declare Count.simps [simp del]

fun strings_Split :: "string \<Rightarrow> char \<Rightarrow> string list" where
  "strings_Split [] c = [[]]"
| "strings_Split (x # s) c =
     (if x = c then [] # strings_Split s c
      else (case strings_Split s c of [] \<Rightarrow> [[x]] | seg # segs \<Rightarrow> (x # seg) # segs))"

definition TrimByte :: "char \<Rightarrow> string \<Rightarrow> string" where
  "TrimByte c s = rev (dropWhile (\<lambda>x. x = c) (rev (dropWhile (\<lambda>x. x = c) s)))"

definition is_space :: "char \<Rightarrow> bool" where
  "is_space c \<longleftrightarrow> List.member [CHR '' '', CHR 0x09, CHR 0x0A, CHR 0x0B, CHR 0x0C, CHR 0x0D] c"

definition TrimSpace :: "string \<Rightarrow> string" where
  "TrimSpace s = rev (dropWhile is_space (rev (dropWhile is_space s)))"

definition to_lower_char :: "char \<Rightarrow> char" where
  "to_lower_char c =
     (let n = (of_char c :: nat) in if 65 \<le> n \<and> n \<le> 90 then char_of (n + 32) else c)"

definition ToLower :: "string \<Rightarrow> string" where
  "ToLower s = map to_lower_char s"

section \<open>Paths\<close>

fun Join :: "string list \<Rightarrow> string \<Rightarrow> string" where
  "Join [] sep = []"
| "Join [s] sep = s"
| "Join (s # t # ts) sep = s @ sep @ Join (t # ts) sep"

text \<open>
  \<^verbatim>\<open>path.Clean\<close>: empty and dot segments vanish, a dot-dot segment removes the one before it,
  at the root it vanishes. The accumulator holds the kept segments, last one first.
\<close>

fun clean_segs :: "bool \<Rightarrow> string list \<Rightarrow> string list \<Rightarrow> string list" where
  "clean_segs rooted acc [] = rev acc"
| "clean_segs rooted acc (seg # segs) =
     (if seg = [] \<or> seg = ''.'' then clean_segs rooted acc segs
      else if seg = ''..'' then
        (if acc \<noteq> [] \<and> hd acc \<noteq> ''..'' then clean_segs rooted (tl acc) segs
         else if rooted then clean_segs rooted acc segs
         else clean_segs rooted (seg # acc) segs)
      else clean_segs rooted (seg # acc) segs)"

definition path_Clean :: "string \<Rightarrow> string" where
  "path_Clean p =
     (if p = [] then ''.''
      else (let rooted = (hd p = CHR ''/'');
                joined = Join (clean_segs rooted [] (strings_Split p (CHR ''/''))) ''/''
            in if rooted then ''/'' @ joined else if joined = [] then ''.'' else joined))"

section \<open>Decimal numbers\<close>

definition digit_char :: "nat \<Rightarrow> char" where
  "digit_char n = char_of (48 + n)"

fun dec_nat :: "nat \<Rightarrow> string" where
  "dec_nat n = (if n < 10 then [digit_char n] else dec_nat (n div 10) @ [digit_char (n mod 10)])"

declare dec_nat.simps [simp del]

text \<open>The verb \<^verbatim>\<open>%d\<close>.\<close>

definition Itoa :: "int \<Rightarrow> string" where
  "Itoa i = (if i < 0 then ''-'' @ dec_nat (nat (- i)) else dec_nat (nat i))"

section \<open>Characterisations\<close>

lemma HasPrefix_iff [go_strings]: "HasPrefix s p \<longleftrightarrow> (\<exists>r. s = p @ r)"
  by (auto simp: HasPrefix_def) (metis append_take_drop_id)

lemma HasSuffix_iff [go_strings]: "HasSuffix s p \<longleftrightarrow> (\<exists>r. s = r @ p)"
  by (auto simp: HasSuffix_def) (metis append_take_drop_id)

lemma HasPrefix_append [simp]: "HasPrefix (p @ r) p"
  by (auto simp: HasPrefix_iff)

lemma HasPrefix_Nil [simp]: "HasPrefix s []"
  by (simp add: HasPrefix_iff)

lemma HasPrefix_refl [simp]: "HasPrefix s s"
  by (simp add: HasPrefix_iff)

lemma HasPrefix_Cons [simp]: "HasPrefix (x # s) (y # p) \<longleftrightarrow> x = y \<and> HasPrefix s p"
  by (auto simp: HasPrefix_def)

lemma HasPrefix_Nil_Cons [simp]: "\<not> HasPrefix [] (y # p)"
  by (simp add: HasPrefix_def)

lemma HasPrefix_trans: "HasPrefix s p \<Longrightarrow> HasPrefix p q \<Longrightarrow> HasPrefix s q"
  by (auto simp: HasPrefix_iff)

lemma TrimPrefix_append [simp]: "TrimPrefix (p @ r) p = r"
  by (simp add: TrimPrefix_def)

lemma TrimSuffix_append [simp]: "TrimSuffix (r @ p) p = r"
  by (auto simp: TrimSuffix_def HasSuffix_iff)

lemma TrimSuffix_same: "\<not> HasSuffix s p \<Longrightarrow> TrimSuffix s p = s"
  by (simp add: TrimSuffix_def)

lemma Contains_iff [go_strings]: "Contains s sub \<longleftrightarrow> (\<exists>u v. s = u @ sub @ v)"
proof (induction s)
  case (Cons c s)
  note IH = Cons.IH
  show ?case
  proof
    assume "Contains (c # s) sub"
    then consider r where "c # s = sub @ r" | u v where "s = u @ sub @ v"
      using Cons.IH by (auto simp: HasPrefix_iff)
    then show "\<exists>u v. c # s = u @ sub @ v"
    proof cases
      case 1
      then have "c # s = [] @ sub @ r" by simp
      then show ?thesis by blast
    next
      case 2
      then have "c # s = (c # u) @ sub @ v" by simp
      then show ?thesis by blast
    qed
  next
    assume "\<exists>u v. c # s = u @ sub @ v"
    then obtain u v where uv: "c # s = u @ sub @ v" by blast
    show "Contains (c # s) sub"
    proof (cases u)
      case Nil
      with uv have "HasPrefix (c # s) sub" by (auto simp: HasPrefix_iff)
      then show ?thesis by simp
    next
      case (Cons x u')
      with uv have "\<exists>u v. s = u @ sub @ v" by auto
      then show ?thesis using IH by simp
    qed
  qed
qed auto

lemma Contains_single: "Contains s [c] \<longleftrightarrow> c \<in> set s"
  by (auto simp: Contains_iff dest: split_list)

lemma ContainsAny_iff [go_strings]: "ContainsAny s cs \<longleftrightarrow> (\<exists>c \<in> set s. c \<in> set cs)"
  by (auto simp: ContainsAny_def list_ex_iff)

lemma IndexByte_None: "IndexByte s c = None \<longleftrightarrow> c \<notin> set s"
  by (induction s) auto

lemma IndexByte_Some:
  "IndexByte s c = Some n \<Longrightarrow> n < length s \<and> s = take n s @ c # drop (Suc n) s \<and> c \<notin> set (take n s)"
  by (induction s arbitrary: n) (auto split: if_splits)

lemma strings_Split_not_Nil [simp]: "strings_Split s c \<noteq> []"
  by (induction s) (auto split: list.splits)

lemma strings_Split_no_sep: "seg \<in> set (strings_Split s c) \<Longrightarrow> c \<notin> set seg"
  by (induction s arbitrary: seg) (auto split: list.splits if_splits)

lemma sep_unique:
  assumes "c \<notin> set t" "c \<notin> set t'" "t @ c # x = t' @ c # y"
  shows "t = t' \<and> x = y"
  using assms
proof (induction t arbitrary: t')
  case Nil
  then show ?case by (cases t') auto
next
  case (Cons a t)
  then show ?case by (cases t') auto
qed

lemma TrimSpace_prefix:
  assumes "p \<noteq> []" "\<not> is_space (hd p)" "\<not> is_space (last p)"
  shows "\<exists>r'. TrimSpace (p @ r) = p @ r'"
proof (cases "\<forall>x \<in> set r. is_space x")
  case True
  then have "dropWhile is_space (rev r @ rev p) = dropWhile is_space (rev p)"
    by (intro dropWhile_append2) auto
  moreover have "dropWhile is_space (rev p) = rev p"
    using assms by (cases "rev p") (auto simp: last_rev hd_rev)
  ultimately show ?thesis using assms by (cases p) (auto simp: TrimSpace_def)
next
  case False
  then have "dropWhile is_space (rev r @ rev p) = dropWhile is_space (rev r) @ rev p"
    by (metis dropWhile_append1 set_rev)
  then show ?thesis using assms by (cases p) (auto simp: TrimSpace_def)
qed

lemma TrimSpace_idem [simp]: "TrimSpace (TrimSpace s) = TrimSpace s"
proof -
  define d where "d = dropWhile is_space s"
  define t where "t = rev (dropWhile is_space (rev d))"
  have "dropWhile is_space t = t"
  proof (cases t)
    case (Cons c u)
    then obtain w where "d = t @ w"
      unfolding t_def by (metis rev_append rev_rev_ident takeWhile_dropWhile_id)
    then have "\<not> is_space c" using hd_dropWhile [of is_space s] Cons by (auto simp: d_def)
    then show ?thesis using Cons by simp
  qed simp
  moreover have "dropWhile is_space (rev t) = rev t" by (simp add: t_def dropWhile_idem)
  moreover have "TrimSpace s = t" by (simp add: TrimSpace_def t_def d_def)
  ultimately show ?thesis by (simp add: TrimSpace_def)
qed

lemma TrimSpace_Nil [simp]: "TrimSpace [] = []"
  by (simp add: TrimSpace_def)

lemma to_lower_char_star: "to_lower_char c = CHR ''*'' \<Longrightarrow> c = CHR ''*''"
proof (rule ccontr)
  assume a: "to_lower_char c = CHR ''*''" "c \<noteq> CHR ''*''"
  then have n: "65 \<le> (of_char c :: nat)" "of_char c \<le> (90 :: nat)" "char_of (of_char c + 32 :: nat) = CHR ''*''"
    by (auto simp: to_lower_char_def Let_def split: if_splits)
  have "(of_char (char_of (of_char c + 32 :: nat)) :: nat) = (of_char c + 32) mod 256" by (rule of_char_of)
  then have "(of_char c + 32 :: nat) mod 256 = 42" unfolding n(3) by simp
  then show False using n(1,2) by simp
qed

lemma lower_star: "ToLower s = ''*'' \<Longrightarrow> s = ''*''"
  by (auto simp: ToLower_def to_lower_char_star)

lemma ToLower_append [simp]: "ToLower (s @ t) = ToLower s @ ToLower t"
  by (simp add: ToLower_def)

end
