(* ===== verification/Glob.thy ===== *)
theory Glob
  imports GoStrings
begin

text \<open>
  Resource patterns of RBAC policies. Two matchers exist in the source: the one the
  authorisation path calls, \<^verbatim>\<open>MatchResource\<close> of \<^verbatim>\<open>internal/domain/auth/policy.go\<close>, and
  \<^verbatim>\<open>MatchResourceGlob\<close> of \<^verbatim>\<open>internal/auth/glob.go\<close>. Both run a backtracking loop over
  the byte positions of pattern and resource; the model runs over the remaining suffixes.
  The specification is the language of a token list (\<open>glob_lang\<close>), and both loops are
  proved to decide it, the first with a star that crosses slashes, the second with one
  that does not.
\<close>

section \<open>The positions a wildcard tries\<close>

text \<open>
  The loop after \<^verbatim>\<open>**/\<close> tries the current position, then the one after each slash, then
  the end of the string.
\<close>

function slash_suffixes :: "string \<Rightarrow> string list" where
  "slash_suffixes s =
     (if s = [] then [[]]
      else s # (case IndexByte s (CHR ''/'') of
                  None \<Rightarrow> [[]]
                | Some n \<Rightarrow> slash_suffixes (drop (Suc n) s)))"
  by pat_completeness auto
termination
  by (relation "measure length") (auto dest: IndexByte_Some)

declare slash_suffixes.simps [simp del]

text \<open>The loop after a single star that stops at the first slash.\<close>

fun seg_suffixes :: "string \<Rightarrow> string list" where
  "seg_suffixes [] = [[]]"
| "seg_suffixes (c # s) = (c # s) # (if c = CHR ''/'' then [] else seg_suffixes s)"

section \<open>The two matching loops\<close>

fun globMatch :: "string \<Rightarrow> string \<Rightarrow> bool" where
  "globMatch [] str = (str = [])"
| "globMatch (c # pat) str =
     (if c = CHR ''*'' then
        (if HasPrefix pat ''*'' then
           (if HasPrefix (tl pat) ''/''
            then list_ex (globMatch (drop 2 pat)) (slash_suffixes str)
            else list_ex (globMatch (drop 1 pat)) (suffixes_of str))
         else list_ex (globMatch pat) (suffixes_of str))
      else if c = CHR ''?'' then
        (case str of [] \<Rightarrow> False
         | x # str' \<Rightarrow> x \<noteq> CHR ''/'' \<and> globMatch pat str')
      else
        (case str of [] \<Rightarrow> False
         | x # str' \<Rightarrow> c = x \<and> globMatch pat str'))"

fun matchGlob :: "string \<Rightarrow> string \<Rightarrow> bool" where
  "matchGlob [] str = (str = [])"
| "matchGlob (c # pat) str =
     (if c = CHR ''*'' then
        (if HasPrefix pat ''*'' then
           (if HasPrefix (tl pat) ''/''
            then list_ex (matchGlob (drop 2 pat)) (slash_suffixes str)
            else list_ex (matchGlob (drop 1 pat)) (suffixes_of str))
         else list_ex (matchGlob pat) (seg_suffixes str))
      else if c = CHR ''?'' then
        (case str of [] \<Rightarrow> False
         | x # str' \<Rightarrow> x \<noteq> CHR ''/'' \<and> matchGlob pat str')
      else
        (case str of [] \<Rightarrow> False
         | x # str' \<Rightarrow> c = x \<and> matchGlob pat str'))"

definition matchResourceGlob :: "string \<Rightarrow> string \<Rightarrow> bool" where
  "matchResourceGlob pattern resource \<longleftrightarrow>
     (if pattern = ''*'' \<or> pattern = ''*/*'' then True else globMatch pattern resource)"

definition MatchResource :: "string \<Rightarrow> string \<Rightarrow> bool" where
  "MatchResource pattern resource \<longleftrightarrow>
     (if pattern = ''*'' \<or> pattern = ''*/*'' then True
      else if HasSuffix pattern ''/*'' \<and> \<not> Contains (TrimSuffix pattern ''/*'') ''*''
              \<and> \<not> Contains pattern ''?''
      then (let prefix = TrimSuffix pattern ''/*''
            in resource = prefix \<or> HasPrefix resource (prefix @ ''/''))
      else if ContainsAny pattern ''*?'' then matchResourceGlob pattern resource
      else pattern = resource)"

definition MatchAction :: "string \<Rightarrow> string \<Rightarrow> bool" where
  "MatchAction pattern action \<longleftrightarrow> pattern = ''*'' \<or> pattern = action"

definition MatchResourceLegacy :: "string \<Rightarrow> string \<Rightarrow> bool" where
  "MatchResourceLegacy pattern resource \<longleftrightarrow>
     (if pattern = ''*'' \<or> pattern = ''*/*'' then True
      else if HasSuffix pattern ''/*''
      then (let prefix = TrimSuffix pattern ''/*''
            in resource = prefix \<or> HasPrefix resource (prefix @ ''/''))
      else pattern = resource)"

definition MatchResourceGlob :: "string \<Rightarrow> string \<Rightarrow> bool" where
  "MatchResourceGlob pattern resource \<longleftrightarrow>
     (if pattern = ''*'' \<or> pattern = ''*/*'' then True
      else if \<not> ContainsAny pattern ''*?'' then MatchResourceLegacy pattern resource
      else matchGlob pattern resource)"

definition ValidateResourcePattern :: "string \<Rightarrow> unit res" where
  "ValidateResourcePattern pattern =
     (if pattern = [] then Inl (Plain ''empty resource pattern'')
      else if Count pattern ''**'' > 1 then Inl (Plain ''ambiguous pattern: multiple ** in %q'')
      else Inr ())"

section \<open>The language of a pattern\<close>

datatype gtok = DStarSlash | DStar | Star | Quest | Lit char

fun glob_tokens :: "string \<Rightarrow> gtok list" where
  "glob_tokens [] = []"
| "glob_tokens (c # pat) =
     (if c = CHR ''*'' then
        (if HasPrefix pat ''*'' then
           (if HasPrefix (tl pat) ''/'' then DStarSlash # glob_tokens (drop 2 pat)
            else DStar # glob_tokens (drop 1 pat))
         else Star # glob_tokens pat)
      else if c = CHR ''?'' then Quest # glob_tokens pat
      else Lit c # glob_tokens pat)"

text \<open>
  \<open>cross\<close> says whether a single star may run over a slash. After \<^verbatim>\<open>**/\<close> the text
  consumed is empty, ends with a slash, or is all that is left.
\<close>

inductive glob_lang :: "bool \<Rightarrow> gtok list \<Rightarrow> string \<Rightarrow> bool" for cross :: bool where
  glob_nil: "glob_lang cross [] []"
| glob_lit: "glob_lang cross ts s \<Longrightarrow> glob_lang cross (Lit c # ts) (c # s)"
| glob_quest: "c \<noteq> CHR ''/'' \<Longrightarrow> glob_lang cross ts s \<Longrightarrow> glob_lang cross (Quest # ts) (c # s)"
| glob_star: "cross \<or> CHR ''/'' \<notin> set u \<Longrightarrow> glob_lang cross ts s \<Longrightarrow>
    glob_lang cross (Star # ts) (u @ s)"
| glob_dstar: "glob_lang cross ts s \<Longrightarrow> glob_lang cross (DStar # ts) (u @ s)"
| glob_dstar_slash: "u = [] \<or> last u = CHR ''/'' \<or> s = [] \<Longrightarrow> glob_lang cross ts s \<Longrightarrow>
    glob_lang cross (DStarSlash # ts) (u @ s)"

inductive_simps glob_lang_Nil_simp [simp]: "glob_lang cross [] s"
inductive_simps glob_lang_Lit_simp: "glob_lang cross (Lit c # ts) s"
inductive_simps glob_lang_Quest_simp: "glob_lang cross (Quest # ts) s"
inductive_simps glob_lang_Star_simp: "glob_lang cross (Star # ts) s"
inductive_simps glob_lang_DStar_simp: "glob_lang cross (DStar # ts) s"
inductive_simps glob_lang_DStarSlash_simp: "glob_lang cross (DStarSlash # ts) s"

lemmas glob_lang_simps =
  glob_lang_Lit_simp glob_lang_Quest_simp glob_lang_Star_simp
  glob_lang_DStar_simp glob_lang_DStarSlash_simp

lemma set_seg_suffixes:
  "set (seg_suffixes s) = {t. \<exists>u. s = u @ t \<and> CHR ''/'' \<notin> set u}"
proof (induction s)
  case (Cons c s)
  show ?case
  proof (intro set_eqI iffI)
    fix t assume "t \<in> set (seg_suffixes (c # s))"
    then consider "t = c # s" | u where "c \<noteq> CHR ''/''" "s = u @ t" "CHR ''/'' \<notin> set u"
      using Cons.IH by (auto split: if_splits)
    then show "t \<in> {t. \<exists>u. c # s = u @ t \<and> CHR ''/'' \<notin> set u}"
      by cases (auto intro: exI [of _ "[]"] exI [of _ "c # _"])
  next
    fix t assume "t \<in> {t. \<exists>u. c # s = u @ t \<and> CHR ''/'' \<notin> set u}"
    then obtain u where "c # s = u @ t" "CHR ''/'' \<notin> set u" by auto
    then show "t \<in> set (seg_suffixes (c # s))"
      using Cons.IH by (cases u) auto
  qed
qed auto

lemma slash_suffixes_sound:
  "t \<in> set (slash_suffixes s) \<Longrightarrow> \<exists>u. s = u @ t \<and> (u = [] \<or> last u = CHR ''/'' \<or> t = [])"
proof (induction s rule: slash_suffixes.induct)
  case (1 s)
  show ?case
  proof (cases "s = [] \<or> t = s \<or> t = []")
    case True
    with "1.prems" show ?thesis
      by (auto simp: slash_suffixes.simps [of s])
  next
    case False
    with "1.prems" obtain n where n: "IndexByte s (CHR ''/'') = Some n"
      and t: "t \<in> set (slash_suffixes (drop (Suc n) s))"
      by (auto simp: slash_suffixes.simps [of s] split: option.splits)
    from "1.IH" False n t obtain u where u: "drop (Suc n) s = u @ t"
      "u = [] \<or> last u = CHR ''/'' \<or> t = []" by blast
    from IndexByte_Some [OF n] have "s = (take n s @ [CHR ''/'']) @ u @ t"
      using u(1) by (metis append.assoc append_Cons append_Nil)
    moreover have "(take n s @ [CHR ''/'']) @ u \<noteq> []" by simp
    ultimately show ?thesis
      using u(2) by (intro exI [of _ "(take n s @ [CHR ''/'']) @ u"]) auto
  qed
qed

lemma slash_suffixes_self [simp]: "s \<in> set (slash_suffixes s)"
  by (simp add: slash_suffixes.simps [of s])

lemma slash_suffixes_complete:
  "s = u @ t \<Longrightarrow> u = [] \<or> last u = CHR ''/'' \<or> t = [] \<Longrightarrow> t \<in> set (slash_suffixes s)"
proof (induction s arbitrary: u rule: slash_suffixes.induct)
  case (1 s)
  show ?case
  proof (cases "s = [] \<or> u = []")
    case True
    with "1.prems" show ?thesis by auto
  next
    case False
    show ?thesis
    proof (cases "IndexByte s (CHR ''/'')")
      case None
      with "1.prems"(1) have "CHR ''/'' \<notin> set u" by (simp add: IndexByte_None)
      with "1.prems"(2) False have "t = []" by (metis last_in_set)
      with None False show ?thesis by (simp add: slash_suffixes.simps [of s])
    next
      case (Some n)
      note n = IndexByte_Some [OF Some]
      show ?thesis
      proof (cases "Suc n \<le> length u")
        case True
        with "1.prems"(1) have d: "drop (Suc n) s = drop (Suc n) u @ t" by simp
        have "drop (Suc n) u = [] \<or> last (drop (Suc n) u) = CHR ''/'' \<or> t = []"
          using "1.prems"(2) False by (auto simp: last_drop)
        from "1.IH" [OF _ Some d this] False Some show ?thesis
          by (simp add: slash_suffixes.simps [of s])
      next
        case short: False
        have "t = []"
        proof (rule ccontr)
          assume "t \<noteq> []"
          with "1.prems"(2) False have "CHR ''/'' \<in> set u" by (metis last_in_set)
          moreover have "set u \<subseteq> set (take n s)"
            using short "1.prems"(1) by simp
          ultimately show False using n by blast
        qed
        with short "1.prems"(1) n show ?thesis by simp
      qed
    qed
  qed
qed

lemma set_slash_suffixes:
  "set (slash_suffixes s) = {t. \<exists>u. s = u @ t \<and> (u = [] \<or> last u = CHR ''/'' \<or> t = [])}"
  using slash_suffixes_sound slash_suffixes_complete by blast

section \<open>Both loops decide the language\<close>

lemma globMatch_lang: "globMatch p s \<longleftrightarrow> glob_lang True (glob_tokens p) s"
  by (induction p s rule: globMatch.induct)
    (auto simp: glob_lang_simps list_ex_iff set_suffixes_of set_slash_suffixes split: list.splits)

lemma matchGlob_lang: "matchGlob p s \<longleftrightarrow> glob_lang False (glob_tokens p) s"
  by (induction p s rule: matchGlob.induct)
    (auto simp: glob_lang_simps list_ex_iff set_suffixes_of set_slash_suffixes set_seg_suffixes
      split: list.splits)

lemma glob_lang_mono: "glob_lang False ts s \<Longrightarrow> glob_lang True ts s"
  by (induction rule: glob_lang.induct) (auto intro: glob_lang.intros)

section \<open>Literal patterns with one wildcard\<close>

definition literal :: "string \<Rightarrow> bool" where
  "literal p \<longleftrightarrow> CHR ''*'' \<notin> set p \<and> CHR ''?'' \<notin> set p"

lemma literal_Cons [simp]:
  "literal (c # p) \<longleftrightarrow> c \<noteq> CHR ''*'' \<and> c \<noteq> CHR ''?'' \<and> literal p"
  by (auto simp: literal_def)

lemma literal_Nil [simp]: "literal []"
  by (simp add: literal_def)

lemma glob_tokens_literal: "literal p \<Longrightarrow> glob_tokens (p @ q) = map Lit p @ glob_tokens q"
  by (induction p) auto

lemma glob_lang_literal:
  "glob_lang x (map Lit p @ ts) s \<longleftrightarrow> (\<exists>r. s = p @ r \<and> glob_lang x ts r)"
  by (induction p arbitrary: s) (auto simp: glob_lang_simps)

lemma literal_star_lang:
  assumes "literal p"
  shows "glob_lang x (glob_tokens (p @ ''*'')) s \<longleftrightarrow>
    (\<exists>u. s = p @ u \<and> (x \<or> CHR ''/'' \<notin> set u))"
  using assms by (simp add: glob_tokens_literal glob_lang_literal glob_lang_simps)

lemma star_pattern_simps [simp]:
  "p @ ''*'' = ''*'' \<longleftrightarrow> p = []"
  "p @ ''*'' = ''*/*'' \<longleftrightarrow> p = ''*/''"
  by (auto simp: append_eq_Cons_conv)

lemma HasSuffix_star: "HasSuffix (p @ ''*'') ''/*'' \<longleftrightarrow> (\<exists>q. p = q @ ''/'')"
  by (auto simp: HasSuffix_iff append_eq_append_conv2 Cons_eq_append_conv)

lemma ContainsAny_star [simp]: "ContainsAny (p @ ''*'') ''*?''"
  by (simp add: ContainsAny_iff)

lemma legacy_branch_iff:
  "HasSuffix p ''/*'' \<and> \<not> Contains (TrimSuffix p ''/*'') ''*'' \<and> \<not> Contains p ''?'' \<longleftrightarrow>
   (\<exists>q. literal q \<and> p = q @ ''/*'')"
  by (auto simp: HasSuffix_iff Contains_single literal_def)

lemma literal_slash_star_lang:
  "literal q \<Longrightarrow> glob_lang True (glob_tokens (q @ ''/*'')) r \<longleftrightarrow> HasPrefix r (q @ ''/'')"
  using literal_star_lang [of "q @ ''/''" True r] by (auto simp: literal_def HasPrefix_iff)

lemma literal_slash_star_match:
  assumes "literal q"
  shows "MatchResource (q @ ''/*'') r \<longleftrightarrow> r = q \<or> HasPrefix r (q @ ''/'')"
proof -
  have "q @ ''/*'' \<noteq> ''*''" "q @ ''/*'' \<noteq> ''*/*''"
    using assms by (auto simp: literal_def append_eq_Cons_conv)
  moreover have "HasSuffix (q @ ''/*'') ''/*''" "\<not> Contains q ''*''" "\<not> Contains (q @ ''/*'') ''?''"
    using assms by (auto simp: HasSuffix_iff Contains_single literal_def)
  ultimately show ?thesis by (simp add: MatchResource_def Let_def)
qed

lemma no_wildcard_literal: "\<not> ContainsAny p ''*?'' \<Longrightarrow> literal p"
  by (simp add: ContainsAny_iff literal_def) blast

lemma no_wildcard_lang:
  assumes "\<not> ContainsAny p ''*?''"
  shows "glob_lang x (glob_tokens p) r \<longleftrightarrow> p = r"
proof -
  from glob_tokens_literal [OF no_wildcard_literal [OF assms], of "[]"]
  have eq: "glob_tokens p = map Lit p @ []" by simp
  show ?thesis unfolding eq glob_lang_literal by auto
qed

lemma star_lang [simp]: "glob_lang True [Star] r"
  by (auto simp: glob_lang_simps)

lemma no_wildcard_facts:
  assumes "\<not> ContainsAny p ''*?''"
  shows "\<not> HasSuffix p ''/*''" "p \<noteq> ''*''" "p \<noteq> ''*/*''"
  using no_wildcard_literal [OF assms] by (auto simp: literal_def HasSuffix_iff)

lemma no_wildcard_legacy:
  "\<not> ContainsAny p ''*?'' \<Longrightarrow> MatchResourceLegacy p r \<longleftrightarrow> p = r"
  by (simp add: MatchResourceLegacy_def no_wildcard_facts)

section \<open>What the enforced matcher accepts\<close>


text \<open>
  The two matchers differ exactly in the single star. For a literal prefix \<open>p\<close> that
  does not end in a slash, the enforced matcher lets \<open>p*\<close> accept every resource that begins
  with \<open>p\<close>, through any number of path segments; the matcher of \<^verbatim>\<open>glob.go\<close> accepts only
  those whose rest stays in one segment.
\<close>
theorem single_star_crosses_segments:
  assumes "literal p" "p \<noteq> []" "\<not> HasSuffix p ''/''"
  shows "(MatchResource (p @ ''*'') r \<longleftrightarrow> HasPrefix r p) \<and>
    (MatchResourceGlob (p @ ''*'') r \<longleftrightarrow> (\<exists>u. r = p @ u \<and> CHR ''/'' \<notin> set u))"
proof
  have ne: "p \<noteq> ''*/''" using assms(3) by (auto simp: HasSuffix_iff)
  have "\<not> HasSuffix (p @ ''*'') ''/*''"
    using assms(3) by (auto simp: HasSuffix_star) (auto simp: HasSuffix_iff)
  then show "MatchResource (p @ ''*'') r \<longleftrightarrow> HasPrefix r p"
    using assms ne
    by (simp add: MatchResource_def matchResourceGlob_def globMatch_lang literal_star_lang HasPrefix_iff)
  show "MatchResourceGlob (p @ ''*'') r \<longleftrightarrow> (\<exists>u. r = p @ u \<and> CHR ''/'' \<notin> set u)"
    using assms ne by (simp add: MatchResourceGlob_def matchGlob_lang literal_star_lang)
qed

theorem single_star_crosses_segments_witness:
  "MatchResource ''secrets/kv/team-*'' ''secrets/kv/team-a/root/key'' \<and>
   \<not> MatchResourceGlob ''secrets/kv/team-*'' ''secrets/kv/team-a/root/key''"
  using single_star_crosses_segments [of "''secrets/kv/team-''" "''secrets/kv/team-a/root/key''"]
  by (auto simp: HasSuffix_def HasPrefix_def)

text \<open>
  The enforced matcher is never stricter than the one of \<^verbatim>\<open>glob.go\<close>.
\<close>
theorem MatchResourceGlob_implies_MatchResource:
  assumes "MatchResourceGlob p r"
  shows "MatchResource p r"
proof (cases "p = ''*'' \<or> p = ''*/*'' \<or> \<not> ContainsAny p ''*?''")
  case True
  then consider "p = ''*'' \<or> p = ''*/*''" | "\<not> ContainsAny p ''*?''" "\<not> (p = ''*'' \<or> p = ''*/*'')"
    by blast
  then show ?thesis
  proof cases
    case 2
    with assms have "p = r" by (simp add: MatchResourceGlob_def no_wildcard_legacy)
    with 2 show ?thesis by (simp add: MatchResource_def no_wildcard_facts)
  qed (auto simp: MatchResource_def)
next
  case False
  with assms have "glob_lang True (glob_tokens p) r"
    by (auto simp: MatchResourceGlob_def matchGlob_lang intro: glob_lang_mono)
  show ?thesis
  proof (cases "\<exists>q. literal q \<and> p = q @ ''/*''")
    case True
    with \<open>glob_lang True (glob_tokens p) r\<close> show ?thesis
      by (auto simp: literal_slash_star_lang literal_slash_star_match)
  next
    case no_legacy: False
    from False \<open>glob_lang True (glob_tokens p) r\<close> show ?thesis
      unfolding MatchResource_def legacy_branch_iff if_not_P [OF no_legacy]
      by (simp add: matchResourceGlob_def globMatch_lang)
  qed
qed

theorem MatchResourceGlob_implies_MatchResource_witness:
  "MatchResourceGlob ''team-?/**/db'' ''team-a/x/y/db'' \<and> MatchResource ''team-?/**/db'' ''team-a/x/y/db''"
proof -
  have "MatchResourceGlob ''team-?/**/db'' ''team-a/x/y/db''" by code_simp
  with MatchResourceGlob_implies_MatchResource show ?thesis by blast
qed

end
