(* ===== verification/GoTime.thy ===== *)
theory GoTime
  imports GoStrings
begin

text \<open>
  Instants and durations of Go's package \<^verbatim>\<open>time\<close>. An instant is its number of nanoseconds
  since 1 January of year 1, UTC, so that the zero \<^verbatim>\<open>time.Time\<close> is 0. A duration is its
  number of nanoseconds, an int64: \<open>wrap64\<close> is written where the code multiplies a client
  supplied number. The functions that read the clock take the instant as an argument.
  \<^verbatim>\<open>time.Parse\<close> is given for the one layout the vault parses, RFC 3339, with Go's
  leniencies: a one digit hour, a comma before the fraction, offsets up to 24:60.
\<close>

type_synonym go_time = int
type_synonym duration = int

definition Second :: duration where "Second = 1000000000"
definition Minute :: duration where "Minute = 60000000000"
definition Hour :: duration where "Hour = 3600000000000"

lemmas duration_units = Second_def Minute_def Hour_def

definition wrap64 :: "int \<Rightarrow> int" where
  "wrap64 x = (x + 2 ^ 63) mod 2 ^ 64 - 2 ^ 63"

lemma wrap64_id: "- (2 ^ 63) \<le> x \<Longrightarrow> x < 2 ^ 63 \<Longrightarrow> wrap64 x = x"
  by (simp add: wrap64_def)

lemma wrap64_range: "- (2 ^ 63) \<le> wrap64 x \<and> wrap64 x < 2 ^ 63"
  by (simp add: wrap64_def)

definition IsZero :: "go_time \<Rightarrow> bool" where
  "IsZero t \<longleftrightarrow> t = 0"

definition Unix :: "go_time \<Rightarrow> int" where
  "Unix t = t div Second - 62135596800"

text \<open>\<^verbatim>\<open>Time.Sub\<close> saturates at the bounds of a duration.\<close>

definition time_Sub :: "go_time \<Rightarrow> go_time \<Rightarrow> duration" where
  "time_Sub t u = max (- (2 ^ 63)) (min (2 ^ 63 - 1) (t - u))"

section \<open>Calendar\<close>

definition is_leap :: "int \<Rightarrow> bool" where
  "is_leap y \<longleftrightarrow> y mod 4 = 0 \<and> (y mod 100 \<noteq> 0 \<or> y mod 400 = 0)"

definition daysIn :: "int \<Rightarrow> int \<Rightarrow> int" where
  "daysIn m y =
     (if m = 2 then (if is_leap y then 29 else 28)
      else if m = 4 \<or> m = 6 \<or> m = 9 \<or> m = 11 then 30 else 31)"

definition days_before_year :: "int \<Rightarrow> int" where
  "days_before_year y = 365 * (y - 1) + (y - 1) div 4 - (y - 1) div 100 + (y - 1) div 400"

fun days_before_month :: "nat \<Rightarrow> int \<Rightarrow> int" where
  "days_before_month 0 y = 0"
| "days_before_month (Suc m) y = (if m = 0 then 0 else days_before_month m y + daysIn (int m) y)"

definition Date :: "int \<Rightarrow> int \<Rightarrow> int \<Rightarrow> int \<Rightarrow> int \<Rightarrow> int \<Rightarrow> int \<Rightarrow> go_time" where
  "Date y m d hh mm ss ns =
     (days_before_year y + days_before_month (nat m) y + (d - 1)) * (24 * Hour)
       + hh * Hour + mm * Minute + ss * Second + ns"

section \<open>Parsing RFC 3339\<close>

definition is_digit :: "char \<Rightarrow> bool" where
  "is_digit c \<longleftrightarrow> 48 \<le> (of_char c :: nat) \<and> (of_char c :: nat) \<le> 57"

definition digit_val :: "char \<Rightarrow> int" where
  "digit_val c = int (of_char c) - 48"

definition digits_val :: "string \<Rightarrow> int" where
  "digits_val = foldl (\<lambda>n c. n * 10 + digit_val c) 0"

text \<open>\<^verbatim>\<open>getnum\<close>: two digits, or one when the field is not fixed.\<close>

definition getnum :: "bool \<Rightarrow> string \<Rightarrow> (int \<times> string) option" where
  "getnum fixed s =
     (case s of
        [] \<Rightarrow> None
      | c # s' \<Rightarrow>
          if \<not> is_digit c then None
          else (case s' of
                  [] \<Rightarrow> if fixed then None else Some (digit_val c, s')
                | d # s'' \<Rightarrow>
                    if is_digit d then Some (digit_val c * 10 + digit_val d, s'')
                    else if fixed then None else Some (digit_val c, s')))"

definition get_year :: "string \<Rightarrow> (int \<times> string) option" where
  "get_year s =
     (if length s \<ge> 4 \<and> list_all is_digit (take 4 s) then Some (digits_val (take 4 s), drop 4 s)
      else None)"

definition skip_char :: "char \<Rightarrow> string \<Rightarrow> string option" where
  "skip_char c s = (case s of [] \<Rightarrow> None | x # s' \<Rightarrow> if x = c then Some s' else None)"

definition in_range :: "int \<Rightarrow> int \<Rightarrow> int \<times> string \<Rightarrow> (int \<times> string) option" where
  "in_range lo hi p = (if lo \<le> fst p \<and> fst p \<le> hi then Some p else None)"

text \<open>A fraction of a second: at most nine digits count.\<close>

definition get_fraction :: "string \<Rightarrow> int \<times> string" where
  "get_fraction s =
     (case s of
        c # d # _ \<Rightarrow>
          if (c = CHR ''.'' \<or> c = CHR '','') \<and> is_digit d
          then (let ds = takeWhile is_digit (tl s); nine = take 9 ds
                in (digits_val nine * 10 ^ (9 - length nine), drop (length ds) (tl s)))
          else (0, s)
      | _ \<Rightarrow> (0, s))"

definition get_offset :: "string \<Rightarrow> (int \<times> string) option" where
  "get_offset s =
     (case s of
        [] \<Rightarrow> None
      | z # s' \<Rightarrow>
          if z = CHR ''Z'' then Some (0, s')
          else if length s < 6 \<or> s ! 3 \<noteq> CHR '':'' then None
          else (case (getnum True (take 2 s'), getnum True (take 2 (drop 4 s))) of
                  (Some (hr, _), Some (mm, _)) \<Rightarrow>
                    if hr > 24 \<or> mm > 60 then None
                    else if z = CHR ''+'' then Some ((hr * 60 + mm) * 60, drop 6 s)
                    else if z = CHR ''-'' then Some (- ((hr * 60 + mm) * 60), drop 6 s)
                    else None
                | _ \<Rightarrow> None))"

definition ParseRFC3339 :: "string \<Rightarrow> go_time option" where
  "ParseRFC3339 s0 =
     Option.bind (get_year s0) (\<lambda>(y, s).
     Option.bind (skip_char (CHR ''-'') s) (\<lambda>s.
     Option.bind (Option.bind (getnum True s) (in_range 1 12)) (\<lambda>(mo, s).
     Option.bind (skip_char (CHR ''-'') s) (\<lambda>s.
     Option.bind (getnum True s) (\<lambda>(d, s).
     Option.bind (skip_char (CHR ''T'') s) (\<lambda>s.
     Option.bind (Option.bind (getnum False s) (in_range 0 23)) (\<lambda>(hh, s).
     Option.bind (skip_char (CHR '':'') s) (\<lambda>s.
     Option.bind (Option.bind (getnum True s) (in_range 0 59)) (\<lambda>(mi, s).
     Option.bind (skip_char (CHR '':'') s) (\<lambda>s.
     Option.bind (Option.bind (getnum True s) (in_range 0 59)) (\<lambda>(ss, s).
     (let (ns, s) = get_fraction s in
     Option.bind (get_offset s) (\<lambda>(off, s).
       if s \<noteq> [] \<or> d < 1 \<or> d > daysIn mo y then None
       else Some (Date y mo d hh mi ss ns - off * Second))))))))))))))"

section \<open>Formatting RFC 3339\<close>

text \<open>The civil date of a day number counted from 1 January of year 1, by cycles of 400, 100, 4 and 1 years.\<close>

definition civil_year :: "int \<Rightarrow> int \<times> int" where
  "civil_year days =
     (let n400 = days div 146097; d = days mod 146097;
          n100 = min 3 (d div 36524); d1 = d - 36524 * n100;
          n4 = d1 div 1461; d2 = d1 mod 1461;
          n1 = min 3 (d2 div 365)
      in (400 * n400 + 100 * n100 + 4 * n4 + n1 + 1, d2 - 365 * n1))"

definition civil_month :: "int \<Rightarrow> int \<Rightarrow> nat" where
  "civil_month y yday = length (filter (\<lambda>m. days_before_month m y \<le> yday) [1..<13])"

definition pad_dec :: "nat \<Rightarrow> int \<Rightarrow> string" where
  "pad_dec w n = (let s = dec_nat (nat n) in replicate (w - length s) (CHR ''0'') @ s)"

text \<open>A fraction of nine digits without its trailing zeros, with the dot when anything is left.\<close>

definition fraction_nano :: "int \<Rightarrow> string" where
  "fraction_nano ns =
     (let ds = rev (dropWhile (\<lambda>c. c = CHR ''0'') (rev (pad_dec 9 ns))) in if ds = [] then [] else CHR ''.'' # ds)"

text \<open>\<^verbatim>\<open>Format(time.RFC3339Nano)\<close> of an instant in UTC, for the years 0 to 9999.\<close>

definition FormatRFC3339Nano :: "go_time \<Rightarrow> string" where
  "FormatRFC3339Nano t =
     (let days = t div (24 * Hour); rest = t mod (24 * Hour); (y, yday) = civil_year days; m = civil_month y yday
      in pad_dec 4 y @ ''-'' @ pad_dec 2 (int m) @ ''-'' @ pad_dec 2 (yday - days_before_month m y + 1) @ ''T'' @
         pad_dec 2 (rest div Hour) @ '':'' @ pad_dec 2 (rest mod Hour div Minute) @ '':'' @
         pad_dec 2 (rest mod Minute div Second) @ fraction_nano (rest mod Second) @ ''Z'')"

lemma is_digit_char: "n < 10 \<Longrightarrow> is_digit (digit_char n)"
proof -
  have "\<forall>n \<in> set [0..<10]. is_digit (digit_char n)" by code_simp
  then show "n < 10 \<Longrightarrow> is_digit (digit_char n)" by auto
qed

lemma set_dec_nat: "set (dec_nat n) \<subseteq> Collect is_digit"
proof (induction n rule: dec_nat.induct)
  case (1 n)
  show ?case
  proof (cases "n < 10")
    case True
    then show ?thesis using is_digit_char [of n] by (subst dec_nat.simps) simp
  next
    case False
    then show ?thesis using 1 is_digit_char [of "n mod 10"] by (subst dec_nat.simps) simp
  qed
qed

lemma set_pad_dec: "set (pad_dec w n) \<subseteq> Collect is_digit"
  using set_dec_nat [of "nat n"] by (auto simp: pad_dec_def Let_def is_digit_def)

lemma set_fraction_nano: "set (fraction_nano ns) \<subseteq> insert (CHR ''.'') (Collect is_digit)"
proof -
  let ?d = "dropWhile (\<lambda>c. c = CHR ''0'') (rev (pad_dec 9 ns))"
  have "set ?d \<subseteq> set (rev (pad_dec 9 ns))" by (auto dest: set_dropWhileD)
  then have "set ?d \<subseteq> Collect is_digit" using set_pad_dec [of 9 ns] by simp
  then show ?thesis unfolding fraction_nano_def Let_def by auto
qed

lemma FormatRFC3339Nano_no_bar: "CHR ''|'' \<notin> set (FormatRFC3339Nano t)"
proof -
  have "CHR ''|'' \<notin> set (pad_dec w n)" "CHR ''|'' \<notin> set (fraction_nano n)" for w n
    using set_pad_dec [of w n] set_fraction_nano [of n] by (auto simp: is_digit_def)
  then show ?thesis by (simp add: FormatRFC3339Nano_def Let_def split: prod.split)
qed

end
