(* ===== verification/GoNet.thy ===== *)
theory GoNet
  imports GoTime
begin

text \<open>
  Addresses of Go's package \<^verbatim>\<open>net\<close>: \<^verbatim>\<open>ParseIP\<close>, \<^verbatim>\<open>ParseCIDR\<close> and
  \<^verbatim>\<open>IPNet.Contains\<close>. An address is its 16 octets (an IPv4 address mapped into IPv6), each a
  \<open>nat\<close> below 256. A network is the masked address and the prefix length, both in the family
  (4 or 16 octets) of the address written.
\<close>

unbundle bit_operations_syntax

section \<open>Parsing addresses\<close>

definition hex_val :: "char \<Rightarrow> nat option" where
  "hex_val c =
     (let n = (of_char c :: nat)
      in if 48 \<le> n \<and> n \<le> 57 then Some (n - 48)
         else if 97 \<le> n \<and> n \<le> 102 then Some (n - 87)
         else if 65 \<le> n \<and> n \<le> 70 then Some (n - 55)
         else None)"

text \<open>One decimal field: digits only, no leading zero, at most 255.\<close>

definition octet :: "string \<Rightarrow> nat option" where
  "octet s =
     (if s = [] \<or> \<not> list_all is_digit s then None
      else if length s > 1 \<and> hd s = CHR ''0'' then None
      else if digits_val s > 255 then None
      else Some (nat (digits_val s)))"

definition parseIPv4Fields :: "string \<Rightarrow> nat list option" where
  "parseIPv4Fields s =
     (let fs = map octet (strings_Split s (CHR ''.''))
      in if length fs = 4 \<and> list_all (\<lambda>f. f \<noteq> None) fs then Some (map the fs) else None)"

definition v4InV6Prefix :: "nat list" where
  "v4InV6Prefix = replicate 10 0 @ [255, 255]"

text \<open>
  The loop of \<^verbatim>\<open>parseIPv6\<close>: the octets read so far, the position of the ellipsis if one was
  seen, and the rest of the text. Every round reads two octets (or the trailing IPv4 part) and
  the loop ends at sixteen, so the fuel of eight rounds is enough.
\<close>

definition hex_group :: "string \<Rightarrow> (nat \<times> string) option" where
  "hex_group s =
     (let ds = takeWhile (\<lambda>c. hex_val c \<noteq> None) s
      in if ds = [] \<or> length ds > 4 then None
         else Some (foldl (\<lambda>acc c. acc * 16 + the (hex_val c)) 0 ds, drop (length ds) s))"

fun parseIPv6_loop :: "nat \<Rightarrow> nat list \<Rightarrow> nat option \<Rightarrow> string
    \<Rightarrow> (nat list \<times> nat option \<times> string) option" where
  "parseIPv6_loop 0 ip ell s = Some (ip, ell, s)"
| "parseIPv6_loop (Suc k) ip ell s =
     (case hex_group s of
        None \<Rightarrow> None
      | Some (acc, s') \<Rightarrow>
          if s' \<noteq> [] \<and> hd s' = CHR ''.'' then
            (if ell = None \<and> length ip \<noteq> 12 then None
             else if length ip + 4 > 16 then None
             else (case parseIPv4Fields s of
                     None \<Rightarrow> None
                   | Some v4 \<Rightarrow> Some (ip @ v4, ell, [])))
          else
            (let ip' = ip @ [acc div 256, acc mod 256]
             in if s' = [] then Some (ip', ell, [])
                else if hd s' \<noteq> CHR '':'' \<or> length s' = 1 then None
                else (let s'' = tl s'
                      in if hd s'' = CHR '':'' then
                           (if ell \<noteq> None then None
                            else if tl s'' = [] then Some (ip', Some (length ip'), [])
                            else parseIPv6_loop k ip' (Some (length ip')) (tl s''))
                         else parseIPv6_loop k ip' ell s'')))"

definition expand_ellipsis :: "nat list \<Rightarrow> nat option \<Rightarrow> nat list option" where
  "expand_ellipsis ip ell =
     (if length ip < 16 then
        (case ell of
           None \<Rightarrow> None
         | Some e \<Rightarrow> Some (take e ip @ replicate (16 - length ip) 0 @ drop e ip))
      else if ell \<noteq> None then None
      else Some ip)"

definition parseIPv6 :: "string \<Rightarrow> nat list option" where
  "parseIPv6 s =
     (let start = (if HasPrefix s ''::'' then (Some 0, drop 2 s) else (None, s))
      in if start = (Some 0, []) then Some (replicate 16 0)
         else (case parseIPv6_loop 8 [] (fst start) (snd start) of
                 None \<Rightarrow> None
               | Some (ip, ell, rest) \<Rightarrow> if rest \<noteq> [] then None else expand_ellipsis ip ell))"

text \<open>
  \<^verbatim>\<open>netip.ParseAddr\<close> without zones (both callers refuse a zone): the first dot or colon
  decides the family. The result carries the number of bits of the family.
\<close>

definition ParseAddr :: "string \<Rightarrow> (nat \<times> nat list) option" where
  "ParseAddr s =
     (case find (\<lambda>c. c = CHR ''.'' \<or> c = CHR '':'' \<or> c = CHR ''%'') s of
        None \<Rightarrow> None
      | Some c \<Rightarrow>
          if c = CHR ''.'' then map_option (\<lambda>v4. (32, v4InV6Prefix @ v4)) (parseIPv4Fields s)
          else if c = CHR '':'' \<and> CHR ''%'' \<notin> set s then map_option (Pair 128) (parseIPv6 s)
          else None)"

definition ParseIP :: "string \<Rightarrow> nat list option" where
  "ParseIP s = map_option snd (ParseAddr s)"

section \<open>Networks\<close>

definition To4 :: "nat list \<Rightarrow> nat list option" where
  "To4 ip =
     (if length ip = 4 then Some ip
      else if length ip = 16 \<and> take 12 ip = v4InV6Prefix then Some (drop 12 ip)
      else None)"

text \<open>\<^verbatim>\<open>CIDRMask\<close>: \<open>ones\<close> set bits, then clear ones.\<close>

fun CIDRMask :: "nat \<Rightarrow> nat \<Rightarrow> nat list" where
  "CIDRMask ones 0 = []"
| "CIDRMask ones (Suc k) =
     (if ones \<ge> 8 then 255 # CIDRMask (ones - 8) k
      else (256 - 2 ^ (8 - ones)) # CIDRMask 0 k)"

record IPNet =
  net_IP :: "nat list"
  net_Mask :: "nat list"

definition mask_and :: "nat list \<Rightarrow> nat list \<Rightarrow> nat list" where
  "mask_and ip m = map2 (AND) ip m"

definition mask_IP :: "nat list \<Rightarrow> nat list \<Rightarrow> nat list" where
  "mask_IP ip m =
     (let ip' = (if length m = 4 \<and> length ip = 16 \<and> take 12 ip = v4InV6Prefix then drop 12 ip else ip)
      in if length ip' \<noteq> length m then [] else mask_and ip' m)"

definition ParseCIDR :: "string \<Rightarrow> IPNet option" where
  "ParseCIDR s =
     (case IndexByte s (CHR ''/'') of
        None \<Rightarrow> None
      | Some i \<Rightarrow>
          (case ParseAddr (take i s) of
             None \<Rightarrow> None
           | Some (bits, ip) \<Rightarrow>
               (let mask = drop (Suc i) s
                in if mask = [] \<or> \<not> list_all is_digit mask \<or> digits_val mask > int bits then None
                   else (let m = CIDRMask (nat (digits_val mask)) (bits div 8)
                         in Some \<lparr>net_IP = mask_IP ip m, net_Mask = m\<rparr>))))"

definition networkNumberAndMask :: "IPNet \<Rightarrow> nat list \<times> nat list" where
  "networkNumberAndMask n =
     (let ip = (case To4 (net_IP n) of Some x \<Rightarrow> x | None \<Rightarrow> net_IP n);
          m = net_Mask n
      in if length m = length ip then (ip, m)
         else if length m = 16 \<and> length ip = 4 then (ip, drop 12 m)
         else ([], []))"

definition net_contains :: "IPNet \<Rightarrow> nat list \<Rightarrow> bool" where
  "net_contains n ip0 =
     (let (nn, m) = networkNumberAndMask n;
          ip = (case To4 ip0 of Some x \<Rightarrow> x | None \<Rightarrow> ip0)
      in length ip = length nn \<and> mask_and nn m = mask_and ip m)"

end
