(* ===== verification/Policy.thy ===== *)
theory Policy
  imports Glob GoNet "HOL-Library.AList"
begin

text \<open>
  Policies and their evaluation: the policy record and its validation
  (\<^verbatim>\<open>internal/domain/auth/policy.go\<close>), the conditions
  (\<^verbatim>\<open>internal/auth/evaluator.go\<close>), the in-memory engine (\<^verbatim>\<open>internal/auth/rbac.go\<close>), the
  include expansion and the decision with deny precedence (\<^verbatim>\<open>internal/auth/authz.go\<close>,
  \<^verbatim>\<open>capabilities.go\<close>). A policy table is an association list keyed by name.
\<close>

section \<open>Policies\<close>

record Policy =
  pol_ID :: uuid
  pol_Name :: string
  pol_Effect :: string
  pol_Resources :: "string list"
  pol_Actions :: "string list"
  pol_Capabilities :: "string list"
  pol_Includes :: "string list"
  pol_Conditions :: "string \<rightharpoonup> any"

definition EffectAllow :: string where "EffectAllow = ''allow''"
definition EffectDeny :: string where "EffectDeny = ''deny''"

definition ambiguous_glob :: "string \<Rightarrow> bool" where
  "ambiguous_glob r \<longleftrightarrow> ContainsAny r ''*?'' \<and> Count r ''**'' > 1"

definition Policy_Validate :: "Policy \<Rightarrow> unit res" where
  "Policy_Validate p =
     (if pol_Name p = [] then Inl (Plain ''policy name is required'')
      else if pol_Effect p \<noteq> EffectAllow \<and> pol_Effect p \<noteq> EffectDeny
      then Inl (Plain ''invalid policy effect %q'')
      else if pol_Resources p = [] then Inl (Plain ''policy resources are required'')
      else if pol_Capabilities p = [] \<and> pol_Actions p = []
      then Inl (Plain ''policy capabilities or actions are required'')
      else if list_ex ambiguous_glob (pol_Resources p)
      then Inl (Plain ''ambiguous glob pattern %q'')
      else Inr ())"

section \<open>Conditions\<close>

record RequestContext =
  ClientIP :: string
  rc_Namespace :: string
  rc_Resource :: string
  rc_Action :: string
  rc_AgentID :: string
  rc_Now :: go_time
  Cluster :: string
  Environment :: string
  RequestPath :: string
  RequestID :: string
  ResourceLabels :: "string \<rightharpoonup> string"

text \<open>
  A read of an absent key of a Go map gives the empty string, also for the nil map, which is the
  empty map here.
\<close>

definition str_at :: "('k \<rightharpoonup> string) \<Rightarrow> 'k \<Rightarrow> string" where
  "str_at m k = (case m k of Some v \<Rightarrow> v | None \<Rightarrow> [])"

text \<open>\<^verbatim>\<open>v, ok := conditions[k].(string); ok && v != ""\<close>\<close>

definition string_cond :: "(string \<rightharpoonup> any) \<Rightarrow> string \<Rightarrow> string option" where
  "string_cond cs k = (case cs k of Some (Str s) \<Rightarrow> if s = [] then None else Some s | _ \<Rightarrow> None)"

definition cidr_entry_matches :: "string \<Rightarrow> nat list \<Rightarrow> any \<Rightarrow> bool" where
  "cidr_entry_matches clientIP ip raw =
     (case raw of
        Str pat \<Rightarrow>
          if pat = [] then False
          else (case ParseCIDR pat of
                  None \<Rightarrow> pat = clientIP
                | Some network \<Rightarrow> net_contains network ip)
      | _ \<Rightarrow> False)"

definition matchIPCIDR :: "any list \<Rightarrow> string \<Rightarrow> bool" where
  "matchIPCIDR cidrs clientIP =
     (if clientIP = [] then False
      else (case ParseIP clientIP of
              None \<Rightarrow> False
            | Some ip \<Rightarrow> list_ex (cidr_entry_matches clientIP ip) cidrs))"

definition matchIPCIDRAny :: "any \<Rightarrow> string \<Rightarrow> bool" where
  "matchIPCIDRAny raw clientIP =
     (case raw of
        Str v \<Rightarrow> if TrimSpace v = [] then False else matchIPCIDR [Str v] clientIP
      | Anys v \<Rightarrow> v \<noteq> [] \<and> matchIPCIDR v clientIP
      | Strs v \<Rightarrow> if v = [] then False else matchIPCIDR (map Str v) clientIP
      | _ \<Rightarrow> False)"

definition check_cond :: "(string \<rightharpoonup> any) \<Rightarrow> string \<Rightarrow> (string \<Rightarrow> bool) \<Rightarrow> bool" where
  "check_cond cs k ok = (case string_cond cs k of None \<Rightarrow> True | Some v \<Rightarrow> ok v)"

definition ConditionsMatch :: "go_time \<Rightarrow> (string \<rightharpoonup> any) \<Rightarrow> RequestContext \<Rightarrow> bool" where
  "ConditionsMatch clock conditions req0 =
     (let req = (if IsZero (rc_Now req0) then req0\<lparr>rc_Now := clock\<rparr> else req0);
          labels = ResourceLabels req
      in (case conditions ''ip_cidr'' of
            None \<Rightarrow> True
          | Some raw \<Rightarrow> raw = NilAny \<or> matchIPCIDRAny raw (ClientIP req))
       \<and> check_cond conditions ''time_after'' (\<lambda>after.
            case ParseRFC3339 after of None \<Rightarrow> False | Some t \<Rightarrow> \<not> rc_Now req < t)
       \<and> check_cond conditions ''time_before'' (\<lambda>before.
            case ParseRFC3339 before of None \<Rightarrow> False | Some t \<Rightarrow> rc_Now req < t)
       \<and> check_cond conditions ''path_prefix'' (\<lambda>prefix. HasPrefix (rc_Resource req) prefix)
       \<and> check_cond conditions ''namespace'' (\<lambda>ns. rc_Namespace req = ns)
       \<and> check_cond conditions ''agent_id'' (\<lambda>a. rc_AgentID req = a)
       \<and> check_cond conditions ''cluster'' (\<lambda>c. Cluster req = c)
       \<and> check_cond conditions ''environment'' (\<lambda>e. Environment req = e)
       \<and> check_cond conditions ''request_path'' (\<lambda>p.
            RequestPath req = p \<or> HasPrefix (RequestPath req) p)
       \<and> check_cond conditions ''resource_label'' (\<lambda>k.
            case string_cond conditions ''resource_label_value'' of
              None \<Rightarrow> False
            | Some expected \<Rightarrow> str_at labels k = expected)
       \<and> check_cond conditions ''owner_match'' (\<lambda>owner. str_at labels ''owner'' = owner))"

definition policyMatchesResourceAction :: "Policy \<Rightarrow> string \<Rightarrow> string \<Rightarrow> bool" where
  "policyMatchesResourceAction policy resource action =
     (let actions = (if pol_Capabilities policy \<noteq> [] then pol_Capabilities policy
                     else pol_Actions policy)
      in list_ex (\<lambda>resPattern. MatchResource resPattern resource
           \<and> list_ex (\<lambda>actPattern. MatchAction actPattern action) actions)
         (pol_Resources policy))"

definition PolicyMatches ::
  "go_time \<Rightarrow> Policy \<Rightarrow> string \<Rightarrow> string \<Rightarrow> RequestContext \<Rightarrow> bool" where
  "PolicyMatches clock policy resource action req =
     (if \<not> policyMatchesResourceAction policy resource action then False
      else ConditionsMatch clock (pol_Conditions policy)
             (req\<lparr>rc_Resource := resource, rc_Action := action\<rparr>))"

definition NormalizeCapabilities :: "string list \<Rightarrow> string list \<Rightarrow> string list" where
  "NormalizeCapabilities capabilities actions =
     (if capabilities \<noteq> [] then capabilities else actions)"

end
