(* ===== verification/Rbac.thy ===== *)
theory Rbac
  imports Policy
begin

text \<open>
  The policy engine of \<^verbatim>\<open>internal/auth/rbac.go\<close> and \<^verbatim>\<open>authz.go\<close>: the table of policies,
  its updates, the expansion of includes (a depth first walk with a set of seen names) and the
  decision. The walk is proved to end and to return exactly the names reachable through
  includes, each once; the decision is proved to be independent of the order it visits them in.
\<close>

section \<open>The policy table\<close>

record RBAC =
  policies :: "(string \<times> Policy) list"

definition default_policy :: "string \<Rightarrow> string list \<Rightarrow> string list \<Rightarrow> Policy" where
  "default_policy name resources actions =
     \<lparr>pol_ID = uuid_Nil, pol_Name = name, pol_Effect = EffectAllow, pol_Resources = resources,
      pol_Actions = actions, pol_Capabilities = [], pol_Includes = [], pol_Conditions = Map.empty\<rparr>"

definition UpsertPolicy :: "Policy \<Rightarrow> RBAC \<Rightarrow> RBAC" where
  "UpsertPolicy p r = r\<lparr>policies := AList.update (pol_Name p) p (policies r)\<rparr>"

definition DeletePolicy :: "string \<Rightarrow> RBAC \<Rightarrow> RBAC" where
  "DeletePolicy name r = r\<lparr>policies := AList.delete name (policies r)\<rparr>"

definition LoadPolicies :: "Policy list \<Rightarrow> RBAC \<Rightarrow> RBAC" where
  "LoadPolicies ps r = fold UpsertPolicy ps (r\<lparr>policies := []\<rparr>)"

definition NewRBAC :: RBAC where
  "NewRBAC = LoadPolicies
     [default_policy ''admin'' [''*''] [''*''],
      default_policy ''pki-admin'' [''pki/*''] [''*''],
      default_policy ''secrets-admin'' [''secrets/*''] [''*''],
      default_policy ''secrets-reader'' [''secrets/*''] [''read''],
      default_policy ''audit-reader'' [''audit/*''] [''read''],
      default_policy ''policy-admin'' [''sys/policies'', ''sys/roles''] [''*''],
      default_policy ''inject-reader'' [''inject/*''] [''read''],
      default_policy ''agent-delegator'' [''auth/agent/*''] [''write'']]
     \<lparr>policies = []\<rparr>"

definition ReloadFromPersisted :: "Policy list \<Rightarrow> RBAC \<Rightarrow> RBAC" where
  "ReloadFromPersisted ps r = r\<lparr>policies := policies (fold UpsertPolicy ps NewRBAC)\<rparr>"

definition policy :: "RBAC \<Rightarrow> string \<Rightarrow> Policy option" where
  "policy r name = map_of (policies r) name"

definition RolePolicies :: "string \<rightharpoonup> string list" where
  "RolePolicies =
     [''admin'' \<mapsto> [''admin''],
      ''pki-admin'' \<mapsto> [''pki-admin''],
      ''secrets-admin'' \<mapsto> [''secrets-admin''],
      ''secrets-reader'' \<mapsto> [''secrets-reader''],
      ''audit-reader'' \<mapsto> [''audit-reader''],
      ''policy-admin'' \<mapsto> [''policy-admin''],
      ''inject-reader'' \<mapsto> [''inject-reader''],
      ''default'' \<mapsto> [''secrets-reader'']]"

definition PoliciesForRole :: "string \<Rightarrow> string list" where
  "PoliciesForRole role =
     (case RolePolicies (TrimSpace role) of
        Some ps \<Rightarrow> ps
      | None \<Rightarrow> (case RolePolicies ''default'' of Some ps \<Rightarrow> ps | None \<Rightarrow> []))"

section \<open>Expansion of includes\<close>

type_synonym walk_state = "string list \<times> string list"

function walk :: "RBAC \<Rightarrow> string list \<Rightarrow> walk_state \<Rightarrow> walk_state" where
  "walk r [] st = st"
| "walk r (name # batch) (seen, out) =
     (if name \<in> set seen then walk r batch (seen, out)
      else (case policy r name of
              None \<Rightarrow> walk r batch (name # seen, out @ [name])
            | Some p \<Rightarrow>
                (let st = (if pol_Includes p \<noteq> [] then walk r (pol_Includes p) (name # seen, out)
                           else (name # seen, out))
                 in walk r batch (fst st, snd st @ [name]))))"
  by pat_completeness auto

lemma walk_seen_mono_dom:
  "walk_dom (r, batch, st) \<Longrightarrow> set (fst st) \<subseteq> set (fst (walk r batch st))"
proof (induction r batch st rule: walk.pinduct)
  case (2 r name batch seen out)
  show ?case
  proof (cases "policy r name")
    case None
    with 2 show ?thesis by (auto simp: walk.psimps)
  next
    case (Some p)
    note IH = "2.IH"(3) [OF _ Some] "2.IH"(4) [OF _ Some refl]
    show ?thesis
      using "2.IH"(1) "2.hyps" Some IH by (auto simp: walk.psimps Let_def split: if_splits) blast
  qed
qed (simp add: walk.psimps)

definition unseen :: "RBAC \<Rightarrow> string list \<Rightarrow> nat" where
  "unseen r seen = card (fst ` set (policies r) - set seen)"

lemma unseen_mono: "set seen \<subseteq> set seen' \<Longrightarrow> unseen r seen' \<le> unseen r seen"
  by (auto simp: unseen_def intro!: card_mono)

lemma unseen_less:
  assumes "policy r name = Some p" "name \<notin> set seen" "name \<in> set seen'" "set seen \<subseteq> set seen'"
  shows "unseen r seen' < unseen r seen"
proof -
  have "name \<in> fst ` set (policies r)"
    using assms(1) by (force simp: policy_def dest: map_of_SomeD)
  with assms show ?thesis
    unfolding unseen_def by (intro psubset_card_mono) auto
qed

termination walk
proof (relation "measures [\<lambda>(r, batch, seen, out). unseen r seen, \<lambda>(r, batch, st). length batch]",
    goal_cases)
  case (3 r name batch seen out)
  then have "unseen r (name # seen) \<le> unseen r seen" by (intro unseen_mono) auto
  then show ?case by auto
next
  case (4 r name batch seen out p)
  then have "unseen r (name # seen) < unseen r seen" by (intro unseen_less) auto
  then show ?case by auto
next
  case (5 r name batch seen out p st)
  have "set (name # seen) \<subseteq> set (fst st)"
  proof (cases "pol_Includes p = []")
    case False
    with 5 show ?thesis
      using walk_seen_mono_dom [of r "pol_Includes p" "(name # seen, out)"] by auto
  qed (use 5 in auto)
  with 5 have "unseen r (fst st) < unseen r seen" by (intro unseen_less) auto
  then show ?case by auto
qed auto

declare walk.simps(2) [simp del]

definition ResolvePolicyNames :: "RBAC \<Rightarrow> string list \<Rightarrow> string list" where
  "ResolvePolicyNames r names = snd (walk r names ([], []))"

section \<open>The walk returns the reachable names\<close>

definition include_rel :: "RBAC \<Rightarrow> (string \<times> string) set" where
  "include_rel r = {(m, n). \<exists>p. policy r m = Some p \<and> n \<in> set (pol_Includes p)}"

definition reach :: "RBAC \<Rightarrow> string set \<Rightarrow> string set" where
  "reach r names = (include_rel r)\<^sup>* `` names"

lemma reach_self: "n \<in> N \<Longrightarrow> n \<in> reach r N"
  by (auto simp: reach_def)

lemma reach_mono: "M \<subseteq> N \<Longrightarrow> reach r M \<subseteq> reach r N"
  by (auto simp: reach_def)

lemma reach_includes:
  "policy r m = Some p \<Longrightarrow> m \<in> N \<Longrightarrow> reach r (set (pol_Includes p)) \<subseteq> reach r N"
  by (auto simp: reach_def include_rel_def) (metis (mono_tags, lifting) Image_iff
      case_prodI converse_rtrancl_into_rtrancl mem_Collect_eq)

lemma reach_least:
  assumes "N \<subseteq> S" "\<And>m p. m \<in> S \<Longrightarrow> policy r m = Some p \<Longrightarrow> set (pol_Includes p) \<subseteq> S"
  shows "reach r N \<subseteq> S"
proof
  fix x assume "x \<in> reach r N"
  then obtain n where "n \<in> N" "(n, x) \<in> (include_rel r)\<^sup>*" by (auto simp: reach_def)
  from this(2) show "x \<in> S"
    by (induction rule: rtrancl_induct) (use \<open>n \<in> N\<close> assms in \<open>auto simp: include_rel_def\<close>)
qed

text \<open>
  What one walk adds to the seen names and to the output. The added names are closed under
  includes once the walk ends, and the output grows by exactly the added names.
\<close>

definition walk_post :: "RBAC \<Rightarrow> string list \<Rightarrow> walk_state \<Rightarrow> walk_state \<Rightarrow> bool" where
  "walk_post r batch st st' \<longleftrightarrow>
     set (fst st) \<union> set batch \<subseteq> set (fst st') \<and>
     set (fst st') \<subseteq> set (fst st) \<union> reach r (set batch) \<and>
     (\<forall>m p. m \<in> set (fst st') \<longrightarrow> m \<notin> set (fst st) \<longrightarrow> policy r m = Some p \<longrightarrow>
        set (pol_Includes p) \<subseteq> set (fst st')) \<and>
     set (snd st') = set (snd st) \<union> (set (fst st') - set (fst st)) \<and>
     (distinct (snd st) \<longrightarrow> set (snd st) \<subseteq> set (fst st) \<longrightarrow> distinct (snd st'))"

lemma walk_post_Nil: "walk_post r [] st st"
  by (auto simp: walk_post_def)

lemma walk_post_skip:
  assumes "name \<in> set (fst st)" "walk_post r batch st st'"
  shows "walk_post r (name # batch) st st'"
proof -
  have "reach r (set batch) \<subseteq> reach r (set (name # batch))" by (rule reach_mono) auto
  with assms show ?thesis unfolding walk_post_def by auto
qed

lemma walk_postD:
  assumes "walk_post r batch (seen, out) st'"
  shows "set seen \<subseteq> set (fst st')" "set batch \<subseteq> set (fst st')"
    "set (fst st') \<subseteq> set seen \<union> reach r (set batch)"
    "m \<in> set (fst st') \<Longrightarrow> m \<notin> set seen \<Longrightarrow> policy r m = Some p \<Longrightarrow>
       set (pol_Includes p) \<subseteq> set (fst st')"
    "set (snd st') = set out \<union> (set (fst st') - set seen)"
    "distinct out \<Longrightarrow> set out \<subseteq> set seen \<Longrightarrow> distinct (snd st')"
  using assms by (simp_all add: walk_post_def)

lemma walk_post_step:
  assumes fresh: "name \<notin> set seen"
    and incs: "\<And>p. policy r name = Some p \<Longrightarrow> incs = pol_Includes p"
    and unknown: "policy r name = None \<Longrightarrow> incs = []"
    and first: "walk_post r incs (name # seen, out) mid"
    and rest: "walk_post r batch (fst mid, snd mid @ [name]) st'"
  shows "walk_post r (name # batch) (seen, out) st'"
proof -
  note f = walk_postD [OF first] and g = walk_postD [OF rest]
  have "reach r (set batch) \<subseteq> reach r (set (name # batch))" by (rule reach_mono) auto
  moreover have "reach r (set incs) \<subseteq> reach r (set (name # batch))"
    using incs unknown reach_includes [of r name _ "set (name # batch)"]
    by (cases "policy r name") (auto simp: reach_def)
  moreover have "name \<in> reach r (set (name # batch))" by (rule reach_self) simp
  ultimately have sub: "set (fst st') \<subseteq> set seen \<union> reach r (set (name # batch))"
    using f(3) g(3) unfolding list.set by blast
  have sup: "set seen \<union> set (name # batch) \<subseteq> set (fst st')"
    using f(1) g(1,2) by auto
  have closed: "set (pol_Includes p) \<subseteq> set (fst st')"
    if "m \<in> set (fst st')" "m \<notin> set seen" "policy r m = Some p" for m p
  proof (cases "m \<in> set (fst mid)")
    case False
    with that g(4) show ?thesis by blast
  next
    case True
    have "set (pol_Includes p) \<subseteq> set (fst mid)"
    proof (cases "m = name")
      case False
      with True that f(4) show ?thesis by auto
    qed (use that incs f(2) in auto)
    with g(1) show ?thesis by blast
  qed
  have out: "set (snd st') = set out \<union> (set (fst st') - set seen)"
    using f(1) g(1) fresh unfolding g(5) f(5) set_append list.set by blast
  have "distinct (snd st')" if "distinct out" "set out \<subseteq> set seen"
  proof (rule g(6))
    have "set out \<subseteq> set (name # seen)" using that by auto
    with f(6) that fresh show "distinct (snd mid @ [name])" by (auto simp: f(5))
    show "set (snd mid @ [name]) \<subseteq> set (fst mid)" using f(1) that by (auto simp: f(5))
  qed
  with sub sup closed out show ?thesis unfolding walk_post_def fst_conv snd_conv by blast
qed

lemma walk_satisfies_post: "walk_post r batch st (walk r batch st)"
proof (induction r batch st rule: walk.induct)
  case (1 r st)
  show ?case by (simp add: walk_post_Nil)
next
  case (2 r name batch seen out)
  show ?case
  proof (cases "name \<in> set seen")
    case True
    with 2 show ?thesis by (simp add: walk.simps(2) walk_post_skip)
  next
    case False
    define incs where "incs = (case policy r name of None \<Rightarrow> [] | Some p \<Rightarrow> pol_Includes p)"
    define mid where "mid = walk r incs (name # seen, out)"
    have "walk_post r incs (name # seen, out) mid"
      using "2.IH"(3) [OF False] walk_post_Nil
      by (auto simp: incs_def mid_def split: option.split) (metis walk.simps(1))
    moreover have "walk_post r batch (fst mid, snd mid @ [name])
        (walk r batch (fst mid, snd mid @ [name]))"
      using "2.IH"(2) [OF False] "2.IH"(4) [OF False _ refl]
      by (auto simp: incs_def mid_def split: option.split if_splits)
    moreover have "walk r (name # batch) (seen, out) = walk r batch (fst mid, snd mid @ [name])"
      using False by (auto simp: walk.simps(2) incs_def mid_def Let_def split: option.split)
    ultimately show ?thesis
      using False walk_post_step [of name seen r incs out mid batch]
      by (auto simp: incs_def)
  qed
qed

lemma ResolvePolicyNames_set: "set (ResolvePolicyNames r names) = reach r (set names)"
proof -
  let ?st = "walk r names ([], [])"
  have post: "walk_post r names ([], []) ?st" by (rule walk_satisfies_post)
  then have "reach r (set names) \<subseteq> set (fst ?st)"
    by (intro reach_least) (auto simp: walk_post_def)
  with post show ?thesis by (auto simp: walk_post_def ResolvePolicyNames_def)
qed

lemma ResolvePolicyNames_distinct: "distinct (ResolvePolicyNames r names)"
  using walk_satisfies_post [of r names "([], [])"] by (simp add: walk_post_def ResolvePolicyNames_def)

section \<open>The decision\<close>

record AuthzResult =
  Allowed :: bool
  MatchedPolicy :: string
  Reason :: string
  DeniedBy :: string

text \<open>The policy \<^verbatim>\<open>AuthorizeDetailed\<close> evaluates: its actions replaced by the normalised ones.\<close>

definition eval_matches ::
  "go_time \<Rightarrow> Policy \<Rightarrow> string \<Rightarrow> string \<Rightarrow> RequestContext \<Rightarrow> bool" where
  "eval_matches clock p resource action req =
     PolicyMatches clock (p\<lparr>pol_Actions := NormalizeCapabilities (pol_Capabilities p) (pol_Actions p)\<rparr>)
       resource action req"

fun authorize_loop :: "go_time \<Rightarrow> RBAC \<Rightarrow> string list \<Rightarrow> string \<Rightarrow> string \<Rightarrow> RequestContext
    \<Rightarrow> bool \<Rightarrow> string \<Rightarrow> AuthzResult" where
  "authorize_loop clock r [] resource action req allowed matchedAllow =
     (if \<not> allowed
      then \<lparr>Allowed = False, MatchedPolicy = [],
            Reason = ''default deny: no matching allow policy'', DeniedBy = []\<rparr>
      else \<lparr>Allowed = True, MatchedPolicy = matchedAllow,
            Reason = ''allowed by '' @ matchedAllow, DeniedBy = []\<rparr>)"
| "authorize_loop clock r (name # names) resource action req allowed matchedAllow =
     (case policy r name of
        None \<Rightarrow> authorize_loop clock r names resource action req allowed matchedAllow
      | Some p \<Rightarrow>
          if \<not> eval_matches clock p resource action req
          then authorize_loop clock r names resource action req allowed matchedAllow
          else if pol_Effect p = EffectDeny
          then \<lparr>Allowed = False, MatchedPolicy = pol_Name p,
                Reason = ''explicit deny'', DeniedBy = pol_Name p\<rparr>
          else authorize_loop clock r names resource action req True (pol_Name p))"

definition AuthorizeDetailed ::
  "go_time \<Rightarrow> RBAC \<Rightarrow> string list \<Rightarrow> string \<Rightarrow> string \<Rightarrow> RequestContext \<Rightarrow> AuthzResult" where
  "AuthorizeDetailed clock r names resource action req =
     authorize_loop clock r names resource action req False []"

definition Authorize ::
  "go_time \<Rightarrow> RBAC \<Rightarrow> string list \<Rightarrow> string \<Rightarrow> string \<Rightarrow> RequestContext \<Rightarrow> bool" where
  "Authorize clock r names resource action req =
     Allowed (AuthorizeDetailed clock r (ResolvePolicyNames r names) resource action req)"

definition capability_strings :: "Policy \<Rightarrow> string list" where
  "capability_strings p =
     concat (map (\<lambda>resource. map (\<lambda>action. resource @ '':'' @ action)
       (NormalizeCapabilities (pol_Capabilities p) (pol_Actions p))) (pol_Resources p))"

fun add_caps :: "string list \<Rightarrow> string list \<Rightarrow> string list" where
  "add_caps caps [] = caps"
| "add_caps caps (c # cs) = add_caps (if c \<in> set caps then caps else caps @ [c]) cs"

definition Capabilities :: "RBAC \<Rightarrow> string list \<Rightarrow> string list" where
  "Capabilities r names =
     fold (\<lambda>name caps. case policy r name of
             None \<Rightarrow> caps
           | Some p \<Rightarrow> add_caps caps (capability_strings p))
       (ResolvePolicyNames r names) []"

section \<open>Correctness of the decision\<close>

text \<open>A stored policy with the given effect matches the request.\<close>

definition denies :: "go_time \<Rightarrow> RBAC \<Rightarrow> string \<Rightarrow> string \<Rightarrow> RequestContext \<Rightarrow> string \<Rightarrow> bool" where
  "denies clock r resource action req name \<longleftrightarrow>
     (\<exists>p. policy r name = Some p \<and> pol_Effect p = EffectDeny \<and> eval_matches clock p resource action req)"

definition grants :: "go_time \<Rightarrow> RBAC \<Rightarrow> string \<Rightarrow> string \<Rightarrow> RequestContext \<Rightarrow> string \<Rightarrow> bool" where
  "grants clock r resource action req name \<longleftrightarrow>
     (\<exists>p. policy r name = Some p \<and> pol_Effect p \<noteq> EffectDeny \<and> eval_matches clock p resource action req)"

lemma authorize_loop_Allowed:
  "Allowed (authorize_loop clock r names resource action req allowed m) \<longleftrightarrow>
     (allowed \<or> (\<exists>n \<in> set names. grants clock r resource action req n)) \<and>
     (\<forall>n \<in> set names. \<not> denies clock r resource action req n)"
  by (induction names arbitrary: allowed m)
    (auto simp: grants_def denies_def split: option.splits)

lemma eval_matches_iff:
  "eval_matches clock p resource action req \<longleftrightarrow>
     (\<exists>pat \<in> set (pol_Resources p). MatchResource pat resource) \<and>
     (\<exists>a \<in> set (NormalizeCapabilities (pol_Capabilities p) (pol_Actions p)). MatchAction a action) \<and>
     ConditionsMatch clock (pol_Conditions p) (req\<lparr>rc_Resource := resource, rc_Action := action\<rparr>)"
  by (auto simp: eval_matches_def PolicyMatches_def policyMatchesResourceAction_def
      NormalizeCapabilities_def list_ex_iff Let_def)

text \<open>
  C1. A request is authorised if and only if some policy reachable from the principal's policy
  names through includes matches it with an effect other than deny, and no reachable policy that
  matches it is a deny. The decision does not depend on the order of the names or of the
  expansion, and cyclic includes are handled.
\<close>
theorem Authorize_iff:
  "Authorize clock r names resource action req \<longleftrightarrow>
     (\<exists>n \<in> reach r (set names). grants clock r resource action req n) \<and>
     \<not> (\<exists>n \<in> reach r (set names). denies clock r resource action req n)"
  by (simp add: Authorize_def AuthorizeDetailed_def authorize_loop_Allowed ResolvePolicyNames_set)

text \<open>
  C9. The expansion of includes always ends (the walk is a total function, also on cyclic
  includes) and returns each name reachable from the given ones exactly once, and no other.
\<close>
theorem ResolvePolicyNames_correct:
  "distinct (ResolvePolicyNames r names) \<and>
   set (ResolvePolicyNames r names) = (include_rel r)\<^sup>* `` set names"
  using ResolvePolicyNames_distinct ResolvePolicyNames_set by (simp add: reach_def)

lemma set_add_caps: "set (add_caps caps cs) = set caps \<union> set cs"
  by (induction caps cs rule: add_caps.induct) auto

lemma distinct_add_caps: "distinct caps \<Longrightarrow> distinct (add_caps caps cs)"
  by (induction caps cs rule: add_caps.induct) auto

lemma capabilities_fold:
  "distinct caps \<Longrightarrow>
   distinct (fold (\<lambda>name caps. case policy r name of None \<Rightarrow> caps
      | Some p \<Rightarrow> add_caps caps (capability_strings p)) ns caps) \<and>
   set (fold (\<lambda>name caps. case policy r name of None \<Rightarrow> caps
      | Some p \<Rightarrow> add_caps caps (capability_strings p)) ns caps) =
     set caps \<union> {c. \<exists>n \<in> set ns. \<exists>p. policy r n = Some p \<and> c \<in> set (capability_strings p)}"
proof (induction ns arbitrary: caps)
  case (Cons n ns)
  show ?case
  proof (cases "policy r n")
    case (Some p)
    with Cons.IH [of "add_caps caps (capability_strings p)"] Cons.prems show ?thesis
      by (auto simp: distinct_add_caps set_add_caps)
  qed (use Cons in auto)
qed simp

text \<open>
  The capability list shown to a client has no duplicates and names exactly the
  resource and action pairs of the policies reachable from its policy names.
\<close>
theorem Capabilities_correct:
  "distinct (Capabilities r names) \<and>
   set (Capabilities r names) =
     {resource @ '':'' @ action | resource action.
        \<exists>n \<in> reach r (set names). \<exists>p. policy r n = Some p \<and> resource \<in> set (pol_Resources p) \<and>
          action \<in> set (NormalizeCapabilities (pol_Capabilities p) (pol_Actions p))}"
  using capabilities_fold [of "[]" r "ResolvePolicyNames r names"]
  by (auto simp: Capabilities_def ResolvePolicyNames_set capability_strings_def)

end
