(* ===== verification/Bytes.thy ===== *)
theory Bytes
  imports Prelude "HOL-Library.Word"
begin

text \<open>
  Bytes, byte strings and the random source. A call of \<^verbatim>\<open>rand.Read\<close> or
  \<^verbatim>\<open>io.ReadFull(rand.Reader, buf)\<close> fills its buffer (the runtime aborts the process when the
  system's source fails); what it read is an argument of the operation that calls it.
\<close>

type_synonym byte = "8 word"
type_synonym bytes = "byte list"
type_synonym entropy = "nat \<Rightarrow> byte"

definition ReadFull :: "entropy \<Rightarrow> nat \<Rightarrow> bytes" where
  "ReadFull rnd n = map rnd [0..<n]"

lemma length_ReadFull [simp]: "length (ReadFull rnd n) = n"
  by (simp add: ReadFull_def)

text \<open>A byte other than the largest is below its successor; the largest wraps to 0.\<close>

lemma byte_less_succ: "(v :: byte) \<noteq> 255 \<Longrightarrow> u \<le> v \<Longrightarrow> u < v + 1"
proof -
  assume v: "v \<noteq> 255" "u \<le> v"
  have "unat v \<noteq> 255" using v(1) by (simp add: word_unat_eq_iff)
  then have "unat v < 255" using unsigned_less [of v, where 'a = nat] by simp
  then have "unat (v + 1) = unat v + 1" by (simp add: unat_word_ariths)
  with v(2) show ?thesis by (simp add: word_less_nat_alt word_le_nat_alt)
qed

lemma byte_le_255: "(v :: byte) \<le> 255"
  using unsigned_less [of v, where 'a = nat] by (simp add: word_le_nat_alt)

end
