(* ===== verification/Shamir.thy ===== *)
theory Shamir
  imports Bytes "HOL-Library.Multiset" "HOL-Library.AList"
begin

text \<open>
  Shamir secret sharing over GF(2^8), \<^verbatim>\<open>internal/crypto/shamir/shamir.go\<close>. Bytes are
  \<open>8 word\<close>. The random coefficients that \<^verbatim>\<open>Split\<close> reads are an argument, one list of
  \<open>t - 1\<close> bytes per byte of the secret. The arithmetic is proved to be a field, the shares to
  be values of a polynomial of degree below \<open>t\<close>, and \<^verbatim>\<open>Combine\<close> to recover the secret
  from any shares with at least \<open>t\<close> distinct coordinates.
\<close>

unbundle bit_operations_syntax

section \<open>Arithmetic\<close>

definition gfSub :: "byte \<Rightarrow> byte \<Rightarrow> byte" where
  "gfSub a b = a XOR b"

text \<open>One round of the multiplication loop doubles \<open>a\<close> modulo the AES polynomial.\<close>

definition xtime :: "byte \<Rightarrow> byte" where
  "xtime a = (if a AND 0x80 \<noteq> 0 then push_bit 1 a XOR 0x1b else push_bit 1 a)"

fun gfMul_loop :: "nat \<Rightarrow> byte \<Rightarrow> byte \<Rightarrow> byte \<Rightarrow> byte" where
  "gfMul_loop 0 a b p = p"
| "gfMul_loop (Suc n) a b p =
     gfMul_loop n (xtime a) (drop_bit 1 b) (if b AND 1 \<noteq> 0 then p XOR a else p)"

definition gfMul :: "byte \<Rightarrow> byte \<Rightarrow> byte" where
  "gfMul a b = gfMul_loop 8 a b 0"

fun gfExp_loop :: "byte \<Rightarrow> byte \<Rightarrow> nat \<Rightarrow> byte" where
  "gfExp_loop r a e =
     (if e = 0 then r
      else gfExp_loop (if odd e then gfMul r a else r) (gfMul a a) (e div 2))"

declare gfExp_loop.simps [simp del]

definition gfExp :: "byte \<Rightarrow> nat \<Rightarrow> byte" where
  "gfExp a e = gfExp_loop 1 a e"

definition gfInv :: "byte \<Rightarrow> byte" where
  "gfInv a = (if a = 0 then 0 else gfExp a 254)"

definition gfDiv :: "byte \<Rightarrow> byte \<Rightarrow> byte" where
  "gfDiv a b = (if b = 0 then 0 else gfMul a (gfInv b))"

section \<open>Sharing\<close>

fun evalPoly :: "byte list \<Rightarrow> byte \<Rightarrow> byte" where
  "evalPoly [] x = 0"
| "evalPoly (c # cs) x = gfMul (evalPoly cs x) x XOR c"

text \<open>\<open>rnd i j\<close> is byte \<open>j\<close> of the random read for byte \<open>i\<close> of the secret.\<close>

definition coeffs :: "(nat \<Rightarrow> nat \<Rightarrow> byte) \<Rightarrow> byte list \<Rightarrow> nat \<Rightarrow> nat \<Rightarrow> byte list" where
  "coeffs rnd secret t i = secret ! i # map (rnd i) [0..<t - 1]"

definition Split :: "(nat \<Rightarrow> nat \<Rightarrow> byte) \<Rightarrow> byte list \<Rightarrow> int \<Rightarrow> int \<Rightarrow> byte list list res" where
  "Split rnd secret n t =
     (if t < 1 \<or> n < t \<or> n > 255 then Inl (Plain ''shamir: need 1 <= t <= n <= 255'')
      else if secret = [] then Inl (Plain ''shamir: empty secret'')
      else Inr (map (\<lambda>x. word_of_nat x #
                  map (\<lambda>i. evalPoly (coeffs rnd secret (nat t) i) (word_of_nat x)) [0..<length secret])
                [1..<Suc (nat n)]))"

definition lagrange_num :: "(byte \<times> byte) list \<Rightarrow> byte \<Rightarrow> nat \<Rightarrow> nat \<Rightarrow> byte" where
  "lagrange_num points x i n =
     foldl (\<lambda>num j. if i = j then num else gfMul num (gfSub x (fst (points ! j)))) 1 [0..<n]"

text \<open>The denominator is the same loop with \<open>xi\<close> in place of \<open>x\<close>.\<close>

definition interpolate :: "(byte \<times> byte) list \<Rightarrow> byte \<Rightarrow> byte" where
  "interpolate points x =
     foldl (\<lambda>result i.
         result XOR gfMul (snd (points ! i))
           (gfDiv (lagrange_num points x i (length points))
                  (lagrange_num points (fst (points ! i)) i (length points))))
       0 [0..<length points]"

text \<open>
  \<open>order\<close> is the order in which the runtime iterates over the keys of the map \<^verbatim>\<open>byX\<close>.
\<close>

definition byX :: "byte list list \<Rightarrow> (byte \<times> byte list) list" where
  "byX shares = foldl (\<lambda>m s. AList.update (hd s) s m) [] shares"

definition Combine :: "(byte list \<Rightarrow> byte list) \<Rightarrow> byte list list \<Rightarrow> byte list res" where
  "Combine order shares =
     (case shares of
        [] \<Rightarrow> Inl (Plain ''shamir: need at least one share'')
      | s0 # _ \<Rightarrow>
          if length s0 < 2 then Inl (Plain ''shamir: invalid share length'')
          else if list_ex (\<lambda>s. length s \<noteq> length s0) shares
          then Inl (Plain ''shamir: inconsistent share length'')
          else if list_ex (\<lambda>s. hd s = 0) shares then Inl (Plain ''shamir: invalid share x=0'')
          else (let m = byX shares; xs = order (map fst m)
                in Inr (map (\<lambda>i. interpolate (map (\<lambda>x. (x, the (map_of m x) ! Suc i)) xs) 0)
                          [0..<length s0 - 1])))"

section \<open>The arithmetic is a field\<close>

lemma and_one_iff: "(b::byte) AND 1 \<noteq> 0 \<longleftrightarrow> bit b 0"
  by (simp add: and_one_eq odd_iff_mod_2_eq_one bit_0)

lemma and_high_iff: "(a::byte) AND 0x80 \<noteq> 0 \<longleftrightarrow> bit a 7"
proof -
  have "a AND 0x80 = (if bit a 7 then 0x80 else 0)"
    by (rule bit_eqI) (auto simp: bit_simps elim!: less_SucE simp: numeral_eq_Suc)
  then show ?thesis by simp
qed

lemma xtime_alt: "xtime a = push_bit 1 a XOR (if bit a 7 then 0x1b else 0)"
  using and_high_iff [of a] by (simp add: xtime_def)

lemma xtime_xor: "xtime (a XOR b) = xtime a XOR xtime b"
  by (simp add: xtime_alt bit_xor_iff push_bit_xor xor.assoc xor.left_commute xor.commute)

lemma xtime_zero [simp]: "xtime 0 = 0"
  by (simp add: xtime_alt)

text \<open>The product without the accumulator.\<close>

fun mul_n :: "nat \<Rightarrow> byte \<Rightarrow> byte \<Rightarrow> byte" where
  "mul_n 0 a b = 0"
| "mul_n (Suc n) a b = (if bit b 0 then a else 0) XOR mul_n n (xtime a) (drop_bit 1 b)"

lemma gfMul_loop_mul_n: "gfMul_loop n a b p = p XOR mul_n n a b"
proof (induction n arbitrary: a b p)
  case (Suc n)
  then show ?case unfolding gfMul_loop.simps and_one_iff by (simp add: xor.assoc)
qed simp

lemma gfMul_mul_n: "gfMul a b = mul_n 8 a b"
  by (simp add: gfMul_def gfMul_loop_mul_n)

lemma mul_n_xor_left: "mul_n n (a XOR a') b = mul_n n a b XOR mul_n n a' b"
  by (induction n arbitrary: a a' b) (simp_all add: xtime_xor xor.assoc xor.left_commute)

lemma mul_n_xor_right: "mul_n n a (b XOR b') = mul_n n a b XOR mul_n n a b'"
  by (induction n arbitrary: a b b')
    (auto simp: bit_xor_iff drop_bit_xor xor.assoc xor.left_commute)

lemma mul_n_xtime_left: "mul_n n (xtime a) b = xtime (mul_n n a b)"
  by (induction n arbitrary: a b) (simp_all add: xtime_xor)

lemma mul_n_zero_right: "mul_n n a 0 = 0"
  by (induction n arbitrary: a) simp_all

lemma mul_n_zero_left: "mul_n n 0 b = 0"
  by (induction n arbitrary: b) simp_all

lemma gfMul_xor_left: "gfMul (a XOR a') b = gfMul a b XOR gfMul a' b"
  by (simp only: gfMul_mul_n mul_n_xor_left)

lemma gfMul_xor_right: "gfMul a (b XOR b') = gfMul a b XOR gfMul a b'"
  by (simp only: gfMul_mul_n mul_n_xor_right)

lemma gfMul_xtime_left: "gfMul (xtime a) b = xtime (gfMul a b)"
  by (simp only: gfMul_mul_n mul_n_xtime_left)

lemma gfMul_zero [simp]: "gfMul a 0 = 0" "gfMul 0 a = 0"
  by (simp_all only: gfMul_mul_n mul_n_zero_left mul_n_zero_right)

text \<open>Every byte is a sum of powers of x, and each power arises from 1 by doubling.\<close>

definition byte_sum :: "byte \<Rightarrow> byte" where
  "byte_sum a =
     (if bit a 0 then 1 else 0) XOR (if bit a 1 then 2 else 0) XOR
     (if bit a 2 then 4 else 0) XOR (if bit a 3 then 8 else 0) XOR
     (if bit a 4 then 16 else 0) XOR (if bit a 5 then 32 else 0) XOR
     (if bit a 6 then 64 else 0) XOR (if bit a 7 then 128 else 0)"

lemma bit_if_zero: "bit (if c then k else 0 :: byte) n \<longleftrightarrow> c \<and> bit k n"
  by simp

lemma byte_sum_id: "byte_sum a = a"
proof (rule bit_word_eqI)
  fix n :: nat
  assume "n < LENGTH(8)"
  then consider "n = 0" | "n = 1" | "n = 2" | "n = 3" | "n = 4" | "n = 5" | "n = 6" | "n = 7"
    by fastforce
  then show "bit (byte_sum a) n \<longleftrightarrow> bit a n"
    unfolding byte_sum_def bit_xor_iff bit_if_zero by cases (simp_all add: bit_simps bit_numeral_rec)
qed

lemma xtime_powers:
  "xtime 1 = 2" "xtime 2 = 4" "xtime 4 = 8" "xtime 8 = 16" "xtime 16 = 32" "xtime 32 = 64"
  "xtime 64 = 128"
  by (simp_all add: xtime_def)

lemma byte_induct:
  fixes P :: "byte \<Rightarrow> bool"
  assumes zero: "P 0" and one: "P 1" and dbl: "\<And>a. P a \<Longrightarrow> P (xtime a)"
    and add: "\<And>a b. P a \<Longrightarrow> P b \<Longrightarrow> P (a XOR b)"
  shows "P a"
proof -
  have p: "P 1" "P 2" "P 4" "P 8" "P 16" "P 32" "P 64" "P 128"
    using one dbl xtime_powers by metis+
  have "P (byte_sum a)"
    unfolding byte_sum_def by (intro add) (simp_all add: zero p)
  then show ?thesis by (simp only: byte_sum_id)
qed

lemma gfMul_one_right: "gfMul a 1 = a"
  by (simp add: gfMul_mul_n numeral_eq_Suc mul_n_zero_right)

lemma gfMul_one_left: "gfMul 1 a = a"
proof -
  have eight: "8 = Suc (Suc (Suc (Suc (Suc (Suc (Suc (Suc 0)))))))" by simp
  have shift: "bit (drop_bit 1 x) n = bit x (Suc n)" for x :: byte and n
    by (simp add: bit_drop_bit_eq)
  have idx: "Suc 0 = 1" "Suc 1 = 2" "Suc 2 = 3" "Suc 3 = 4" "Suc 4 = 5" "Suc 5 = 6" "Suc 6 = 7"
    by simp_all
  have "mul_n 8 1 a = byte_sum a"
    unfolding eight mul_n.simps xtime_powers shift
    unfolding idx xor.right_neutral byte_sum_def xor.assoc by (rule refl)
  then show ?thesis by (simp only: gfMul_mul_n byte_sum_id)
qed

lemma gfMul_xtime_right: "gfMul a (xtime b) = xtime (gfMul a b)"
  by (induction a rule: byte_induct)
    (simp_all add: gfMul_one_left gfMul_xtime_left gfMul_xor_left xtime_xor)

lemma gfMul_commute: "gfMul a b = gfMul b a"
  by (induction b rule: byte_induct)
    (simp_all add: gfMul_one_left gfMul_one_right gfMul_xtime_left gfMul_xtime_right
      gfMul_xor_left gfMul_xor_right)

lemma gfMul_assoc: "gfMul (gfMul a b) c = gfMul a (gfMul b c)"
  by (induction c rule: byte_induct)
    (simp_all add: gfMul_one_right gfMul_xtime_right gfMul_xor_right)

text \<open>Bytes with this arithmetic as a type of the library's ring and field classes.\<close>

typedef gf = "UNIV :: byte set"
  by simp

setup_lifting type_definition_gf

instantiation gf :: comm_ring_1
begin

lift_definition zero_gf :: gf is 0 .
lift_definition one_gf :: gf is 1 .
lift_definition plus_gf :: "gf \<Rightarrow> gf \<Rightarrow> gf" is "(XOR)" .
lift_definition minus_gf :: "gf \<Rightarrow> gf \<Rightarrow> gf" is gfSub .
lift_definition uminus_gf :: "gf \<Rightarrow> gf" is "\<lambda>a. a" .
lift_definition times_gf :: "gf \<Rightarrow> gf \<Rightarrow> gf" is gfMul .

instance
  by standard (transfer; simp add: gfMul_assoc gfMul_one_left gfMul_xor_left gfSub_def xor.assoc;
    fail | transfer; simp add: gfMul_commute xor.commute; fail)+

end

lemma Rep_gf_times: "Rep_gf (a * b) = gfMul (Rep_gf a) (Rep_gf b)"
  by (rule times_gf.rep_eq)

lemma Rep_gf_plus: "Rep_gf (a + b) = Rep_gf a XOR Rep_gf b"
  by (rule plus_gf.rep_eq)

lemma Rep_gf_minus: "Rep_gf (a - b) = gfSub (Rep_gf a) (Rep_gf b)"
  by (rule minus_gf.rep_eq)

lemma Rep_gf_Abs [simp]: "Rep_gf (Abs_gf x) = x"
  by (simp add: Abs_gf_inverse)

lemma Rep_gf_eq_zero [simp]: "Rep_gf a = 0 \<longleftrightarrow> a = 0"
  by (metis Rep_gf_inject zero_gf.rep_eq)

lemma Abs_gf_eq_zero [simp]: "Abs_gf x = 0 \<longleftrightarrow> x = 0"
  using Rep_gf_eq_zero [of "Abs_gf x"] by simp

lemma gfExp_loop_power: "gfExp_loop (Rep_gf r) (Rep_gf a) e = Rep_gf (r * a ^ e)"
proof (induction e arbitrary: r a rule: less_induct)
  case (less e)
  show ?case
  proof (cases "e = 0")
    case False
    then have "e div 2 < e" by simp
    note IH = less.IH [OF this, of _ "a * a", unfolded Rep_gf_times]
    have sq: "(a * a) ^ (e div 2) = a ^ (2 * (e div 2))"
      by (simp add: power_mult power2_eq_square)
    show ?thesis
    proof (cases "odd e")
      case True
      then have "a ^ e = a * (a * a) ^ (e div 2)"
        unfolding sq by (metis odd_two_times_div_two_succ power_add power_one_right mult.commute)
      with True False show ?thesis
        using IH [of "r * a"]
        by (simp add: gfExp_loop.simps [of _ _ e] Rep_gf_times gfMul_assoc)
    next
      case even: False
      then have "a ^ e = (a * a) ^ (e div 2)" unfolding sq by simp
      with even False show ?thesis
        using IH [of r] by (simp add: gfExp_loop.simps [of _ _ e] Rep_gf_times)
    qed
  qed (simp add: gfExp_loop.simps)
qed

lemma gfExp_power: "gfExp (Rep_gf a) e = Rep_gf (a ^ e)"
  using gfExp_loop_power [of 1 a e] by (simp add: gfExp_def one_gf.rep_eq)

text \<open>
  The byte 3 generates all nonzero bytes: its order divides 255 and none of the maximal proper
  divisors 15, 51 and 85.
\<close>

definition gen :: gf where
  "gen = Abs_gf 3"

lemma gen_power_eq: "gen ^ n = 1 \<longleftrightarrow> gfExp 3 n = 1"
  using gfExp_power [of gen n] by (metis Rep_gf_Abs Rep_gf_inject gen_def one_gf.rep_eq)

lemma gen_powers: "gen ^ 255 = 1" "gen ^ 15 \<noteq> 1" "gen ^ 51 \<noteq> 1" "gen ^ 85 \<noteq> 1"
proof -
  have "gfExp 3 255 = 1" by code_simp
  then show "gen ^ 255 = 1" by (simp only: gen_power_eq)
  have "gfExp 3 15 \<noteq> 1" by code_simp
  then show "gen ^ 15 \<noteq> 1" by (simp only: gen_power_eq not_False_eq_True)
  have "gfExp 3 51 \<noteq> 1" by code_simp
  then show "gen ^ 51 \<noteq> 1" by (simp only: gen_power_eq not_False_eq_True)
  have "gfExp 3 85 \<noteq> 1" by code_simp
  then show "gen ^ 85 \<noteq> 1" by (simp only: gen_power_eq not_False_eq_True)
qed

lemma gen_dvd_power: "gen ^ g = 1 \<Longrightarrow> g dvd m \<Longrightarrow> gen ^ m = 1"
  by (auto elim!: dvdE simp: power_mult)

lemma divisor_255:
  fixes g :: nat
  assumes "g dvd 255" "g \<noteq> 255"
  shows "g dvd 15 \<or> g dvd 51 \<or> g dvd 85"
proof -
  have "list_all (\<lambda>d. 255 mod d = 0 \<longrightarrow> d = 255 \<or> 15 mod d = 0 \<or> 51 mod d = 0 \<or> 85 mod d = (0::int))
    [1..255]" by code_simp
  then have all: "d = 255 \<or> d dvd 15 \<or> d dvd 51 \<or> d dvd 85"
    if "1 \<le> d" "d \<le> 255" "d dvd 255" for d :: int
    using that unfolding list_all_iff dvd_eq_mod_eq_0 by simp
  have "1 \<le> int g" "int g \<le> 255" using assms(1) dvd_imp_le [of g 255] by (cases g; simp)+
  moreover have "int g dvd int 255" using assms(1) by (simp only: int_dvd_int_iff)
  ultimately have "int g = int 255 \<or> int g dvd int 15 \<or> int g dvd int 51 \<or> int g dvd int 85"
    using all [of "int g"] by simp
  with assms(2) show ?thesis unfolding int_dvd_int_iff by simp
qed

lemma gen_order:
  assumes "gen ^ d = 1" "0 < d"
  shows "255 \<le> d"
proof (rule ccontr)
  assume "\<not> 255 \<le> d"
  obtain x y where xy: "d * x = 255 * y + gcd d 255"
    using bezout_nat [of d 255] assms(2) by auto
  have "gen ^ (d * x) = 1" by (simp add: power_mult assms(1))
  then have "gen ^ (255 * y) * gen ^ gcd d 255 = 1" by (simp add: xy power_add)
  then have one: "gen ^ gcd d 255 = 1" by (simp add: power_mult gen_powers(1))
  have "gcd d 255 \<le> d" using assms(2) by (simp add: dvd_imp_le)
  with \<open>\<not> 255 \<le> d\<close> have "gcd d 255 dvd 15 \<or> gcd d 255 dvd 51 \<or> gcd d 255 dvd 85"
    by (intro divisor_255) auto
  with gen_dvd_power [OF one] gen_powers show False by blast
qed

lemma gen_inj: "inj_on (\<lambda>k. gen ^ k) {..<255}"
proof (rule inj_onI)
  fix i j :: nat
  assume ij: "i \<in> {..<255}" "j \<in> {..<255}" "gen ^ i = gen ^ j"
  have wlog: "i = j" if "i \<le> j" "j < 255" "gen ^ i = gen ^ j" for i j :: nat
  proof -
    have inv: "gen ^ (255 - i) * gen ^ i = 1"
      using that(1,2) gen_powers(1) by (simp flip: power_add)
    have sum: "gen ^ i * gen ^ (j - i) = gen ^ j" using that(1) by (simp flip: power_add)
    have "gen ^ (j - i) = gen ^ (255 - i) * (gen ^ i * gen ^ (j - i))"
      by (simp only: inv mult_1_left flip: mult.assoc)
    also have "gen ^ i * gen ^ (j - i) = gen ^ i"
      using sum that(3) by (rule trans [OF _ sym])
    also have "gen ^ (255 - i) * gen ^ i = 1" by (rule inv)
    finally have "gen ^ (j - i) = 1" .
    from gen_order [OF this] that(1,2) show ?thesis by linarith
  qed
  show "i = j"
    using wlog [of i j] wlog [of j i] ij by (metis lessThan_iff nat_le_linear)
qed

lemma card_gf: "card (UNIV :: gf set) = 256"
proof -
  have "card (UNIV :: gf set) = card (range Rep_gf)"
    by (rule card_image [symmetric]) (simp add: inj_def Rep_gf_inject)
  also have "range Rep_gf = UNIV" by (metis Rep_gf_Abs surjI surj_def)
  finally show ?thesis by (simp add: card_word)
qed

lemma gen_surj: "a \<noteq> 0 \<Longrightarrow> \<exists>k. a = gen ^ k"
proof -
  have nz: "gen ^ k \<noteq> 0" for k
  proof
    assume "gen ^ k = 0"
    then have "gen ^ (k * 255) = 0" by (simp add: power_mult)
    moreover have "gen ^ (k * 255) = 1" by (metis gen_powers(1) mult.commute power_mult power_one)
    ultimately show False by simp
  qed
  have "(\<lambda>k. gen ^ k) ` {..<255} = UNIV - {0}"
  proof (rule card_subset_eq)
    show "finite (UNIV - {0 :: gf})" using card_gf card.infinite by fastforce
    show "(\<lambda>k. gen ^ k) ` {..<255} \<subseteq> UNIV - {0}" using nz by auto
    show "card ((\<lambda>k. gen ^ k) ` {..<255}) = card (UNIV - {0 :: gf})"
      using card_image [OF gen_inj] card_gf by (simp add: card_Diff_singleton)
  qed
  moreover assume "a \<noteq> 0"
  ultimately show ?thesis by (metis DiffI UNIV_I imageE singletonD)
qed

lemma power_255: "(a :: gf) \<noteq> 0 \<Longrightarrow> a ^ 255 = 1"
  using gen_surj by (metis gen_powers(1) mult.commute power_mult power_one)

instantiation gf :: field
begin

lift_definition inverse_gf :: "gf \<Rightarrow> gf" is gfInv .
lift_definition divide_gf :: "gf \<Rightarrow> gf \<Rightarrow> gf" is gfDiv .

instance
proof
  fix a b :: gf
  show "inverse (0::gf) = 0" by transfer (simp add: gfInv_def)
  show "inverse a * a = 1" if "a \<noteq> 0"
  proof -
    have "inverse a = a ^ 254"
      using that by (metis Rep_gf_eq_zero Rep_gf_inject gfExp_power gfInv_def inverse_gf.rep_eq)
    then have "inverse a * a = a ^ 255" by (simp flip: power_Suc2)
    with that show ?thesis by (simp add: power_255)
  qed
  show "a div b = a * inverse b" by transfer (simp add: gfDiv_def gfInv_def)
qed

end

section \<open>Polynomials over the field\<close>

primrec horner :: "gf list \<Rightarrow> gf \<Rightarrow> gf" where
  "horner [] z = 0"
| "horner (c # cs) z = c + z * horner cs z"

definition is_poly :: "nat \<Rightarrow> (gf \<Rightarrow> gf) \<Rightarrow> bool" where
  "is_poly n f \<longleftrightarrow> (\<exists>c. \<forall>z. f z = (\<Sum>k<n. c k * z ^ k))"

lemma horner_sum: "horner cs z = (\<Sum>k<length cs. cs ! k * z ^ k)"
  by (induction cs) (simp_all add: sum.lessThan_Suc_shift sum_distrib_left mult.left_commute
      del: sum.lessThan_Suc)

lemma is_poly_horner: "is_poly n f \<longleftrightarrow> (\<exists>cs. length cs = n \<and> f = horner cs)"
proof
  assume "is_poly n f"
  then obtain c where c: "\<And>z. f z = (\<Sum>k<n. c k * z ^ k)" by (auto simp: is_poly_def)
  have "f = horner (map c [0..<n])" by (rule ext) (simp add: c horner_sum)
  then show "\<exists>cs. length cs = n \<and> f = horner cs" by (intro exI [of _ "map c [0..<n]"]) simp
qed (auto simp: is_poly_def horner_sum)

lemma is_poly_add: "is_poly n f \<Longrightarrow> is_poly n g \<Longrightarrow> is_poly n (\<lambda>z. f z + g z)"
proof -
  assume "is_poly n f" "is_poly n g"
  then obtain c d where "\<And>z. f z = (\<Sum>k<n. c k * z ^ k)" "\<And>z. g z = (\<Sum>k<n. d k * z ^ k)"
    by (auto simp: is_poly_def)
  then show ?thesis
    unfolding is_poly_def
    by (intro exI [of _ "\<lambda>k. c k + d k"]) (simp add: distrib_right sum.distrib)
qed

lemma is_poly_scale: "is_poly n f \<Longrightarrow> is_poly n (\<lambda>z. a * f z)"
proof -
  assume "is_poly n f"
  then obtain c where "\<And>z. f z = (\<Sum>k<n. c k * z ^ k)" by (auto simp: is_poly_def)
  then show ?thesis
    unfolding is_poly_def by (intro exI [of _ "\<lambda>k. a * c k"]) (simp add: sum_distrib_left mult.assoc)
qed

lemma is_poly_mono: "is_poly n f \<Longrightarrow> n \<le> m \<Longrightarrow> is_poly m f"
proof -
  assume "is_poly n f" "n \<le> m"
  then obtain c where c: "\<And>z. f z = (\<Sum>k<n. c k * z ^ k)" by (auto simp: is_poly_def)
  have "(\<Sum>k<m. (if k < n then c k else 0) * z ^ k) = (\<Sum>k<n. c k * z ^ k)" for z
    using \<open>n \<le> m\<close> by (intro sum.mono_neutral_cong_right) auto
  with c show ?thesis unfolding is_poly_def by (intro exI [of _ "\<lambda>k. if k < n then c k else 0"]) simp
qed

lemma is_poly_zero: "is_poly n (\<lambda>z. 0)"
  unfolding is_poly_def by (intro exI [of _ "\<lambda>k. 0"]) simp

lemma is_poly_sum: "finite A \<Longrightarrow> (\<And>i. i \<in> A \<Longrightarrow> is_poly n (f i)) \<Longrightarrow> is_poly n (\<lambda>z. \<Sum>i\<in>A. f i z)"
  by (induction rule: finite_induct) (auto intro: is_poly_add is_poly_zero)

lemma is_poly_factor: "is_poly n f \<Longrightarrow> is_poly (Suc n) (\<lambda>z. (z - r) * f z)"
proof -
  assume f: "is_poly n f"
  then obtain cs where cs: "length cs = n" "f = horner cs" by (auto simp: is_poly_horner)
  then have "(\<lambda>z. z * f z) = horner (0 # cs)" by auto
  with cs have "is_poly (Suc n) (\<lambda>z. z * f z)" unfolding is_poly_horner by (metis length_Cons)
  moreover have "is_poly (Suc n) (\<lambda>z. (- r) * f z)"
    using f by (intro is_poly_mono [OF is_poly_scale]) auto
  ultimately have "is_poly (Suc n) (\<lambda>z. z * f z + (- r) * f z)" by (rule is_poly_add)
  then show ?thesis by (simp add: left_diff_distrib)
qed

lemma is_poly_prod: "finite A \<Longrightarrow> is_poly (Suc (card A)) (\<lambda>z. \<Prod>j\<in>A. z - x j)"
proof (induction rule: finite_induct)
  case empty
  show ?case unfolding is_poly_def by (intro exI [of _ "\<lambda>k. 1"]) simp
qed (simp add: is_poly_factor)

lemma horner_div:
  "\<exists>qs. length qs = length cs - 1 \<and> (\<forall>z. horner cs z = horner cs r + (z - r) * horner qs z)"
proof (induction cs)
  case (Cons c cs)
  then obtain qs where qs: "length qs = length cs - 1"
    "\<And>z. horner cs z = horner cs r + (z - r) * horner qs z" by blast
  show ?case
  proof (cases cs)
    case Nil
    then show ?thesis by (intro exI [of _ "[]"]) simp
  next
    case (Cons d ds)
    have ring: "c + z * (h + (z - r) * q) = (c + r * h) + (z - r) * (h + z * q)" for z h q :: gf
      by (simp add: algebra_simps)
    have eq: "horner (c # cs) z = horner (c # cs) r + (z - r) * horner (horner cs r # qs) z" for z
      unfolding horner.simps ring [symmetric] by (simp only: qs(2) [symmetric])
    have "length (horner cs r # qs) = length (c # cs) - 1" using qs(1) Cons by simp
    with eq show ?thesis by blast
  qed
qed simp

lemma is_poly_roots:
  "is_poly n f \<Longrightarrow> finite A \<Longrightarrow> n \<le> card A \<Longrightarrow> (\<And>r. r \<in> A \<Longrightarrow> f r = 0) \<Longrightarrow> f z = 0"
proof (induction n arbitrary: f A)
  case 0
  then show ?case by (simp add: is_poly_def)
next
  case (Suc n)
  from Suc.prems(3) obtain r where r: "r \<in> A" by (metis Suc_le_D card.empty equals0I nat.distinct(1))
  obtain cs where cs: "length cs = Suc n" "f = horner cs"
    using Suc.prems(1) by (auto simp: is_poly_horner)
  obtain qs where qs: "length qs = n" "\<And>z. f z = f r + (z - r) * horner qs z"
    using horner_div [of cs r] cs by auto
  have fr: "f r = 0" using Suc.prems(4) r by simp
  have "horner qs z = 0"
  proof (rule Suc.IH [of "horner qs" "A - {r}"])
    show "is_poly n (horner qs)" using qs(1) by (auto simp: is_poly_horner)
    show "n \<le> card (A - {r})" using Suc.prems(2,3) r by simp
    show "horner qs r' = 0" if "r' \<in> A - {r}" for r'
      using qs(2) [of r'] that Suc.prems(4) fr by auto
  qed (use Suc.prems(2) in simp)
  with qs(2) [of z] fr show ?case by simp
qed

section \<open>Interpolation\<close>

text \<open>The Lagrange formula in the field; \<open>x\<close> gives the coordinates, \<open>y\<close> the values.\<close>

definition lagrange :: "nat \<Rightarrow> (nat \<Rightarrow> gf) \<Rightarrow> (nat \<Rightarrow> gf) \<Rightarrow> gf \<Rightarrow> gf" where
  "lagrange n x y z =
     (\<Sum>i<n. y i * ((\<Prod>j\<in>{..<n} - {i}. z - x j) / (\<Prod>j\<in>{..<n} - {i}. x i - x j)))"

lemma lagrange_is_poly: "is_poly n (lagrange n x y)"
proof -
  have "is_poly n (\<lambda>z. y i * ((\<Prod>j\<in>{..<n} - {i}. z - x j) / d))" if "i < n" for i d
  proof -
    have "Suc (card ({..<n} - {i})) = n" using that by simp
    then have "is_poly n (\<lambda>z. \<Prod>j\<in>{..<n} - {i}. z - x j)"
      using is_poly_prod [of "{..<n} - {i}" x] by simp
    then have "is_poly n (\<lambda>z. (y i / d) * (\<Prod>j\<in>{..<n} - {i}. z - x j))" by (rule is_poly_scale)
    then show ?thesis by (simp add: field_simps)
  qed
  then show ?thesis
    unfolding lagrange_def [abs_def] by (intro is_poly_sum) auto
qed

lemma lagrange_at:
  assumes "k < n" "inj_on x {..<n}"
  shows "lagrange n x y (x k) = y k"
proof -
  have zero: "(\<Prod>j\<in>{..<n} - {i}. x k - x j) = 0" if "i < n" "i \<noteq> k" for i
    using assms(1) that by (intro prod_zero) auto
  have nz: "(\<Prod>j\<in>{..<n} - {k}. x k - x j) \<noteq> 0"
    using assms by (auto simp: inj_on_def)
  have "lagrange n x y (x k) = (\<Sum>i<n. if i = k then y k else 0)"
    unfolding lagrange_def by (intro sum.cong) (auto simp: zero nz)
  also have "\<dots> = y k" using assms(1) by simp
  finally show ?thesis .
qed

lemma lagrange_poly:
  assumes "is_poly m f" "m \<le> n" "inj_on x {..<n}"
  shows "lagrange n x (\<lambda>i. f (x i)) z = f z"
proof -
  let ?q = "\<lambda>z. lagrange n x (\<lambda>i. f (x i)) z + (- 1) * f z"
  have "is_poly n ?q"
    by (rule is_poly_add [OF lagrange_is_poly is_poly_scale [OF is_poly_mono [OF assms(1,2)]]])
  then have "?q z = 0"
  proof (rule is_poly_roots [of n ?q "x ` {..<n}"])
    show "n \<le> card (x ` {..<n})" using card_image [OF assms(3)] by simp
    fix r assume "r \<in> x ` {..<n}"
    then obtain k where "k < n" "r = x k" by auto
    then show "?q r = 0" by (simp add: lagrange_at [OF _ assms(3)])
  qed simp
  then show ?thesis by simp
qed

text \<open>The loops of \<^verbatim>\<open>interpolate\<close> compute the formula.\<close>

lemma lagrange_num_prod:
  "lagrange_num points (Rep_gf z) i n =
     Rep_gf (\<Prod>j\<in>{..<n} - {i}. z - Abs_gf (fst (points ! j)))"
proof (induction n)
  case 0
  show ?case by (simp add: lagrange_num_def one_gf.rep_eq)
next
  case (Suc n)
  have step: "lagrange_num points (Rep_gf z) i (Suc n) =
      (if i = n then lagrange_num points (Rep_gf z) i n
       else gfMul (lagrange_num points (Rep_gf z) i n) (gfSub (Rep_gf z) (fst (points ! n))))"
    by (simp add: lagrange_num_def)
  show ?case
  proof (cases "i = n")
    case True
    then have "{..<Suc n} - {i} = {..<n} - {i}" by auto
    with True step Suc show ?thesis by metis
  next
    case False
    then have "{..<Suc n} - {i} = insert n ({..<n} - {i})" by auto
    with False step Suc show ?thesis
      by (simp add: Rep_gf_times Rep_gf_minus gfMul_commute)
  qed
qed

lemma foldl_xor_sum:
  "foldl (\<lambda>r i. r XOR Rep_gf (f i)) 0 [0..<n] = Rep_gf (\<Sum>i<n. f i)"
  by (induction n) (simp_all add: zero_gf.rep_eq Rep_gf_plus)

lemma interpolate_lagrange:
  "interpolate points (Rep_gf z) =
     Rep_gf (lagrange (length points) (\<lambda>j. Abs_gf (fst (points ! j)))
       (\<lambda>i. Abs_gf (snd (points ! i))) z)"
proof -
  have den: "lagrange_num points x i n =
      Rep_gf (\<Prod>j\<in>{..<n} - {i}. Abs_gf x - Abs_gf (fst (points ! j)))" for x i n
    using lagrange_num_prod [of points "Abs_gf x"] by simp
  have mul: "gfMul a (gfDiv (Rep_gf p) (Rep_gf q)) = Rep_gf (Abs_gf a * (p / q))" for a p q
    by (simp only: Rep_gf_times divide_gf.rep_eq Rep_gf_Abs)
  show ?thesis
    unfolding interpolate_def lagrange_def den mul foldl_xor_sum by (simp add: Rep_gf_inverse)
qed

lemma evalPoly_horner: "evalPoly cs x = Rep_gf (horner (map Abs_gf cs) (Abs_gf x))"
  by (induction cs) (simp_all add: zero_gf.rep_eq Rep_gf_plus Rep_gf_times xor.commute gfMul_commute)

lemma interpolate_evalPoly:
  assumes "distinct xs" "length cs \<le> length xs" "cs \<noteq> []"
  shows "interpolate (map (\<lambda>x. (x, evalPoly cs x)) xs) 0 = hd cs"
proof -
  let ?f = "horner (map Abs_gf cs)" and ?x = "\<lambda>j. Abs_gf (xs ! j)" and ?n = "length xs"
  have inj: "inj_on ?x {..<?n}"
    using assms(1) by (auto intro!: inj_onI simp: nth_eq_iff_index_eq Abs_gf_inject)
  have "is_poly (length cs) ?f" unfolding is_poly_horner by (metis length_map)
  then have "lagrange ?n ?x (\<lambda>i. ?f (?x i)) 0 = ?f 0"
    using assms(2) inj by (rule lagrange_poly)
  also have "?f 0 = Abs_gf (hd cs)" using assms(3) by (cases cs) simp_all
  moreover have "interpolate (map (\<lambda>x. (x, evalPoly cs x)) xs) 0 =
      Rep_gf (lagrange ?n ?x (\<lambda>i. ?f (?x i)) 0)"
    using interpolate_lagrange [of "map (\<lambda>x. (x, evalPoly cs x)) xs" 0]
    by (simp add: zero_gf.rep_eq evalPoly_horner Rep_gf_inverse lagrange_def)
  ultimately show ?thesis by simp
qed

section \<open>Splitting and combining\<close>

text \<open>The share with coordinate \<open>x\<close>.\<close>

definition share :: "(nat \<Rightarrow> nat \<Rightarrow> byte) \<Rightarrow> byte list \<Rightarrow> nat \<Rightarrow> byte \<Rightarrow> byte list" where
  "share rnd secret t x = x # map (\<lambda>i. evalPoly (coeffs rnd secret t i) x) [0..<length secret]"

lemma share_simps [simp]:
  "hd (share rnd secret t x) = x"
  "length (share rnd secret t x) = Suc (length secret)"
  "i < length secret \<Longrightarrow> share rnd secret t x ! Suc i = evalPoly (coeffs rnd secret t i) x"
  by (simp_all add: share_def)

lemma length_coeffs: "length (coeffs rnd secret t i) = Suc (t - 1)"
  by (simp add: coeffs_def)

lemma Split_Inr:
  assumes "Split rnd secret n t = Inr shares"
  shows "1 \<le> t" "t \<le> n" "n \<le> 255" "secret \<noteq> []"
    "shares = map (\<lambda>x. share rnd secret (nat t) (word_of_nat x)) [1..<Suc (nat n)]"
  using assms by (auto simp: Split_def share_def split: if_splits)

lemma small_word_nonzero: "1 \<le> x \<Longrightarrow> x \<le> 255 \<Longrightarrow> (word_of_nat x :: byte) \<noteq> 0"
  by (simp add: word_of_nat_eq_0_iff nat_dvd_not_less)

lemma byX_snoc: "byX (ss @ [s]) = AList.update (hd s) s (byX ss)"
  by (simp add: byX_def)

lemma byX_keys: "distinct (map fst (byX ss)) \<and> set (map fst (byX ss)) = hd ` set ss"
proof (induction ss rule: rev_induct)
  case (snoc s ss)
  then show ?case by (simp add: byX_snoc distinct_update dom_update)
qed (simp add: byX_def)

lemma byX_lookup: "map_of (byX ss) x = Some s \<Longrightarrow> s \<in> set ss \<and> hd s = x"
proof (induction ss rule: rev_induct)
  case (snoc s' ss)
  then show ?case by (auto simp: byX_snoc update_conv split: if_splits)
qed (simp add: byX_def)

lemma byX_find:
  assumes "x \<in> hd ` set ss"
  shows "the (map_of (byX ss) x) \<in> set ss \<and> hd (the (map_of (byX ss) x)) = x"
proof -
  have "map_of (byX ss) x \<noteq> None"
    using assms byX_keys [of ss] by (simp add: map_of_eq_None_iff)
  then show ?thesis using byX_lookup by fastforce
qed

lemma Combine_shares:
  assumes sub: "\<And>s. s \<in> set sub \<Longrightarrow> \<exists>x. x \<noteq> 0 \<and> s = share rnd secret t x"
    and secret: "secret \<noteq> []" and t: "1 \<le> t" "t \<le> card (set sub)"
    and order: "\<And>xs. mset (order xs) = mset xs"
  shows "Combine order sub = Inr secret"
proof -
  define xs where "xs = order (map fst (byX sub))"
  have mset_xs: "mset xs = mset (map fst (byX sub))" by (simp add: xs_def order)
  then have dist: "distinct xs" using byX_keys [of sub] mset_eq_imp_distinct_iff by blast
  have set_xs: "set xs = hd ` set sub" using byX_keys [of sub] mset_eq_setD [OF mset_xs] by simp
  have share_hd: "s = share rnd secret t (hd s)" if "s \<in> set sub" for s
    using sub [OF that] by auto
  then have "inj_on hd (set sub)" by (metis inj_onI)
  then have "length xs = card (set sub)"
    using dist set_xs by (metis card_image distinct_card)
  with t have len: "t \<le> length xs" by simp
  have point: "the (map_of (byX sub) x) ! Suc i = evalPoly (coeffs rnd secret t i) x"
    if "x \<in> set xs" "i < length secret" for x i
    using byX_find [of x sub] that set_xs share_hd by (metis share_simps(3))
  have byte: "interpolate (map (\<lambda>x. (x, the (map_of (byX sub) x) ! Suc i)) xs) 0 = secret ! i"
    if "i < length secret" for i
  proof -
    have "map (\<lambda>x. (x, the (map_of (byX sub) x) ! Suc i)) xs =
        map (\<lambda>x. (x, evalPoly (coeffs rnd secret t i) x)) xs"
      using point that by simp
    moreover have "interpolate (map (\<lambda>x. (x, evalPoly (coeffs rnd secret t i) x)) xs) 0 =
        hd (coeffs rnd secret t i)"
      using t(1) len by (intro interpolate_evalPoly dist) (simp_all add: coeffs_def)
    ultimately show ?thesis by (simp only: coeffs_def list.sel)
  qed
  obtain s0 rest where s0: "sub = s0 # rest" using t by (cases sub) auto
  have lens: "length s = Suc (length secret)" if "s \<in> set sub" for s
    using sub [OF that] by auto
  have nz: "hd s \<noteq> 0" if "s \<in> set sub" for s using sub [OF that] by auto
  have "map (\<lambda>i. interpolate (map (\<lambda>x. (x, the (map_of (byX sub) x) ! Suc i)) xs) 0)
      [0..<length secret] = secret"
    using byte by (intro nth_equalityI) auto
  moreover have "length s0 = Suc (length secret)" using lens s0 by simp
  moreover have "\<not> list_ex (\<lambda>s. length s \<noteq> length s0) sub" "\<not> list_ex (\<lambda>s. hd s = 0) sub"
    using lens nz s0 by (auto simp: list_ex_iff)
  ultimately show ?thesis
    using secret by (simp add: Combine_def s0 Let_def xs_def)
qed

lemma Split_member:
  assumes "Split rnd secret n t = Inr shares" "s \<in> set shares"
  shows "\<exists>x. x \<noteq> 0 \<and> s = share rnd secret (nat t) x"
proof -
  note sp = Split_Inr [OF assms(1)]
  from assms(2) obtain x where "s = share rnd secret (nat t) (word_of_nat x)" "1 \<le> x" "x \<le> nat n"
    by (auto simp: sp(5))
  moreover from this sp(3) have "(word_of_nat x :: byte) \<noteq> 0"
    by (intro small_word_nonzero) auto
  ultimately show ?thesis by blast
qed

text \<open>
  C3. Any selection of at least \<open>t\<close> different shares of a split, in any order and with repetitions,
  combines to the secret, whatever the random coefficients and the order of map iteration.
\<close>
theorem Combine_Split:
  assumes "Split rnd secret n t = Inr shares" "set sub \<subseteq> set shares" "t \<le> int (card (set sub))"
    "\<And>xs. mset (order xs) = mset xs"
  shows "Combine order sub = Inr secret"
proof (rule Combine_shares)
  show "\<exists>x. x \<noteq> 0 \<and> s = share rnd secret (nat t) x" if "s \<in> set sub" for s
    using Split_member [OF assms(1)] that assms(2) by blast
qed (use Split_Inr [OF assms(1)] assms in auto)

theorem Combine_Split_witness:
  "\<exists>shares. Split (\<lambda>i j. 7) [1, 2] 3 2 = Inr shares \<and> Combine rev [shares ! 2, shares ! 0] = Inr [1, 2]"
proof -
  have split: "Split (\<lambda>i j. 7) [1, 2] 3 2 =
    Inr (map (\<lambda>x. share (\<lambda>i j. 7) [1, 2] 2 (word_of_nat x)) [1..<4])"
    by (simp add: Split_def share_def)
  let ?s = "map (\<lambda>x. share (\<lambda>i j. 7) [1, 2] 2 (word_of_nat x)) [1..<4]"
  have "?s ! 2 \<noteq> ?s ! 0" by (simp add: share_def numeral_eq_Suc)
  then have "2 \<le> int (card (set [?s ! 2, ?s ! 0]))" by simp
  moreover have "set [?s ! 2, ?s ! 0] \<subseteq> set ?s"
    using nth_mem [of 2 ?s] nth_mem [of 0 ?s] by (simp del: nth_map)
  ultimately have "Combine rev [?s ! 2, ?s ! 0] = Inr [1, 2]"
    using Combine_Split [OF split, of "[?s ! 2, ?s ! 0]" rev] by simp
  with split show ?thesis by blast
qed

section \<open>Secrecy\<close>

lemma poly_through:
  assumes "finite A" "card A \<le> t"
  shows "\<exists>cs. length cs = t \<and> (\<forall>a\<in>A. horner cs a = h a)"
proof -
  obtain x where x: "bij_betw x {0..<card A} A" using ex_bij_betw_nat_finite [OF assms(1)] by blast
  then have inj: "inj_on x {..<card A}" by (simp add: bij_betw_def lessThan_atLeast0)
  let ?f = "lagrange (card A) x (\<lambda>i. h (x i))"
  have "is_poly t ?f" using is_poly_mono [OF lagrange_is_poly assms(2)] .
  then obtain cs where cs: "length cs = t" "?f = horner cs" by (auto simp: is_poly_horner)
  have "horner cs a = h a" if "a \<in> A" for a
  proof -
    from that x have "a \<in> x ` {0..<card A}" by (simp add: bij_betw_def)
    then obtain k where "k < card A" "a = x k" by auto
    then show ?thesis using lagrange_at [OF _ inj, of k] cs(2) by metis
  qed
  with cs(1) show ?thesis by blast
qed

lemma poly_with_value:
  assumes "finite Y" "card Y < t" "\<And>y. y \<in> Y \<Longrightarrow> Abs_gf y \<noteq> 0"
  shows "\<exists>cs. length cs = t \<and> horner cs 0 = s \<and> (\<forall>y\<in>Y. horner cs (Abs_gf y) = g y)"
proof -
  have "card (Abs_gf ` Y) \<le> card Y" using assms(1) by (rule card_image_le)
  then have "card (insert 0 (Abs_gf ` Y)) \<le> t"
    using assms(1,2) by (simp add: card_insert_if)
  then obtain cs where cs: "length cs = t"
      "\<forall>a\<in>insert 0 (Abs_gf ` Y). horner cs a = (if a = 0 then s else g (Rep_gf a))"
    using poly_through [of "insert 0 (Abs_gf ` Y)" t "\<lambda>a. if a = 0 then s else g (Rep_gf a)"] assms(1) by blast
  then show ?thesis using assms(3) by (intro exI [of _ cs]) simp
qed

lemma evalPoly_Rep: "evalPoly (map Rep_gf cs) x = Rep_gf (horner cs (Abs_gf x))"
  by (simp add: evalPoly_horner comp_def Rep_gf_inverse)

lemma coeffs_from_poly:
  assumes "length cs = t" "1 \<le> t" "horner cs 0 = Abs_gf (secret ! i)"
    "\<And>j. rnd i j = Rep_gf (cs ! Suc j)"
  shows "coeffs rnd secret t i = map Rep_gf cs"
proof -
  obtain c cs' where cs: "cs = c # cs'" using assms(1,2) by (cases cs) auto
  with assms have "secret ! i = Rep_gf c" by simp
  moreover have "map (rnd i) [0..<t - 1] = map Rep_gf cs'"
    using assms(1,4) cs by (intro nth_equalityI) auto
  ultimately show ?thesis by (simp add: coeffs_def cs)
qed

text \<open>
  C4. Fewer than \<open>t\<close> shares say nothing about the secret: for every other secret of the same
  length there are random coefficients with which that secret has the very same shares at those
  positions.
\<close>
theorem Split_hides_secret:
  assumes "Split rnd secret n t = Inr shares" "length secret' = length secret"
    "X \<subseteq> {..<length shares}" "int (card X) < t"
  shows "\<exists>rnd' shares'. Split rnd' secret' n t = Inr shares' \<and> (\<forall>k\<in>X. shares' ! k = shares ! k)"
proof -
  note sp = Split_Inr [OF assms(1)]
  define x where "x k = (word_of_nat (Suc k) :: byte)" for k
  have fin: "finite X" using assms(3) finite_subset by blast
  then have card: "card (x ` X) < nat t" using card_image_le [OF fin, of x] assms(4) by linarith
  have "length shares = nat n" by (simp only: sp(5) length_map length_upt diff_Suc_1)
  then have below: "k < nat n" if "k \<in> X" for k using that assms(3) by auto
  have nz: "Abs_gf (x k) \<noteq> 0" if "k \<in> X" for k
  proof -
    have "Suc k \<le> 255" using below [OF that] sp(3) by linarith
    then show ?thesis using small_word_nonzero [of "Suc k"] by (simp add: x_def del: of_nat_Suc)
  qed
  have "\<exists>cs. length cs = nat t \<and> horner cs 0 = Abs_gf (secret' ! i) \<and>
      (\<forall>k\<in>X. horner cs (Abs_gf (x k)) = Abs_gf (evalPoly (coeffs rnd secret (nat t) i) (x k)))" for i
    using poly_with_value [OF finite_imageI [OF fin] card, where s = "Abs_gf (secret' ! i)"
        and g = "\<lambda>y. Abs_gf (evalPoly (coeffs rnd secret (nat t) i) y)"] nz by fastforce
  then obtain cs where cs: "\<And>i. length (cs i) = nat t" "\<And>i. horner (cs i) 0 = Abs_gf (secret' ! i)"
    "\<And>i k. k \<in> X \<Longrightarrow>
       horner (cs i) (Abs_gf (x k)) = Abs_gf (evalPoly (coeffs rnd secret (nat t) i) (x k))"
    by metis
  define rnd' where "rnd' i j = Rep_gf (cs i ! Suc j)" for i j
  have co: "coeffs rnd' secret' (nat t) i = map Rep_gf (cs i)" for i
    using sp(1) by (intro coeffs_from_poly cs(1,2)) (auto simp: rnd'_def)
  have same: "share rnd' secret' (nat t) (x k) = share rnd secret (nat t) (x k)" if "k \<in> X" for k
    unfolding share_def co evalPoly_Rep by (simp add: cs(3) [OF that] assms(2))
  have split': "Split rnd' secret' n t =
      Inr (map (\<lambda>x. share rnd' secret' (nat t) (word_of_nat x)) [1..<Suc (nat n)])"
    using sp(1-4) assms(2) by (auto simp: Split_def share_def)
  have "map (\<lambda>x. share rnd' secret' (nat t) (word_of_nat x)) [1..<Suc (nat n)] ! k = shares ! k"
    if "k \<in> X" for k
  proof -
    have idx: "k < length [1..<Suc (nat n)]" "[1..<Suc (nat n)] ! k = Suc k"
      using below [OF that] by (simp_all del: upt_Suc)
    show ?thesis using same [OF that] unfolding sp(5) by (simp only: idx nth_map x_def)
  qed
  with split' show ?thesis by blast
qed

theorem Split_hides_secret_witness:
  "\<exists>shares rnd' shares'. Split (\<lambda>i j. 7) [1, 2] 3 2 = Inr shares \<and>
     Split rnd' [8, 9] 3 2 = Inr shares' \<and> shares' ! 1 = shares ! 1"
proof -
  have split: "Split (\<lambda>i j. 7) [1, 2] 3 2 =
    Inr (map (\<lambda>x. share (\<lambda>i j. 7) [1, 2] 2 (word_of_nat x)) [1..<4])"
    by (simp add: Split_def share_def)
  from Split_hides_secret [OF split, of "[8, 9]" "{1}"] show ?thesis
    using split by auto
qed

end
