(* ===== verification/Crypto.thy ===== *)
theory Crypto
  imports Bytes
begin

text \<open>
  Envelope encryption, the versioned key ring and the crypto service
  (\<^verbatim>\<open>internal/crypto/envelope.go\<close>, \<^verbatim>\<open>keyring.go\<close>, \<^verbatim>\<open>service.go\<close>). AES-256-GCM is a
  parameter of the definitions, with its documented laws in \<open>gcm_laws\<close>: a sealed message opens
  to its plaintext under the same key and nonce, and a ciphertext is 16 bytes longer than its
  plaintext. A key ring's map from version bytes to keys is a HOL map; the code iterates over
  its keys in sorted order only.
\<close>

section \<open>AES-GCM\<close>

record aead =
  gcm_Seal :: "bytes \<Rightarrow> bytes \<Rightarrow> bytes \<Rightarrow> bytes"
  gcm_Open :: "bytes \<Rightarrow> bytes \<Rightarrow> bytes \<Rightarrow> bytes option"

definition gcm_laws :: "aead \<Rightarrow> bool" where
  "gcm_laws A \<longleftrightarrow>
     (\<forall>k n p. gcm_Open A k n (gcm_Seal A k n p) = Some p) \<and>
     (\<forall>k n p. length (gcm_Seal A k n p) = length p + 16) \<and>
     (\<forall>k n c p. gcm_Open A k n c = Some p \<longrightarrow> length c = length p + 16)"

definition NonceSize :: nat where "NonceSize = 12"

section \<open>Envelope\<close>

record Envelope =
  env_key :: bytes

definition NewEnvelope :: "bytes \<Rightarrow> Envelope res" where
  "NewEnvelope masterKey =
     (if length masterKey \<noteq> 32 then Inl (Plain ''master key must be 32 bytes, got %d'')
      else Inr \<lparr>env_key = masterKey\<rparr>)"

text \<open>\<^verbatim>\<open>aes.NewCipher\<close> refuses a key that has not 16, 24 or 32 bytes.\<close>

definition NewCipher :: "bytes \<Rightarrow> bytes res" where
  "NewCipher key =
     (if length key = 16 \<or> length key = 24 \<or> length key = 32 then Inr key
      else Inl (Plain ''crypto/aes: invalid key size''))"

definition Encrypt :: "aead \<Rightarrow> entropy \<Rightarrow> Envelope \<Rightarrow> bytes \<Rightarrow> bytes res" where
  "Encrypt A rnd e plaintext =
     (case NewCipher (env_key e) of
        Inl err \<Rightarrow> Inl err
      | Inr key \<Rightarrow>
          (let nonce = ReadFull rnd NonceSize
           in Inr (nonce @ gcm_Seal A key nonce plaintext)))"

definition Decrypt :: "aead \<Rightarrow> Envelope \<Rightarrow> bytes \<Rightarrow> bytes res" where
  "Decrypt A e ciphertext =
     (case NewCipher (env_key e) of
        Inl err \<Rightarrow> Inl err
      | Inr key \<Rightarrow>
          if length ciphertext < NonceSize then Inl (Plain ''ciphertext too short'')
          else (case gcm_Open A key (take NonceSize ciphertext) (drop NonceSize ciphertext) of
                  None \<Rightarrow> Inl (Plain ''cipher: message authentication failed'')
                | Some p \<Rightarrow> Inr p))"

section \<open>Key ring\<close>

definition dekSize :: nat where "dekSize = 32"
definition dekVersionPrefixSize :: nat where "dekVersionPrefixSize = 1"
definition minVersionedLen :: nat where "minVersionedLen = dekVersionPrefixSize + 13 + dekSize"

record KeyRing =
  keys :: "byte \<rightharpoonup> bytes"
  active :: byte
  legacy :: bool

definition NewKeyRing :: "bytes \<Rightarrow> KeyRing res" where
  "NewKeyRing masterKey =
     (if length masterKey \<noteq> 32 then Inl (Plain ''master key must be 32 bytes, got %d'')
      else Inr \<lparr>keys = [1 \<mapsto> masterKey], active = 1, legacy = True\<rparr>)"

definition SetActiveVersion :: "byte \<Rightarrow> KeyRing \<Rightarrow> KeyRing res" where
  "SetActiveVersion version k =
     (case keys k version of
        None \<Rightarrow> Inl (Plain ''unknown key version %d'')
      | Some _ \<Rightarrow> Inr (k\<lparr>active := version\<rparr>))"

definition AddKey :: "byte \<Rightarrow> bytes \<Rightarrow> KeyRing \<Rightarrow> KeyRing res" where
  "AddKey version masterKey k =
     (if version = 0 then Inl (Plain ''key version must be > 0'')
      else if length masterKey \<noteq> 32 then Inl (Plain ''master key must be 32 bytes, got %d'')
      else (case keys k version of
              Some _ \<Rightarrow> Inl (Plain ''key version %d already exists'')
            | None \<Rightarrow> Inr (k\<lparr>keys := (keys k)(version \<mapsto> masterKey), active := version, legacy := False\<rparr>)))"

text \<open>All bytes in increasing order: the sorted keys of the ring are those with an entry.\<close>

definition all_bytes :: bytes where
  "all_bytes = map word_of_nat [0..<256]"

definition Versions :: "KeyRing \<Rightarrow> bytes" where
  "Versions k = filter (\<lambda>v. keys k v \<noteq> None) all_bytes"

definition envelope :: "KeyRing \<Rightarrow> byte \<Rightarrow> Envelope res" where
  "envelope k version =
     (case keys k version of
        None \<Rightarrow> Inl (Plain ''unknown key version %d'')
      | Some key \<Rightarrow> NewEnvelope key)"

definition EncryptDEK :: "aead \<Rightarrow> entropy \<Rightarrow> KeyRing \<Rightarrow> bytes \<Rightarrow> bytes res" where
  "EncryptDEK A rnd k dek =
     (if length dek \<noteq> dekSize then Inl (Plain ''dek must be %d bytes, got %d'')
      else (case envelope k (active k) of
              Inl err \<Rightarrow> Inl err
            | Inr env \<Rightarrow>
                (case Encrypt A rnd env dek of
                   Inl err \<Rightarrow> Inl err
                 | Inr enc \<Rightarrow> if legacy k \<and> active k = 1 then Inr enc else Inr (active k # enc))))"

text \<open>A version's attempt at a ciphertext: the DEK if it opens and has the right length.\<close>

definition open_dek :: "aead \<Rightarrow> KeyRing \<Rightarrow> byte \<Rightarrow> bytes \<Rightarrow> bytes res" where
  "open_dek A k version enc =
     (case envelope k version of
        Inl err \<Rightarrow> Inl err
      | Inr env \<Rightarrow>
          (case Decrypt A env enc of
             Inl err \<Rightarrow> Inl err
           | Inr dek \<Rightarrow> if length dek \<noteq> dekSize then Inl (Plain ''decrypted dek invalid length %d'')
                        else Inr dek))"

text \<open>
  The loop over all versions, with the last error. A version without a usable envelope is
  skipped without recording its error.
\<close>

fun try_versions :: "aead \<Rightarrow> KeyRing \<Rightarrow> byte list \<Rightarrow> bytes \<Rightarrow> error option \<Rightarrow> bytes res" where
  "try_versions A k [] enc lastErr =
     (case lastErr of Some e \<Rightarrow> Inl e | None \<Rightarrow> Inl (Plain ''unable to decrypt dek''))"
| "try_versions A k (v # vs) enc lastErr =
     (if \<not> is_ok (envelope k v) then try_versions A k vs enc lastErr
      else (case open_dek A k v enc of
              Inl e \<Rightarrow> try_versions A k vs enc (Some e)
            | Inr dek \<Rightarrow> Inr dek))"

definition versionKnown :: "byte list \<Rightarrow> byte \<Rightarrow> bool" where
  "versionKnown versions version = list_ex (\<lambda>v. v = version) versions"

definition DecryptDEK :: "aead \<Rightarrow> KeyRing \<Rightarrow> bytes \<Rightarrow> bytes res" where
  "DecryptDEK A k enc =
     (if enc = [] then Inl (Plain ''empty encrypted dek'')
      else (let versions = Versions k
            in if length enc \<ge> minVersionedLen \<and> hd enc \<noteq> 0 \<and> versionKnown versions (hd enc)
                  \<and> is_ok (open_dek A k (hd enc) (tl enc))
               then open_dek A k (hd enc) (tl enc)
               else try_versions A k versions enc None))"

definition versionedDEKVersionLocked :: "aead \<Rightarrow> KeyRing \<Rightarrow> bytes \<Rightarrow> byte option" where
  "versionedDEKVersionLocked A k enc =
     (if length enc < minVersionedLen then None
      else if hd enc = 0 then None
      else if is_ok (open_dek A k (hd enc) (tl enc)) then Some (hd enc) else None)"

definition DEKNeedsReencrypt :: "aead \<Rightarrow> KeyRing \<Rightarrow> bytes \<Rightarrow> bool" where
  "DEKNeedsReencrypt A k enc =
     (if legacy k \<and> active k = 1 then False
      else (case versionedDEKVersionLocked A k enc of
              Some version \<Rightarrow> version \<noteq> active k
            | None \<Rightarrow> True))"

definition ReencryptDEK :: "aead \<Rightarrow> entropy \<Rightarrow> KeyRing \<Rightarrow> bytes \<Rightarrow> bytes res" where
  "ReencryptDEK A rnd k enc =
     (case DecryptDEK A k enc of
        Inl err \<Rightarrow> Inl err
      | Inr dek \<Rightarrow> EncryptDEK A rnd k dek)"

section \<open>Service\<close>

text \<open>The next version byte after the largest, in 8-bit arithmetic: after 255 comes 0.\<close>

definition next_version :: "KeyRing \<Rightarrow> byte" where
  "next_version k = (let versions = Versions k in if versions \<noteq> [] then last versions + 1 else 1)"

definition RotateMasterKey :: "bytes \<Rightarrow> KeyRing \<Rightarrow> (byte \<times> KeyRing) res" where
  "RotateMasterKey newMasterKey k =
     (case AddKey (next_version k) newMasterKey k of
        Inl err \<Rightarrow> Inl err
      | Inr k' \<Rightarrow> Inr (next_version k, k'))"

definition LoadPreviousMasterKey :: "bytes \<Rightarrow> KeyRing \<Rightarrow> KeyRing res" where
  "LoadPreviousMasterKey masterKey k =
     (if length masterKey \<noteq> 32 then Inl (Plain ''previous master key must be 32 bytes, got %d'')
      else (case AddKey (next_version k) masterKey k of
              Inl err \<Rightarrow> Inl err
            | Inr k' \<Rightarrow> SetActiveVersion (active k) k'))"

definition GenerateDEK :: "entropy \<Rightarrow> bytes" where
  "GenerateDEK rnd = ReadFull rnd dekSize"

definition Service_DecryptDEK :: "aead \<Rightarrow> KeyRing \<Rightarrow> bytes \<Rightarrow> bytes res" where
  "Service_DecryptDEK A k enc =
     (case DecryptDEK A k enc of
        Inl err \<Rightarrow> Inl err
      | Inr dek \<Rightarrow> if length dek \<noteq> dekSize then Inl (Plain ''decrypted dek invalid length %d'')
                   else Inr dek)"

definition EncryptWithDEK :: "aead \<Rightarrow> entropy \<Rightarrow> bytes \<Rightarrow> bytes \<Rightarrow> bytes res" where
  "EncryptWithDEK A rnd dek plaintext =
     (case NewEnvelope dek of Inl err \<Rightarrow> Inl err | Inr env \<Rightarrow> Encrypt A rnd env plaintext)"

definition DecryptWithDEK :: "aead \<Rightarrow> bytes \<Rightarrow> bytes \<Rightarrow> bytes res" where
  "DecryptWithDEK A dek ciphertext =
     (case NewEnvelope dek of Inl err \<Rightarrow> Inl err | Inr env \<Rightarrow> Decrypt A env ciphertext)"

text \<open>The three random reads of \<^verbatim>\<open>Seal\<close>: the DEK, the data nonce, the DEK's nonce.\<close>

record seal_entropy =
  dek_rnd :: entropy
  data_rnd :: entropy
  wrap_rnd :: entropy

definition Seal :: "aead \<Rightarrow> seal_entropy \<Rightarrow> KeyRing \<Rightarrow> bytes \<Rightarrow> (bytes \<times> bytes) res" where
  "Seal A rnd k plaintext =
     (let dek = GenerateDEK (dek_rnd rnd)
      in case EncryptWithDEK A (data_rnd rnd) dek plaintext of
           Inl err \<Rightarrow> Inl err
         | Inr ciphertext \<Rightarrow>
             (case EncryptDEK A (wrap_rnd rnd) k dek of
                Inl err \<Rightarrow> Inl err
              | Inr dekEnc \<Rightarrow> Inr (ciphertext, dekEnc)))"

definition Open :: "aead \<Rightarrow> KeyRing \<Rightarrow> bytes \<Rightarrow> bytes \<Rightarrow> bytes res" where
  "Open A k ciphertext dekEnc =
     (case Service_DecryptDEK A k dekEnc of
        Inl err \<Rightarrow> Inl err
      | Inr dek \<Rightarrow> DecryptWithDEK A dek ciphertext)"

section \<open>Envelope round trip\<close>

lemma gcm_lawsD:
  assumes "gcm_laws A"
  shows "gcm_Open A k n (gcm_Seal A k n p) = Some p"
    "length (gcm_Seal A k n p) = length p + 16"
    "gcm_Open A k n c = Some p \<Longrightarrow> length c = length p + 16"
  using assms by (auto simp: gcm_laws_def)

definition sealed :: "aead \<Rightarrow> bytes \<Rightarrow> entropy \<Rightarrow> bytes \<Rightarrow> bytes" where
  "sealed A key rnd p = ReadFull rnd NonceSize @ gcm_Seal A key (ReadFull rnd NonceSize) p"

lemma Encrypt_sealed: "length key = 32 \<Longrightarrow> Encrypt A rnd \<lparr>env_key = key\<rparr> p = Inr (sealed A key rnd p)"
  by (simp add: Encrypt_def NewCipher_def sealed_def Let_def)

lemma Decrypt_sealed:
  "gcm_laws A \<Longrightarrow> length key = 32 \<Longrightarrow> Decrypt A \<lparr>env_key = key\<rparr> (sealed A key rnd p) = Inr p"
  by (simp add: Decrypt_def NewCipher_def sealed_def NonceSize_def gcm_lawsD)

lemma length_sealed: "gcm_laws A \<Longrightarrow> length (sealed A key rnd p) = length p + 28"
  by (simp add: sealed_def NonceSize_def gcm_lawsD)

lemma Decrypt_length:
  "gcm_laws A \<Longrightarrow> Decrypt A env c = Inr p \<Longrightarrow> length c = length p + 28"
  by (auto simp: Decrypt_def NonceSize_def split: sum.splits if_splits option.splits
      dest!: gcm_lawsD(3))

section \<open>Invariant of the key ring\<close>

definition ring_wf :: "KeyRing \<Rightarrow> bool" where
  "ring_wf k \<longleftrightarrow>
     keys k 0 = None \<and> keys k 1 \<noteq> None \<and> keys k (active k) \<noteq> None \<and>
     (\<forall>v key. keys k v = Some key \<longrightarrow> length key = 32)"

text \<open>The ways the code changes a ring.\<close>

inductive ring_step :: "KeyRing \<Rightarrow> KeyRing \<Rightarrow> bool" where
  step_add: "AddKey v key k = Inr k' \<Longrightarrow> ring_step k k'"
| step_active: "SetActiveVersion v k = Inr k' \<Longrightarrow> ring_step k k'"
| step_rotate: "RotateMasterKey key k = Inr (v, k') \<Longrightarrow> ring_step k k'"
| step_previous: "LoadPreviousMasterKey key k = Inr k' \<Longrightarrow> ring_step k k'"

lemma AddKey_Inr:
  "AddKey v key k = Inr k' \<longleftrightarrow>
     v \<noteq> 0 \<and> length key = 32 \<and> keys k v = None \<and>
     k' = k\<lparr>keys := (keys k)(v \<mapsto> key), active := v, legacy := False\<rparr>"
  by (auto simp: AddKey_def split: option.splits)

lemma SetActiveVersion_Inr:
  "SetActiveVersion v k = Inr k' \<longleftrightarrow> keys k v \<noteq> None \<and> k' = k\<lparr>active := v\<rparr>"
  by (auto simp: SetActiveVersion_def split: option.splits)

lemma RotateMasterKey_Inr:
  "RotateMasterKey key k = Inr (v, k') \<longleftrightarrow> v = next_version k \<and> AddKey v key k = Inr k'"
  by (auto simp: RotateMasterKey_def split: sum.splits)

lemma LoadPreviousMasterKey_Inr:
  "LoadPreviousMasterKey key k = Inr k' \<longleftrightarrow>
     (\<exists>m. AddKey (next_version k) key k = Inr m \<and> SetActiveVersion (active k) m = Inr k')"
proof (cases "length key = 32")
  case True
  then show ?thesis by (auto simp: LoadPreviousMasterKey_def split: sum.splits)
qed (simp add: LoadPreviousMasterKey_def AddKey_Inr)

lemma AddKey_wf: "ring_wf k \<Longrightarrow> AddKey v key k = Inr k' \<Longrightarrow> ring_wf k' \<and> keys k \<subseteq>\<^sub>m keys k'"
  by (auto simp: ring_wf_def AddKey_Inr map_le_def)

lemma SetActiveVersion_wf:
  "ring_wf k \<Longrightarrow> SetActiveVersion v k = Inr k' \<Longrightarrow> ring_wf k' \<and> keys k \<subseteq>\<^sub>m keys k'"
  by (auto simp: ring_wf_def SetActiveVersion_Inr)

lemma ring_step_wf: "ring_step k k' \<Longrightarrow> ring_wf k \<Longrightarrow> ring_wf k' \<and> keys k \<subseteq>\<^sub>m keys k'"
proof (induction rule: ring_step.induct)
  case (step_previous key k k')
  then show ?case
    using AddKey_wf SetActiveVersion_wf unfolding LoadPreviousMasterKey_Inr by (meson map_le_trans)
qed (auto simp: RotateMasterKey_Inr dest: AddKey_wf SetActiveVersion_wf)

lemma ring_steps_wf: "ring_step\<^sup>*\<^sup>* k k' \<Longrightarrow> ring_wf k \<Longrightarrow> ring_wf k' \<and> keys k \<subseteq>\<^sub>m keys k'"
proof (induction rule: rtranclp_induct)
  case (step m k')
  then show ?case using ring_step_wf map_le_trans by blast
qed simp

lemma NewKeyRing_wf: "NewKeyRing key = Inr k \<Longrightarrow> ring_wf k"
  by (auto simp: NewKeyRing_def ring_wf_def split: if_splits)

section \<open>Wrapped DEKs stay readable\<close>

lemma envelope_key: "ring_wf k \<Longrightarrow> keys k v = Some key \<Longrightarrow> envelope k v = Inr \<lparr>env_key = key\<rparr>"
  by (auto simp: envelope_def NewEnvelope_def ring_wf_def)

lemma open_dek_sealed:
  "gcm_laws A \<Longrightarrow> ring_wf k \<Longrightarrow> keys k v = Some key \<Longrightarrow> length dek = dekSize \<Longrightarrow>
   open_dek A k v (sealed A key rnd dek) = Inr dek"
  by (simp add: open_dek_def envelope_key Decrypt_sealed ring_wf_def)

lemma open_dek_length:
  "gcm_laws A \<Longrightarrow> open_dek A k v enc = Inr dek \<Longrightarrow> length enc = 60 \<and> length dek = dekSize"
  by (auto simp: open_dek_def dekSize_def split: sum.splits if_splits dest!: Decrypt_length)

lemma set_all_bytes: "set all_bytes = UNIV"
proof -
  have "v \<in> word_of_nat ` {0..<256}" for v :: byte
    using unsigned_less [of v] by (intro image_eqI [of _ _ "unat v"]) auto
  then show ?thesis by (auto simp: all_bytes_def)
qed

lemma all_bytes_first: "\<exists>bs. all_bytes = 0 # 1 # bs"
proof -
  have "[0..<256] = 0 # 1 # [2..<256]" by (simp add: upt_conv_Cons)
  then show ?thesis by (simp add: all_bytes_def)
qed

lemma set_Versions: "set (Versions k) = dom (keys k)"
  unfolding Versions_def set_filter set_all_bytes by auto

lemma versionKnown_iff: "versionKnown (Versions k) v \<longleftrightarrow> keys k v \<noteq> None"
  using set_Versions [of k] by (auto simp: versionKnown_def list_ex_iff)

text \<open>Version 1, when present, is tried first.\<close>

lemma Versions_first: "ring_wf k \<Longrightarrow> \<exists>vs. Versions k = 1 # vs"
proof -
  assume "ring_wf k"
  moreover obtain bs where bs: "all_bytes = 0 # 1 # bs" using all_bytes_first by blast
  ultimately show ?thesis unfolding Versions_def bs by (auto simp: ring_wf_def)
qed

lemma EncryptDEK_Inr:
  assumes "ring_wf k" "EncryptDEK A rnd k dek = Inr enc"
  obtains key where "keys k (active k) = Some key" "length dek = dekSize"
    "enc = (if legacy k \<and> active k = 1 then sealed A key rnd dek else active k # sealed A key rnd dek)"
proof -
  obtain key where key: "keys k (active k) = Some key" using assms(1) by (auto simp: ring_wf_def)
  then have "length key = 32" using assms(1) by (auto simp: ring_wf_def)
  with key assms that show ?thesis
    by (auto simp: EncryptDEK_def envelope_key Encrypt_sealed split: if_splits)
qed

text \<open>A versioned ciphertext is opened by the key of its prefix.\<close>

lemma DecryptDEK_versioned:
  assumes "gcm_laws A" "ring_wf k" "keys k v = Some key" "length dek = dekSize"
  shows "DecryptDEK A k (v # sealed A key rnd dek) = Inr dek"
proof -
  have "v \<noteq> 0" using assms(2,3) by (auto simp: ring_wf_def)
  with assms show ?thesis
    by (simp add: DecryptDEK_def Let_def versionKnown_iff open_dek_sealed length_sealed
        minVersionedLen_def dekVersionPrefixSize_def dekSize_def)
qed

text \<open>
  An unversioned ciphertext is opened by the key of version 1: should its first nonce byte be a
  known version, what opens of the rest has 31 bytes and is refused.
\<close>

lemma DecryptDEK_legacy:
  assumes "gcm_laws A" "ring_wf k" "keys k 1 = Some key" "length dek = dekSize"
  shows "DecryptDEK A k (sealed A key rnd dek) = Inr dek"
proof -
  let ?enc = "sealed A key rnd dek"
  have len: "length ?enc = 60" using assms by (simp add: length_sealed dekSize_def)
  then have "length (tl ?enc) = 59" by simp
  then have "\<not> is_ok (open_dek A k (hd ?enc) (tl ?enc))"
    using open_dek_length [OF assms(1)] by (fastforce simp: is_ok_iff)
  moreover obtain vs where "Versions k = 1 # vs" using Versions_first [OF assms(2)] by blast
  moreover have "?enc \<noteq> []" using len by auto
  ultimately show ?thesis
    using assms by (simp add: DecryptDEK_def Let_def envelope_key open_dek_sealed)
qed

lemma EncryptDEK_readable:
  assumes "gcm_laws A" "ring_wf k" "EncryptDEK A rnd k dek = Inr enc" "ring_step\<^sup>*\<^sup>* k k'"
  shows "DecryptDEK A k' enc = Inr dek"
proof -
  obtain key where key: "keys k (active k) = Some key" "length dek = dekSize"
    "enc = (if legacy k \<and> active k = 1 then sealed A key rnd dek else active k # sealed A key rnd dek)"
    using EncryptDEK_Inr [OF assms(2,3)] by blast
  have wf: "ring_wf k'" and le: "keys k \<subseteq>\<^sub>m keys k'" using ring_steps_wf [OF assms(4,2)] by auto
  have "keys k' (active k) = Some key" using le key(1) by (metis domI map_le_def)
  then show ?thesis
    using DecryptDEK_versioned [OF assms(1) wf] DecryptDEK_legacy [OF assms(1) wf] key by auto
qed

lemma EncryptDEK_ok: "ring_wf k \<Longrightarrow> length dek = dekSize \<Longrightarrow> \<exists>enc. EncryptDEK A rnd k dek = Inr enc"
proof -
  assume wf: "ring_wf k" and "length dek = dekSize"
  moreover obtain key where key: "keys k (active k) = Some key" using wf by (auto simp: ring_wf_def)
  moreover have "length key = 32" using wf key by (auto simp: ring_wf_def)
  ultimately show ?thesis by (simp add: EncryptDEK_def envelope_key Encrypt_sealed)
qed

text \<open>
  C2. Whatever keys are added, activated, rotated in or loaded as previous keys afterwards, a DEK
  wrapped by a ring decrypts to itself: rotation never loses a wrapped DEK while the process
  runs, also an unversioned one from before the first rotation.
\<close>
theorem DEK_survives_rotation:
  assumes "gcm_laws A" "NewKeyRing key0 = Inr k0" "ring_step\<^sup>*\<^sup>* k0 k"
    "EncryptDEK A rnd k dek = Inr enc" "ring_step\<^sup>*\<^sup>* k k'"
  shows "DecryptDEK A k' enc = Inr dek"
  using assms EncryptDEK_readable NewKeyRing_wf ring_steps_wf by blast

text \<open>
  A concrete cipher with the laws: the ciphertext is the plaintext and a tag of 16 bytes, the
  first byte of the key repeated.
\<close>

definition demo_aead :: aead where
  "demo_aead = \<lparr>
     gcm_Seal = (\<lambda>k n p. p @ replicate 16 (case k of [] \<Rightarrow> 0 | b # _ \<Rightarrow> b)),
     gcm_Open = (\<lambda>k n c. if length c \<ge> 16 \<and>
         drop (length c - 16) c = replicate 16 (case k of [] \<Rightarrow> 0 | b # _ \<Rightarrow> b)
       then Some (take (length c - 16) c) else None)\<rparr>"

lemma demo_aead_laws: "gcm_laws demo_aead"
  by (auto simp: gcm_laws_def demo_aead_def split: if_splits)

definition demo_k1 :: bytes where "demo_k1 = replicate 32 1"
definition demo_k2 :: bytes where "demo_k2 = replicate 32 2"

definition demo_ring1 :: KeyRing where
  "demo_ring1 = \<lparr>keys = [1 \<mapsto> demo_k1], active = 1, legacy = True\<rparr>"

definition demo_ring2 :: KeyRing where
  "demo_ring2 = \<lparr>keys = [1 \<mapsto> demo_k1, 2 \<mapsto> demo_k2], active = 2, legacy = False\<rparr>"

lemma demo_ring1_new: "NewKeyRing demo_k1 = Inr demo_ring1"
  by (simp add: NewKeyRing_def demo_k1_def demo_ring1_def)

lemma demo_add: "AddKey 2 demo_k2 demo_ring1 = Inr demo_ring2"
  by (simp add: AddKey_def demo_ring1_def demo_ring2_def demo_k2_def)

lemma demo_steps: "ring_step\<^sup>*\<^sup>* demo_ring1 demo_ring2"
  using step_add [OF demo_add] by blast

theorem DEK_survives_rotation_witness:
  "\<exists>enc. EncryptDEK demo_aead (\<lambda>_. 9) demo_ring1 (replicate 32 7) = Inr enc \<and>
     DecryptDEK demo_aead demo_ring2 enc = Inr (replicate 32 7)"
proof -
  obtain enc where "EncryptDEK demo_aead (\<lambda>_. 9) demo_ring1 (replicate 32 7) = Inr enc"
    using EncryptDEK_ok [OF NewKeyRing_wf [OF demo_ring1_new], of "replicate 32 7"]
    by (auto simp: dekSize_def)
  then show ?thesis
    using DEK_survives_rotation [OF demo_aead_laws demo_ring1_new rtranclp.rtrancl_refl _ demo_steps]
    by blast
qed

section \<open>Version numbers\<close>

lemma sorted_all_bytes: "sorted all_bytes"
  unfolding all_bytes_def sorted_map
  by (rule sorted_wrt_mono_rel [of _ "(\<le>)"]) (auto simp: word_le_nat_alt unat_of_nat)

lemma sorted_last: "sorted xs \<Longrightarrow> x \<in> set xs \<Longrightarrow> x \<le> last xs"
  by (induction xs) auto

lemma Versions_last: "v \<in> set (Versions k) \<Longrightarrow> v \<le> last (Versions k)"
  unfolding Versions_def by (rule sorted_last) (simp_all add: sorted_all_bytes sorted_wrt_filter)

lemma next_version_eq: "ring_wf k \<Longrightarrow> next_version k = last (Versions k) + 1"
  using Versions_first [of k] by (auto simp: next_version_def Let_def)

lemma last_Versions_key: "ring_wf k \<Longrightarrow> keys k (last (Versions k)) \<noteq> None"
  using Versions_first [of k] set_Versions [of k] last_in_set [of "Versions k"] by auto

text \<open>
  Rotation with a key of the right size appends the next version, larger than all present
  ones, and makes it active; it is refused exactly when version 255 is taken, because the next
  version byte wraps to 0.
\<close>
theorem RotateMasterKey_version:
  assumes "ring_wf k" "length key = 32"
  shows "if keys k 255 \<noteq> None
    then RotateMasterKey key k = Inl (Plain ''key version must be > 0'')
    else \<exists>v. (\<forall>u. keys k u \<noteq> None \<longrightarrow> u < v) \<and>
      RotateMasterKey key k = Inr (v, k\<lparr>keys := (keys k)(v \<mapsto> key), active := v, legacy := False\<rparr>)"
proof -
  let ?m = "last (Versions k)"
  have le: "u \<le> ?m" if "keys k u \<noteq> None" for u
    using that set_Versions [of k] by (intro Versions_last) auto
  have nv: "next_version k = ?m + 1" using next_version_eq [OF assms(1)] .
  show ?thesis
  proof (cases "keys k 255 \<noteq> None")
    case True
    have "?m = 255"
    proof (rule ccontr)
      assume "?m \<noteq> 255"
      then have "(255 :: byte) < ?m + 1" using le True by (intro byte_less_succ) auto
      with byte_le_255 [of "?m + 1"] show False by (simp add: leD)
    qed
    with True nv show ?thesis by (simp add: RotateMasterKey_def AddKey_def)
  next
    case False
    then have "?m \<noteq> 255" using last_Versions_key [OF assms(1)] by metis
    then have less: "\<forall>u. keys k u \<noteq> None \<longrightarrow> u < ?m + 1" using le byte_less_succ by blast
    then have "keys k (?m + 1) = None" by (metis less_irrefl)
    moreover have "?m + 1 \<noteq> 0" using less last_Versions_key [OF assms(1)] word_not_simps(1) by metis
    ultimately have "RotateMasterKey key k =
        Inr (?m + 1, k\<lparr>keys := (keys k)(?m + 1 \<mapsto> key), active := ?m + 1, legacy := False\<rparr>)"
      using assms(2) nv by (simp add: RotateMasterKey_def AddKey_def)
    with less False show ?thesis by auto
  qed
qed

theorem RotateMasterKey_version_witness:
  "\<exists>v. RotateMasterKey demo_k2 demo_ring1 =
     Inr (v, demo_ring1\<lparr>keys := (keys demo_ring1)(v \<mapsto> demo_k2), active := v, legacy := False\<rparr>) \<and> 1 < v"
proof -
  have "keys demo_ring1 255 = None" "keys demo_ring1 1 \<noteq> None" "length demo_k2 = 32"
    by (simp_all add: demo_ring1_def demo_k2_def)
  with RotateMasterKey_version [OF NewKeyRing_wf [OF demo_ring1_new], of demo_k2] show ?thesis
    by auto
qed

lemma Seal_Inr:
  assumes "Seal A rnd k plaintext = Inr (ciphertext, dekEnc)"
  shows "ciphertext = sealed A (GenerateDEK (dek_rnd rnd)) (data_rnd rnd) plaintext"
    "EncryptDEK A (wrap_rnd rnd) k (GenerateDEK (dek_rnd rnd)) = Inr dekEnc"
  using assms
  by (auto simp: Seal_def Let_def EncryptWithDEK_def NewEnvelope_def Encrypt_sealed GenerateDEK_def
      dekSize_def split: sum.splits)

lemma Seal_ok: "ring_wf k \<Longrightarrow> \<exists>c d. Seal A rnd k plaintext = Inr (c, d)"
proof -
  assume wf: "ring_wf k"
  have len: "length (GenerateDEK (dek_rnd rnd)) = 32" by (simp add: GenerateDEK_def dekSize_def)
  then obtain enc where "EncryptDEK A (wrap_rnd rnd) k (GenerateDEK (dek_rnd rnd)) = Inr enc"
    using EncryptDEK_ok [OF wf, of "GenerateDEK (dek_rnd rnd)"] by (auto simp: dekSize_def)
  with len show ?thesis
    by (simp add: Seal_def Let_def EncryptWithDEK_def NewEnvelope_def Encrypt_sealed)
qed

lemma Seal_opens:
  assumes "gcm_laws A" "ring_wf k" "Seal A rnd k plaintext = Inr (c, d)" "ring_step\<^sup>*\<^sup>* k k'"
  shows "Open A k' c d = Inr plaintext"
  using EncryptDEK_readable [OF assms(1,2) Seal_Inr(2) [OF assms(3)] assms(4)] assms(1)
  by (simp add: Seal_Inr(1) [OF assms(3)] Open_def Service_DecryptDEK_def DecryptWithDEK_def
      NewEnvelope_def Decrypt_sealed GenerateDEK_def dekSize_def)

lemma sealed_not_Nil [simp]: "sealed A key rnd p \<noteq> []"
proof -
  have "length (ReadFull rnd NonceSize) \<noteq> 0" by (simp add: NonceSize_def)
  then show ?thesis unfolding sealed_def by (metis append_is_Nil_conv list.size(3))
qed

lemma Seal_not_Nil:
  assumes "ring_wf k" "Seal A rnd k plaintext = Inr (c, d)"
  shows "c \<noteq> []" "d \<noteq> []"
proof -
  show "c \<noteq> []" using Seal_Inr(1) [OF assms(2)] by simp
  show "d \<noteq> []" by (rule EncryptDEK_Inr [OF assms(1) Seal_Inr(2) [OF assms(2)]]) auto
qed

text \<open>
  C11. Sealing a plaintext always succeeds on a ring made by the code, and what it returns opens to
  the plaintext now and after any later key rotation.
\<close>
theorem Seal_Open:
  assumes "gcm_laws A" "NewKeyRing key0 = Inr k0" "ring_step\<^sup>*\<^sup>* k0 k"
  shows "\<exists>ciphertext dekEnc. Seal A rnd k plaintext = Inr (ciphertext, dekEnc) \<and>
    (\<forall>k'. ring_step\<^sup>*\<^sup>* k k' \<longrightarrow> Open A k' ciphertext dekEnc = Inr plaintext)"
proof -
  have wf: "ring_wf k" using assms NewKeyRing_wf ring_steps_wf by blast
  then show ?thesis using Seal_ok [OF wf] Seal_opens [OF assms(1) wf] by blast
qed

theorem Seal_Open_witness:
  "\<exists>c d. Seal demo_aead \<lparr>dek_rnd = \<lambda>_. 3, data_rnd = \<lambda>_. 4, wrap_rnd = \<lambda>_. 5\<rparr> demo_ring1 [42] = Inr (c, d) \<and>
     Open demo_aead demo_ring2 c d = Inr [42]"
  using Seal_Open [OF demo_aead_laws demo_ring1_new rtranclp.rtrancl_refl,
      of "\<lparr>dek_rnd = \<lambda>_. 3, data_rnd = \<lambda>_. 4, wrap_rnd = \<lambda>_. 5\<rparr>" "[42]"] demo_steps
  by blast

text \<open>
  Re-encrypting a readable DEK succeeds, keeps the DEK, and leaves nothing for the
  re-encryption job to do.
\<close>
theorem ReencryptDEK_done:
  assumes "gcm_laws A" "ring_wf k" "DecryptDEK A k enc = Inr dek" "length dek = dekSize"
  shows "\<exists>enc'. ReencryptDEK A rnd k enc = Inr enc' \<and> DecryptDEK A k enc' = Inr dek \<and>
    \<not> DEKNeedsReencrypt A k enc'"
proof -
  obtain enc' where enc': "EncryptDEK A rnd k dek = Inr enc'" using EncryptDEK_ok [OF assms(2,4)] by blast
  obtain key where key: "keys k (active k) = Some key"
    "enc' = (if legacy k \<and> active k = 1 then sealed A key rnd dek else active k # sealed A key rnd dek)"
    using EncryptDEK_Inr [OF assms(2) enc'] by blast
  have nz: "active k \<noteq> 0" using assms(2) by (auto simp: ring_wf_def)
  have "\<not> DEKNeedsReencrypt A k enc'"
    using key nz assms open_dek_sealed [OF assms(1,2) key(1) assms(4)]
    by (auto simp: DEKNeedsReencrypt_def versionedDEKVersionLocked_def minVersionedLen_def
        dekVersionPrefixSize_def dekSize_def length_sealed)
  moreover have "DecryptDEK A k enc' = Inr dek"
    using EncryptDEK_readable [OF assms(1,2) enc'] by simp
  ultimately show ?thesis using enc' assms(3) by (simp add: ReencryptDEK_def)
qed

theorem ReencryptDEK_done_witness:
  "\<exists>enc'. ReencryptDEK demo_aead (\<lambda>_. 8) demo_ring2 (sealed demo_aead demo_k1 (\<lambda>_. 9) (replicate 32 7)) = Inr enc' \<and>
     \<not> DEKNeedsReencrypt demo_aead demo_ring2 enc'"
proof -
  have wf: "ring_wf demo_ring2" using ring_steps_wf [OF demo_steps NewKeyRing_wf [OF demo_ring1_new]] by simp
  have "DecryptDEK demo_aead demo_ring2 (sealed demo_aead demo_k1 (\<lambda>_. 9) (replicate 32 7)) = Inr (replicate 32 7)"
    by (intro DecryptDEK_legacy demo_aead_laws wf) (simp_all add: demo_ring2_def dekSize_def)
  from ReencryptDEK_done [OF demo_aead_laws wf this] show ?thesis by (auto simp: dekSize_def)
qed

section \<open>Restart after a rotation\<close>

lemma try_versions_fails:
  "(\<And>v. v \<in> set vs \<Longrightarrow> \<not> is_ok (open_dek A k v enc)) \<Longrightarrow> \<not> is_ok (try_versions A k vs enc lastErr)"
proof (induction vs arbitrary: lastErr)
  case (Cons v vs)
  have "\<not> is_ok (open_dek A k v enc)" using Cons.prems by simp
  then obtain e where "open_dek A k v enc = Inl e" by (cases "open_dek A k v enc") auto
  with Cons show ?case by simp
qed (simp split: option.split)

lemma next_version_new: "NewKeyRing key = Inr k \<Longrightarrow> next_version k = 2"
proof -
  assume new: "NewKeyRing key = Inr k"
  then have "set (Versions k) = {1}"
    unfolding set_Versions by (auto simp: NewKeyRing_def split: if_splits)
  then have "last (Versions k) = 1" by (metis last_in_set list.set(1) insert_not_empty singletonD)
  with next_version_eq [OF NewKeyRing_wf [OF new]] show ?thesis by simp
qed

text \<open>
  C12. Version bytes are not stable across restarts. After a rotation from \<open>k1\<close> to \<open>k2\<close>, new DEKs
  carry the prefix 2; a process started with \<open>k2\<close> as its master key and \<open>k1\<close> as a previous key
  registers \<open>k2\<close> as version 1 and \<open>k1\<close> as version 2, so it cannot decrypt any DEK wrapped since
  the rotation (the old key does not open what the new key sealed).
\<close>
theorem restart_loses_rotated_DEKs:
  assumes "gcm_laws A"
    "NewKeyRing k1 = Inr r0" "RotateMasterKey k2 r0 = Inr (v, r1)" "EncryptDEK A rnd r1 dek = Inr enc"
    "NewKeyRing k2 = Inr s0" "LoadPreviousMasterKey k1 s0 = Inr s1"
    "\<And>n. gcm_Open A k1 n (gcm_Seal A k2 n dek) = None"
  shows "\<not> is_ok (DecryptDEK A s1 enc)"
proof -
  have r1: "r1 = r0\<lparr>keys := (keys r0)(2 \<mapsto> k2), active := 2, legacy := False\<rparr>"
    using assms(3) next_version_new [OF assms(2)] by (auto simp: RotateMasterKey_Inr AddKey_Inr)
  have s1: "keys s1 2 = Some k1" "length k1 = 32"
    using assms(6) next_version_new [OF assms(5)]
    by (auto simp: LoadPreviousMasterKey_Inr AddKey_Inr SetActiveVersion_Inr)
  have wf1: "ring_wf r1"
    using ring_step_wf [OF step_rotate [OF assms(3)] NewKeyRing_wf [OF assms(2)]] by simp
  have wfs: "ring_wf s1"
    using ring_step_wf [OF step_previous [OF assms(6)] NewKeyRing_wf [OF assms(5)]] by simp
  have enc: "enc = 2 # sealed A k2 rnd dek" and len: "length dek = dekSize"
    using EncryptDEK_Inr [OF wf1 assms(4)] r1 by auto
  have "\<not> is_ok (open_dek A s1 2 (sealed A k2 rnd dek))"
    using s1 wfs assms(7)
    by (simp add: open_dek_def envelope_key Decrypt_def NewCipher_def sealed_def)
  moreover have "\<not> is_ok (open_dek A s1 u enc)" for u
    using open_dek_length [OF assms(1)] length_sealed [OF assms(1), of k2 rnd dek] len enc
    by (fastforce simp: is_ok_iff dekSize_def)
  ultimately show ?thesis
    using try_versions_fails by (auto simp: DecryptDEK_def Let_def enc)
qed

theorem restart_loses_rotated_DEKs_witness:
  "\<exists>enc s0 s1. EncryptDEK demo_aead (\<lambda>_. 9) demo_ring2 (replicate 32 7) = Inr enc \<and>
     NewKeyRing demo_k2 = Inr s0 \<and> LoadPreviousMasterKey demo_k1 s0 = Inr s1 \<and>
     \<not> is_ok (DecryptDEK demo_aead s1 enc)"
proof -
  have rot: "RotateMasterKey demo_k2 demo_ring1 = Inr (2, demo_ring2)"
    using demo_add next_version_new [OF demo_ring1_new] by (simp add: RotateMasterKey_def)
  obtain enc where enc: "EncryptDEK demo_aead (\<lambda>_. 9) demo_ring2 (replicate 32 7) = Inr enc"
    using EncryptDEK_ok [of demo_ring2 "replicate 32 7"]
      ring_steps_wf [OF demo_steps NewKeyRing_wf [OF demo_ring1_new]] by (auto simp: dekSize_def)
  obtain s0 where s0: "NewKeyRing demo_k2 = Inr s0" by (simp add: NewKeyRing_def demo_k2_def)
  obtain s1 where s1: "LoadPreviousMasterKey demo_k1 s0 = Inr s1"
    using next_version_new [OF s0] s0
    by (auto simp: LoadPreviousMasterKey_def AddKey_def SetActiveVersion_def NewKeyRing_def demo_k1_def
        split: if_splits)
  have "gcm_Open demo_aead demo_k1 n (gcm_Seal demo_aead demo_k2 n (replicate 32 7)) = None" for n
    by (simp add: demo_aead_def demo_k1_def demo_k2_def numeral_eq_Suc)
  from restart_loses_rotated_DEKs [OF demo_aead_laws demo_ring1_new rot enc s0 s1 this] enc s0 s1
  show ?thesis by blast
qed

end
