(* ===== verification/Ttl.thy ===== *)
theory Ttl
  imports GoTime
begin

text \<open>
  Parsing of time-to-live strings, \<^verbatim>\<open>internal/utils/duration.go\<close>, with the functions of the
  standard library it calls: \<^verbatim>\<open>time.ParseDuration\<close> (its overflow checks included; a fraction
  is cut to whole nanoseconds exactly, where Go goes through a float64) and
  \<^verbatim>\<open>strconv.Atoi\<close>. The multiplications of the fallback path wrap at 64 bits.
\<close>

section \<open>Integers\<close>

definition Atoi :: "string \<Rightarrow> int option" where
  "Atoi s =
     (let neg = HasPrefix s ''-'';
          ds = (if neg \<or> HasPrefix s ''+'' then tl s else s)
      in if ds = [] \<or> \<not> list_all is_digit ds then None
         else (let n = (if neg then - digits_val ds else digits_val ds)
               in if n < - (2 ^ 63) \<or> n \<ge> 2 ^ 63 then None else Some n))"

section \<open>Durations\<close>

definition unitMap :: "string \<Rightarrow> int option" where
  "unitMap u = map_of
     [(''ns'', 1), (''us'', 1000), ([CHR 0xC2, CHR 0xB5, CHR ''s''], 1000),
      ([CHR 0xCE, CHR 0xBC, CHR ''s''], 1000), (''ms'', 1000000), (''s'', Second),
      (''m'', Minute), (''h'', Hour)] u"

fun leadingInt :: "string \<Rightarrow> int \<Rightarrow> (int \<times> string) option" where
  "leadingInt [] x = Some (x, [])"
| "leadingInt (c # s) x =
     (if \<not> is_digit c then Some (x, c # s)
      else if x > 2 ^ 63 div 10 then None
      else if x * 10 + digit_val c > 2 ^ 63 then None
      else leadingInt s (x * 10 + digit_val c))"

text \<open>The fraction: its digits as a number, the scale, the rest; digits past an overflow are dropped.\<close>

fun leadingFraction :: "string \<Rightarrow> int \<Rightarrow> int \<Rightarrow> bool \<Rightarrow> int \<times> int \<times> string" where
  "leadingFraction [] x scale over = (x, scale, [])"
| "leadingFraction (c # s) x scale over =
     (if \<not> is_digit c then (x, scale, c # s)
      else if over then leadingFraction s x scale over
      else if x > (2 ^ 63 - 1) div 10 then leadingFraction s x scale True
      else (let y = x * 10 + digit_val c
            in if y > 2 ^ 63 then leadingFraction s x scale True
               else leadingFraction s y (scale * 10) over))"

definition is_unit_char :: "char \<Rightarrow> bool" where
  "is_unit_char c \<longleftrightarrow> c \<noteq> CHR ''.'' \<and> \<not> is_digit c"

text \<open>One number with its unit: the nanoseconds and the rest.\<close>

definition duration_term :: "string \<Rightarrow> (int \<times> string) option" where
  "duration_term s =
     (if s = [] \<or> is_unit_char (hd s) then None
      else (case leadingInt s 0 of
              None \<Rightarrow> None
            | Some (v, s1) \<Rightarrow>
                (let pre = (length s1 \<noteq> length s);
                     (f, scale, s2) =
                       (if HasPrefix s1 ''.'' then leadingFraction (tl s1) 0 1 False else (0, 1, s1));
                     post = (HasPrefix s1 ''.'' \<and> length s2 \<noteq> length (tl s1));
                     u = takeWhile is_unit_char s2;
                     s3 = drop (length u) s2
                 in if \<not> pre \<and> \<not> post then None
                    else if u = [] then None
                    else (case unitMap u of
                            None \<Rightarrow> None
                          | Some unit \<Rightarrow>
                              if v > 2 ^ 63 div unit then None
                              else (let v' = v * unit + f * unit div scale
                                    in if f > 0 \<and> v' > 2 ^ 63 then None else Some (v', s3))))))"

lemma leadingInt_length: "leadingInt s x = Some (v, r) \<Longrightarrow> length r \<le> length s"
  by (induction s x rule: leadingInt.induct) (auto split: if_splits)

lemma leadingFraction_length: "leadingFraction s x sc ov = (f, sc', r) \<Longrightarrow> length r \<le> length s"
  by (induction s x sc ov rule: leadingFraction.induct) (auto split: if_splits simp: Let_def)

lemma duration_term_length: "duration_term s = Some (v, r) \<Longrightarrow> length r < length s"
  by (auto simp: duration_term_def Let_def is_unit_char_def
      split: if_splits option.splits prod.splits
      dest!: leadingInt_length leadingFraction_length)

function duration_loop :: "string \<Rightarrow> int \<Rightarrow> int option" where
  "duration_loop s d =
     (if s = [] then Some d
      else (case duration_term s of
              None \<Rightarrow> None
            | Some (v, s') \<Rightarrow>
                (let d' = (d + v) mod 2 ^ 64
                 in if d' > 2 ^ 63 then None else duration_loop s' d')))"
  by pat_completeness auto
termination
  by (relation "measure (length \<circ> fst)") (auto dest: duration_term_length)

declare duration_loop.simps [simp del]

definition ParseDuration :: "string \<Rightarrow> duration option" where
  "ParseDuration s0 =
     (let neg = HasPrefix s0 ''-'';
          s = (if neg \<or> HasPrefix s0 ''+'' then tl s0 else s0)
      in if s = ''0'' then Some 0
         else if s = [] then None
         else (case duration_loop s 0 of
                 None \<Rightarrow> None
               | Some d \<Rightarrow>
                   if neg then Some (wrap64 (- d))
                   else if d > 2 ^ 63 - 1 then None else Some d))"

section \<open>ParseTTL\<close>

definition MaxParseTTL :: duration where
  "MaxParseTTL = 10 * 365 * 24 * Hour"

definition check_ttl :: "duration \<Rightarrow> duration res" where
  "check_ttl d =
     (if d \<le> 0 then Inl (Plain ''ttl must be positive'')
      else if d > MaxParseTTL then Inl (Plain ''ttl exceeds maximum of %s'')
      else Inr d)"

definition ParseTTL :: "string \<Rightarrow> duration res" where
  "ParseTTL raw0 =
     (let raw = TrimSpace raw0
      in if raw = [] then Inl (Plain ''ttl is required'')
         else (case ParseDuration raw of
                 Some d \<Rightarrow> check_ttl d
               | None \<Rightarrow>
                   if length raw < 2 then Inl (Plain ''invalid ttl %q'')
                   else (case Atoi (butlast raw) of
                           None \<Rightarrow> Inl (Plain ''invalid ttl %q'')
                         | Some value \<Rightarrow>
                             if value \<le> 0 then Inl (Plain ''ttl must be positive'')
                             else if last raw = CHR ''d''
                             then check_ttl (wrap64 (wrap64 (value * 24) * Hour))
                             else if last raw = CHR ''h'' then check_ttl (wrap64 (value * Hour))
                             else if last raw = CHR ''m'' then check_ttl (wrap64 (value * Minute))
                             else if last raw = CHR ''s'' then check_ttl (wrap64 (value * Second))
                             else Inl (Plain ''unsupported ttl unit in %q''))))"

lemma check_ttl_Inr: "check_ttl d = Inr d' \<longleftrightarrow> d' = d \<and> 0 < d \<and> d \<le> MaxParseTTL"
  by (auto simp: check_ttl_def)

text \<open>A parsed time-to-live is positive and at most ten years.\<close>
theorem ParseTTL_bounds: "ParseTTL raw = Inr d \<Longrightarrow> 0 < d \<and> d \<le> MaxParseTTL"
  by (auto simp: ParseTTL_def Let_def check_ttl_Inr split: if_splits option.splits)

theorem ParseTTL_bounds_witness:
  "ParseTTL '' 365d '' = Inr (365 * 24 * Hour) \<and> 0 < 365 * 24 * Hour \<and> 365 * 24 * Hour \<le> MaxParseTTL"
proof -
  have "ParseTTL '' 365d '' = Inr (365 * 24 * Hour)" by code_simp
  with ParseTTL_bounds show ?thesis by blast
qed


end
