(* ===== verification/SecretRepo.thy ===== *)
theory SecretRepo
  imports Bytes GoTime "HOL-Library.AList" "HOL-Library.Char_ord" "HOL-Library.List_Lexorder"
    "HOL-Library.Product_Lexorder"
begin

text \<open>
  Versioned secrets and their store: the record of \<^verbatim>\<open>internal/domain/secrets/version.go\<close>, the
  interface \<^verbatim>\<open>SecretRepository\<close> of \<^verbatim>\<open>internal/repository\<close> as a record of operations on an
  abstract state, and the in-memory store of
  \<^verbatim>\<open>internal/repository/memory/secret_repository.go\<close>, an association list from path and
  version to the stored version. The locale \<open>secret_repository\<close> states what the engines rely
  on; the in-memory store is proved to provide it.
\<close>

section \<open>Secret versions\<close>

record SecretVersion =
  sv_ID :: uuid
  sv_Path :: string
  sv_Version :: int
  sv_DataEnc :: bytes
  sv_DEKEnc :: bytes
  sv_LeaseID :: "string option"
  sv_TTLSeconds :: "int option"
  sv_CreatedAt :: go_time
  sv_ExpiresAt :: "go_time option"
  sv_Destroyed :: bool
  sv_Labels :: "string \<rightharpoonup> string"

definition SecretVersion_Validate :: "SecretVersion \<Rightarrow> unit res" where
  "SecretVersion_Validate s =
     (if sv_ID s = uuid_Nil then Inl (Plain ''secret id is required'')
      else if sv_Path s = [] then Inl (Plain ''secret path is required'')
      else if sv_Version s < 1 then Inl (Plain ''secret version must be >= 1'')
      else if sv_DataEnc s = [] \<or> sv_DEKEnc s = []
      then Inl (Plain ''encrypted payload and dek are required'')
      else Inr ())"

section \<open>The interface\<close>

record 's SecretRepository =
  repo_SaveVersion :: "SecretVersion \<Rightarrow> 's \<Rightarrow> 's res"
  repo_PutAtomic :: "SecretVersion \<Rightarrow> int option \<Rightarrow> int \<Rightarrow> 's \<Rightarrow> (int \<times> 's) res"
  repo_GetLatest :: "string \<Rightarrow> 's \<Rightarrow> SecretVersion res"
  repo_GetVersion :: "string \<Rightarrow> int \<Rightarrow> 's \<Rightarrow> SecretVersion res"
  repo_ListByPath :: "string \<Rightarrow> 's \<Rightarrow> SecretVersion list res"
  repo_NextVersion :: "string \<Rightarrow> 's \<Rightarrow> int res"
  repo_DestroyVersion :: "string \<Rightarrow> int \<Rightarrow> 's \<Rightarrow> 's res"
  repo_UpdateDEKEnc :: "string \<Rightarrow> int \<Rightarrow> bytes \<Rightarrow> 's \<Rightarrow> 's res"

section \<open>The in-memory store\<close>

type_synonym secret_store = "((string \<times> int) \<times> SecretVersion) list"

definition NewSecretRepository :: secret_store where
  "NewSecretRepository = []"

definition SaveVersion :: "SecretVersion \<Rightarrow> secret_store \<Rightarrow> secret_store res" where
  "SaveVersion sv r =
     (case SecretVersion_Validate sv of
        Inl err \<Rightarrow> Inl (Wrap ErrCodeValidation ''invalid secret version'' err)
      | Inr _ \<Rightarrow>
          (let key = (sv_Path sv, sv_Version sv)
           in if map_of r key \<noteq> None
              then Inl (New ErrCodeValidation ''secret version already exists'')
              else Inr (AList.update key sv r)))"

text \<open>The scan for the newest version that is not destroyed.\<close>

definition newer :: "string \<Rightarrow> (string \<times> int) \<times> SecretVersion \<Rightarrow> SecretVersion option
    \<Rightarrow> SecretVersion option" where
  "newer path = (\<lambda>((p, _), sv) latest.
     if p \<noteq> path \<or> sv_Destroyed sv then latest
     else (case latest of
             None \<Rightarrow> Some sv
           | Some l \<Rightarrow> if sv_Version sv > sv_Version l then Some sv else latest))"

definition latestNonDestroyedLocked :: "string \<Rightarrow> secret_store \<Rightarrow> SecretVersion option" where
  "latestNonDestroyedLocked path r = fold (newer path) r None"

definition GetLatest :: "string \<Rightarrow> secret_store \<Rightarrow> SecretVersion res" where
  "GetLatest path r =
     (case latestNonDestroyedLocked path r of
        None \<Rightarrow> Inl (New ErrCodeNotFound ''secret version not found'')
      | Some sv \<Rightarrow> Inr sv)"

definition GetVersion :: "string \<Rightarrow> int \<Rightarrow> secret_store \<Rightarrow> SecretVersion res" where
  "GetVersion path version r =
     (case map_of r (path, version) of
        None \<Rightarrow> Inl (New ErrCodeNotFound ''secret version not found'')
      | Some sv \<Rightarrow> Inr sv)"

definition ListByPath :: "string \<Rightarrow> secret_store \<Rightarrow> SecretVersion list res" where
  "ListByPath pathPrefix r =
     Inr (sort_key (\<lambda>sv. (sv_Path sv, sv_Version sv))
            (filter (\<lambda>sv. HasPrefix (sv_Path sv) pathPrefix) (map snd r)))"

definition nextVersionLocked :: "string \<Rightarrow> secret_store \<Rightarrow> int" where
  "nextVersionLocked path r =
     fold (\<lambda>((p, v), _) m. if p = path \<and> v > m then v else m) r 0 + 1"

definition NextVersion :: "string \<Rightarrow> secret_store \<Rightarrow> int res" where
  "NextVersion path r = Inr (nextVersionLocked path r)"

definition live_versions :: "string \<Rightarrow> secret_store \<Rightarrow> int list" where
  "live_versions path r =
     map (\<lambda>e. snd (fst e)) (filter (\<lambda>((p, _), sv). p = path \<and> \<not> sv_Destroyed sv) r)"

definition trimVersionsLocked :: "string \<Rightarrow> int \<Rightarrow> secret_store \<Rightarrow> secret_store" where
  "trimVersionsLocked path maxVersions r =
     (let versions = live_versions path r
      in if int (length versions) \<le> maxVersions then r
         else (let toRemove = nat (int (length versions) - maxVersions)
               in fold (\<lambda>v. AList.delete (path, v)) (take toRemove (sort versions)) r))"

definition PutAtomic :: "SecretVersion \<Rightarrow> int option \<Rightarrow> int \<Rightarrow> secret_store \<Rightarrow> (int \<times> secret_store) res" where
  "PutAtomic sv0 casVersion maxVersions r =
     (if (case casVersion of
            None \<Rightarrow> False
          | Some cas \<Rightarrow>
              (case latestNonDestroyedLocked (sv_Path sv0) r of
                 None \<Rightarrow> True
               | Some latest \<Rightarrow> sv_Version latest \<noteq> cas))
      then Inl (New ErrCodeValidation ''cas version mismatch'')
      else (let version = nextVersionLocked (sv_Path sv0) r;
                sv = sv0\<lparr>sv_Version := version\<rparr>;
                key = (sv_Path sv, version)
            in case SecretVersion_Validate sv of
                 Inl err \<Rightarrow> Inl (Wrap ErrCodeValidation ''invalid secret version'' err)
               | Inr _ \<Rightarrow>
                   if map_of r key \<noteq> None
                   then Inl (New ErrCodeValidation ''secret version already exists'')
                   else (let r' = AList.update key sv r
                         in Inr (version,
                              if maxVersions > 0 then trimVersionsLocked (sv_Path sv) maxVersions r' else r'))))"

definition UpdateDEKEnc :: "string \<Rightarrow> int \<Rightarrow> bytes \<Rightarrow> secret_store \<Rightarrow> secret_store res" where
  "UpdateDEKEnc path version dekEnc r =
     (if path = [] \<or> version < 1 \<or> dekEnc = []
      then Inl (New ErrCodeValidation ''invalid dek update request'')
      else (case map_of r (path, version) of
              None \<Rightarrow> Inl (New ErrCodeNotFound ''secret version not found'')
            | Some sv \<Rightarrow> Inr (AList.update (path, version) (sv\<lparr>sv_DEKEnc := dekEnc\<rparr>) r)))"

definition DestroyVersion :: "string \<Rightarrow> int \<Rightarrow> secret_store \<Rightarrow> secret_store res" where
  "DestroyVersion path version r =
     (case map_of r (path, version) of
        None \<Rightarrow> Inl (New ErrCodeNotFound ''secret version not found'')
      | Some sv \<Rightarrow>
          if sv_Destroyed sv then Inl (New ErrCodeValidation ''secret version already destroyed'')
          else Inr (AList.update (path, version) (sv\<lparr>sv_Destroyed := True\<rparr>) r))"

definition memory_secrets :: "secret_store SecretRepository" where
  "memory_secrets = \<lparr>
     repo_SaveVersion = SaveVersion, repo_PutAtomic = PutAtomic, repo_GetLatest = GetLatest,
     repo_GetVersion = GetVersion, repo_ListByPath = ListByPath, repo_NextVersion = NextVersion,
     repo_DestroyVersion = DestroyVersion, repo_UpdateDEKEnc = UpdateDEKEnc\<rparr>"

section \<open>Well-formed stores\<close>

definition store_wf :: "secret_store \<Rightarrow> bool" where
  "store_wf r \<longleftrightarrow> distinct (map fst r) \<and>
     (\<forall>((p, v), sv) \<in> set r. sv_Path sv = p \<and> sv_Version sv = v \<and> 1 \<le> v)"

definition contents :: "secret_store \<Rightarrow> string \<Rightarrow> int \<Rightarrow> SecretVersion option" where
  "contents r p v = map_of r (p, v)"

definition live :: "secret_store \<Rightarrow> string \<Rightarrow> int \<Rightarrow> SecretVersion \<Rightarrow> bool" where
  "live r p v sv \<longleftrightarrow> contents r p v = Some sv \<and> \<not> sv_Destroyed sv"

lemma store_wf_entry:
  "store_wf r \<Longrightarrow> contents r p v = Some sv \<Longrightarrow> sv_Path sv = p \<and> sv_Version sv = v \<and> 1 \<le> v"
  by (auto simp: store_wf_def contents_def dest!: map_of_SomeD)

lemma contents_iff: "store_wf r \<Longrightarrow> ((p, v), sv) \<in> set r \<longleftrightarrow> contents r p v = Some sv"
  by (simp add: store_wf_def contents_def)

lemma store_wf_update:
  "store_wf r \<Longrightarrow> sv_Path sv = p \<Longrightarrow> sv_Version sv = v \<Longrightarrow> 1 \<le> v \<Longrightarrow>
   store_wf (AList.update (p, v) sv r)"
proof -
  assume a: "store_wf r" "sv_Path sv = p" "sv_Version sv = v" "1 \<le> v"
  have "set (AList.update (p, v) sv r) \<subseteq> set r \<union> {((p, v), sv)}"
    by (induction r) auto
  with a show ?thesis by (fastforce simp: store_wf_def distinct_update)
qed

lemma store_wf_delete: "store_wf r \<Longrightarrow> store_wf (AList.delete k r)"
  unfolding store_wf_def
  by (intro conjI distinct_delete) (auto simp: AList.delete_eq)

lemma contents_update [simp]:
  "contents (AList.update (p, v) sv r) q u = (if (q, u) = (p, v) then Some sv else contents r q u)"
  by (simp add: contents_def update_conv)

lemma contents_delete [simp]:
  "contents (AList.delete (p, v) r) q u = (if (q, u) = (p, v) then None else contents r q u)"
  by (simp add: contents_def delete_conv)

section \<open>Latest and next version\<close>

lemma newer_cases:
  "newer path ((p, v), sv) acc =
     (if p = path \<and> \<not> sv_Destroyed sv \<and> (\<forall>a. acc = Some a \<longrightarrow> sv_Version a < sv_Version sv)
      then Some sv else acc)"
  by (auto simp: newer_def split: option.splits)

lemma newer_fold:
  "fold (newer path) r acc = Some sv \<Longrightarrow>
     (acc = Some sv \<or> (\<exists>v. ((path, v), sv) \<in> set r \<and> \<not> sv_Destroyed sv)) \<and>
     (\<forall>a. acc = Some a \<longrightarrow> sv_Version a \<le> sv_Version sv) \<and>
     (\<forall>v sv'. ((path, v), sv') \<in> set r \<longrightarrow> \<not> sv_Destroyed sv' \<longrightarrow> sv_Version sv' \<le> sv_Version sv)"
proof (induction r arbitrary: acc)
  case (Cons e r)
  obtain p v sv0 where e: "e = ((p, v), sv0)" by (metis surj_pair)
  from Cons.prems have "fold (newer path) r (newer path e acc) = Some sv" by simp
  note IH = Cons.IH [OF this]
  show ?case
  proof (cases "p = path \<and> \<not> sv_Destroyed sv0 \<and> (\<forall>a. acc = Some a \<longrightarrow> sv_Version a < sv_Version sv0)")
    case True
    then have "newer path e acc = Some sv0" by (simp add: e newer_cases)
    with IH True e show ?thesis by fastforce
  next
    case False
    then have "newer path e acc = acc" by (simp only: e newer_cases if_False)
    with IH False e show ?thesis by fastforce
  qed
qed simp

lemma newer_fold_None:
  "fold (newer path) r acc = None \<longleftrightarrow>
     acc = None \<and> (\<forall>v sv. ((path, v), sv) \<in> set r \<longrightarrow> sv_Destroyed sv)"
proof (induction r arbitrary: acc)
  case (Cons e r)
  obtain p v sv0 where "e = ((p, v), sv0)" by (metis surj_pair)
  then show ?case by (auto simp: Cons.IH newer_cases split: if_splits)
qed simp

lemma latest_Some:
  assumes "store_wf r"
  shows "latestNonDestroyedLocked path r = Some sv \<longleftrightarrow>
    live r path (sv_Version sv) sv \<and> (\<forall>v sv'. live r path v sv' \<longrightarrow> v \<le> sv_Version sv)"
    (is "?lhs = Some sv \<longleftrightarrow> ?P sv")
proof
  have P: "?P sv" if "?lhs = Some sv" for sv
    using newer_fold [OF that [unfolded latestNonDestroyedLocked_def]] assms
      store_wf_entry [OF assms] by (auto simp: live_def contents_iff [OF assms]) 
  then show "?lhs = Some sv \<Longrightarrow> ?P sv" .
  assume p: "?P sv"
  then have "?lhs \<noteq> None"
    by (auto simp: latestNonDestroyedLocked_def newer_fold_None live_def contents_iff [OF assms])
  then obtain sv' where sv': "?lhs = Some sv'" by blast
  with P [OF sv'] p have "sv_Version sv' = sv_Version sv" by (meson order_antisym)
  with P [OF sv'] p show "?lhs = Some sv" using sv' by (auto simp: live_def)
qed

lemma latest_None:
  "store_wf r \<Longrightarrow> latestNonDestroyedLocked path r = None \<longleftrightarrow> (\<forall>v sv. \<not> live r path v sv)"
  by (auto simp: latestNonDestroyedLocked_def newer_fold_None live_def contents_iff)

lemma max_fold:
  fixes r :: secret_store
  shows "let m' = fold (\<lambda>((p, v), _) m. if p = path \<and> v > m then v else m) r m
   in m \<le> m' \<and> (\<forall>v sv. ((path, v), sv) \<in> set r \<longrightarrow> v \<le> m')"
proof (induction r arbitrary: m)
  case (Cons e r)
  obtain p v sv where e: "e = ((p, v), sv)" by (metis surj_pair)
  have "m \<le> (if p = path \<and> v > m then v else m)" by simp
  with Cons.IH [of "if p = path \<and> v > m then v else m"] show ?case
    by (fastforce simp: e Let_def)
qed simp

lemma nextVersion_greater:
  "store_wf r \<Longrightarrow> contents r path v = Some sv \<Longrightarrow> v < nextVersionLocked path r"
  using max_fold [of path r 0] by (auto simp: nextVersionLocked_def Let_def contents_iff [symmetric])

lemma nextVersion_pos: "1 \<le> nextVersionLocked path r"
  using max_fold [of path r 0] by (auto simp: nextVersionLocked_def Let_def)

lemma nextVersion_fresh: "store_wf r \<Longrightarrow> contents r path (nextVersionLocked path r) = None"
  using nextVersion_greater by fastforce

section \<open>Retention\<close>

lemma fold_delete_contents:
  "contents (fold (\<lambda>v. AList.delete (p, v)) vs r) q u =
     (if q = p \<and> u \<in> set vs then None else contents r q u)"
  by (induction vs arbitrary: r) auto

lemma fold_delete_wf: "store_wf r \<Longrightarrow> store_wf (fold (\<lambda>v. AList.delete (p, v)) vs r)"
  by (induction vs arbitrary: r) (auto intro: store_wf_delete)

lemma set_live_versions:
  "store_wf r \<Longrightarrow> set (live_versions path r) = {v. \<exists>sv. live r path v sv}"
  by (force simp: live_versions_def live_def contents_iff [symmetric])

lemma distinct_live_versions: "store_wf r \<Longrightarrow> distinct (live_versions path r)"
proof -
  assume "store_wf r"
  then have "distinct (map fst (filter (\<lambda>((p, _), sv). p = path \<and> \<not> sv_Destroyed sv) r))"
    by (simp add: store_wf_def distinct_map_filter)
  moreover have "inj_on snd (set (map fst (filter (\<lambda>((p, _), sv). p = path \<and> \<not> sv_Destroyed sv) r)))"
    by (auto intro!: inj_onI)
  ultimately have "distinct (map snd (map fst (filter (\<lambda>((p, _), sv). p = path \<and> \<not> sv_Destroyed sv) r)))"
    using distinct_map by blast
  then show ?thesis by (simp add: live_versions_def comp_def)
qed

lemma top_not_taken:
  assumes "distinct vs" "v \<in> set vs" "\<forall>u \<in> set vs. u \<le> v" "n < length vs"
  shows "(v :: int) \<notin> set (take n (sort vs))"
proof
  assume "v \<in> set (take n (sort vs))"
  then obtain i where i: "i < n" "sort vs ! i = v"
    using assms(4) by (auto simp: in_set_conv_nth)
  let ?l = "length vs - 1"
  have "sort vs ! i \<le> sort vs ! ?l" using i(1) assms(4) by (intro sorted_nth_mono) auto
  moreover have "sort vs ! ?l \<le> v"
  proof -
    have "sort vs ! ?l \<in> set (sort vs)" using assms(4) by (intro nth_mem) auto
    with assms(3) show ?thesis by simp
  qed
  ultimately have "sort vs ! ?l = sort vs ! i" using i(2) by simp
  moreover have "distinct (sort vs)" using assms(1) by simp
  ultimately show False using i(1) assms(4) by (subst (asm) nth_eq_iff_index_eq) auto
qed

lemma trim_keeps_top:
  assumes "store_wf r" "live r path v sv" "\<forall>u sv'. live r path u sv' \<longrightarrow> u \<le> v" "0 < m"
  shows "contents (trimVersionsLocked path m r) path v = Some sv"
proof -
  let ?vs = "live_versions path r"
  have "v \<notin> set (take (nat (int (length ?vs) - m)) (sort ?vs))" if "m < int (length ?vs)"
    using assms that by (intro top_not_taken distinct_live_versions) (auto simp: set_live_versions)
  with assms(2) show ?thesis
    by (auto simp: trimVersionsLocked_def Let_def fold_delete_contents live_def not_le)
qed

lemma trim_contents:
  "contents (trimVersionsLocked path m r) q u = contents r q u \<or>
   q = path \<and> contents (trimVersionsLocked path m r) q u = None"
  by (auto simp: trimVersionsLocked_def Let_def fold_delete_contents)

lemma trim_wf: "store_wf r \<Longrightarrow> store_wf (trimVersionsLocked path m r)"
  by (simp add: trimVersionsLocked_def Let_def fold_delete_wf)

text \<open>Only live versions are dropped, and no dropped one is newer than a kept one.\<close>

lemma trim_dropped:
  assumes "store_wf r" "contents (trimVersionsLocked path m r) path u = None" "contents r path u = Some sv"
  shows "live r path u sv"
    and "live (trimVersionsLocked path m r) path v sv' \<Longrightarrow> u < v"
proof -
  let ?vs = "live_versions path r" and ?n = "nat (int (length (live_versions path r)) - m)"
  from assms(2,3) have trim: "trimVersionsLocked path m r =
      fold (\<lambda>v. AList.delete (path, v)) (take ?n (sort ?vs)) r" and u: "u \<in> set (take ?n (sort ?vs))"
    by (auto simp: trimVersionsLocked_def Let_def fold_delete_contents split: if_splits)
  have "u \<in> set ?vs" using u by (metis in_set_takeD set_sort)
  with assms(1,3) show "live r path u sv" by (auto simp: set_live_versions live_def)
  assume "live (trimVersionsLocked path m r) path v sv'"
  then have v: "v \<notin> set (take ?n (sort ?vs))" "live r path v sv'"
    by (auto simp: trim live_def fold_delete_contents split: if_splits)
  then have "v \<in> set (drop ?n (sort ?vs))"
    using assms(1) by (metis (mono_tags, lifting) Un_iff append_take_drop_id mem_Collect_eq
        set_append set_live_versions set_sort)
  moreover have "sorted (take ?n (sort ?vs) @ drop ?n (sort ?vs))" by simp
  ultimately have "u \<le> v" using u unfolding sorted_append by blast
  with u v show "u < v" by (metis order_le_imp_less_or_eq)
qed

lemma length_live_trim:
  assumes "store_wf r" "0 \<le> m"
  shows "int (length (live_versions path (trimVersionsLocked path m r))) \<le> m"
proof (cases "int (length (live_versions path r)) \<le> m")
  case False
  let ?vs = "live_versions path r" and ?n = "nat (int (length (live_versions path r)) - m)"
  let ?r' = "trimVersionsLocked path m r"
  have trim: "?r' = fold (\<lambda>v. AList.delete (path, v)) (take ?n (sort ?vs)) r"
    using False by (simp add: trimVersionsLocked_def Let_def)
  have "set (live_versions path ?r') = set ?vs - set (take ?n (sort ?vs))"
    unfolding set_live_versions [OF trim_wf [OF assms(1)]] set_live_versions [OF assms(1)]
    by (auto simp: trim live_def fold_delete_contents split: if_splits)
  then have "length (live_versions path ?r') = card (set ?vs - set (take ?n (sort ?vs)))"
    using distinct_card [OF distinct_live_versions [OF trim_wf [OF assms(1)]]] by metis
  also have "\<dots> = length ?vs - ?n"
    using distinct_live_versions [OF assms(1), of path] set_take_subset [of ?n "sort ?vs"] False
    by (subst card_Diff_subset) (auto simp: distinct_card min_def)
  finally show ?thesis using False assms(2) by simp
qed (simp add: trimVersionsLocked_def Let_def)

section \<open>Operations\<close>

lemma Validate_Inr:
  "SecretVersion_Validate sv = Inr u \<longleftrightarrow>
     sv_ID sv \<noteq> uuid_Nil \<and> sv_Path sv \<noteq> [] \<and> 1 \<le> sv_Version sv \<and> sv_DataEnc sv \<noteq> [] \<and> sv_DEKEnc sv \<noteq> []"
  by (auto simp: SecretVersion_Validate_def)

definition cas_ok :: "SecretVersion option \<Rightarrow> int option \<Rightarrow> bool" where
  "cas_ok latest cas \<longleftrightarrow> (\<forall>c. cas = Some c \<longrightarrow> (\<exists>l. latest = Some l \<and> sv_Version l = c))"

lemma PutAtomic_Inr:
  assumes "store_wf r"
  shows "PutAtomic sv cas m r = Inr (v, r') \<longleftrightarrow>
    cas_ok (latestNonDestroyedLocked (sv_Path sv) r) cas \<and>
    v = nextVersionLocked (sv_Path sv) r \<and> sv_ID sv \<noteq> uuid_Nil \<and> sv_Path sv \<noteq> [] \<and>
    sv_DataEnc sv \<noteq> [] \<and> sv_DEKEnc sv \<noteq> [] \<and>
    r' = (let r1 = AList.update (sv_Path sv, v) (sv\<lparr>sv_Version := v\<rparr>) r
          in if m > 0 then trimVersionsLocked (sv_Path sv) m r1 else r1)"
  using nextVersion_pos [of "sv_Path sv" r] nextVersion_fresh [OF assms, of "sv_Path sv"]
  by (auto simp: PutAtomic_def Let_def Validate_Inr cas_ok_def contents_def
      split: option.splits sum.splits if_splits)
     (simp_all add: SecretVersion_Validate_def)

lemma put_inserted:
  assumes "store_wf r" "v = nextVersionLocked (sv_Path sv) r"
  defines "r1 \<equiv> AList.update (sv_Path sv, v) (sv\<lparr>sv_Version := v\<rparr>) r"
  shows "store_wf r1" and "live r1 (sv_Path sv) u sv' \<Longrightarrow> u \<le> v"
proof -
  show "store_wf r1"
    unfolding r1_def assms(2) using assms(1) nextVersion_pos by (intro store_wf_update) auto
  assume "live r1 (sv_Path sv) u sv'"
  then show "u \<le> v"
    using nextVersion_greater [OF assms(1), of "sv_Path sv" u] assms(2)
    by (auto simp: r1_def live_def split: if_splits)
qed

lemma PutAtomic_spec:
  assumes "store_wf r" "PutAtomic sv cas m r = Inr (v, r')" "0 < m" "\<not> sv_Destroyed sv"
  shows "store_wf r'" "contents r' (sv_Path sv) v = Some (sv\<lparr>sv_Version := v\<rparr>)"
    "contents r (sv_Path sv) u = Some sv' \<Longrightarrow> u < v"
    "(p, u) \<noteq> (sv_Path sv, v) \<Longrightarrow>
       contents r' p u = contents r p u \<or> p = sv_Path sv \<and> contents r' p u = None"
    "cas_ok (latestNonDestroyedLocked (sv_Path sv) r) cas"
    "int (length (live_versions (sv_Path sv) r')) \<le> m"
proof -
  let ?p = "sv_Path sv"
  let ?r1 = "AList.update (?p, v) (sv\<lparr>sv_Version := v\<rparr>) r"
  from assms have v: "v = nextVersionLocked ?p r" and r': "r' = trimVersionsLocked ?p m ?r1"
    and cas: "cas_ok (latestNonDestroyedLocked ?p r) cas"
    by (auto simp: PutAtomic_Inr Let_def)
  note ins = put_inserted [OF assms(1) v]
  show "store_wf r'" unfolding r' by (rule trim_wf [OF ins(1)])
  show "contents r' ?p v = Some (sv\<lparr>sv_Version := v\<rparr>)"
    unfolding r' using assms(3,4) ins by (intro trim_keeps_top) (auto simp: live_def)
  show "contents r ?p u = Some sv' \<Longrightarrow> u < v" using nextVersion_greater [OF assms(1)] v by blast
  show "(p, u) \<noteq> (?p, v) \<Longrightarrow> contents r' p u = contents r p u \<or> p = ?p \<and> contents r' p u = None"
    using trim_contents [of ?p m ?r1 p u] by (auto simp: r')
  show "cas_ok (latestNonDestroyedLocked ?p r) cas" by (rule cas)
  show "int (length (live_versions ?p r')) \<le> m"
    unfolding r' using length_live_trim [OF ins(1)] assms(3) by simp
qed

lemma DestroyVersion_Inr:
  "DestroyVersion p v r = Inr r' \<longleftrightarrow>
     (\<exists>sv. live r p v sv \<and> r' = AList.update (p, v) (sv\<lparr>sv_Destroyed := True\<rparr>) r)"
  by (auto simp: DestroyVersion_def live_def contents_def split: option.splits)

lemma UpdateDEKEnc_Inr:
  "UpdateDEKEnc p v d r = Inr r' \<longleftrightarrow> p \<noteq> [] \<and> 1 \<le> v \<and> d \<noteq> [] \<and>
     (\<exists>sv. contents r p v = Some sv \<and> r' = AList.update (p, v) (sv\<lparr>sv_DEKEnc := d\<rparr>) r)"
  by (auto simp: UpdateDEKEnc_def contents_def split: option.splits)

lemma GetLatest_Inr:
  "store_wf r \<Longrightarrow> GetLatest p r = Inr sv \<longleftrightarrow>
     live r p (sv_Version sv) sv \<and> (\<forall>v sv'. live r p v sv' \<longrightarrow> v \<le> sv_Version sv)"
  unfolding latest_Some [symmetric] by (auto simp: GetLatest_def split: option.splits)

lemma GetLatest_Inl:
  "store_wf r \<Longrightarrow> GetLatest p r = Inl e \<longleftrightarrow>
     e = New ErrCodeNotFound ''secret version not found'' \<and> (\<forall>v sv. \<not> live r p v sv)"
  by (auto simp: GetLatest_def latest_None [symmetric] split: option.splits)

lemma ListByPath_sets:
  assumes "store_wf r" "ListByPath p r = Inr svs"
  shows "set svs = {sv. \<exists>q v. contents r q v = Some sv \<and> HasPrefix q p}"
    "sorted (map (\<lambda>sv. (sv_Path sv, sv_Version sv)) svs)"
proof -
  from assms(2) have svs: "svs = sort_key (\<lambda>sv. (sv_Path sv, sv_Version sv))
      (filter (\<lambda>sv. HasPrefix (sv_Path sv) p) (map snd r))" by (simp add: ListByPath_def)
  then show "sorted (map (\<lambda>sv. (sv_Path sv, sv_Version sv)) svs)" by simp
  show "set svs = {sv. \<exists>q v. contents r q v = Some sv \<and> HasPrefix q p}"
    using store_wf_entry [OF assms(1)] unfolding svs
    by (force simp: contents_iff [OF assms(1), symmetric])
qed

section \<open>The contract\<close>

text \<open>A version stored in \<open>c\<close> that is not destroyed.\<close>

definition live_in :: "(string \<Rightarrow> int \<Rightarrow> SecretVersion option) \<Rightarrow> string \<Rightarrow> int \<Rightarrow> SecretVersion \<Rightarrow> bool" where
  "live_in c p v sv \<longleftrightarrow> c p v = Some sv \<and> \<not> sv_Destroyed sv"

lemma live_in_contents: "live_in (contents r) = live r"
  by (auto simp: fun_eq_iff live_in_def live_def)

text \<open>What the engines rely on: \<open>stored\<close> is the abstract content of a state.\<close>

locale secret_repository =
  fixes repo :: "'s SecretRepository"
    and inv :: "'s \<Rightarrow> bool"
    and stored :: "'s \<Rightarrow> string \<Rightarrow> int \<Rightarrow> SecretVersion option"
  assumes stored_wf: "inv s \<Longrightarrow> stored s p v = Some sv \<Longrightarrow> sv_Path sv = p \<and> sv_Version sv = v \<and> 1 \<le> v"
    and get_version: "inv s \<Longrightarrow> repo_GetVersion repo p v s =
      (case stored s p v of
         None \<Rightarrow> Inl (New ErrCodeNotFound ''secret version not found'') | Some sv \<Rightarrow> Inr sv)"
    and get_latest: "inv s \<Longrightarrow> repo_GetLatest repo p s = Inr sv \<longleftrightarrow>
      live_in (stored s) p (sv_Version sv) sv \<and> (\<forall>v sv'. live_in (stored s) p v sv' \<longrightarrow> v \<le> sv_Version sv)"
    and get_latest_none: "inv s \<Longrightarrow> repo_GetLatest repo p s = Inl e \<longleftrightarrow>
      e = New ErrCodeNotFound ''secret version not found'' \<and> (\<forall>v sv. \<not> live_in (stored s) p v sv)"
    and put_inv: "inv s \<Longrightarrow> repo_PutAtomic repo sv cas m s = Inr (v, s') \<Longrightarrow> 0 < m \<Longrightarrow> \<not> sv_Destroyed sv \<Longrightarrow>
      inv s'"
    and put_stored: "inv s \<Longrightarrow> repo_PutAtomic repo sv cas m s = Inr (v, s') \<Longrightarrow> 0 < m \<Longrightarrow> \<not> sv_Destroyed sv \<Longrightarrow>
      stored s' (sv_Path sv) v = Some (sv\<lparr>sv_Version := v\<rparr>)"
    and put_fresh: "inv s \<Longrightarrow> repo_PutAtomic repo sv cas m s = Inr (v, s') \<Longrightarrow> 0 < m \<Longrightarrow> \<not> sv_Destroyed sv \<Longrightarrow>
      stored s (sv_Path sv) u = Some sv' \<Longrightarrow> u < v"
    and put_other: "inv s \<Longrightarrow> repo_PutAtomic repo sv cas m s = Inr (v, s') \<Longrightarrow> 0 < m \<Longrightarrow> \<not> sv_Destroyed sv \<Longrightarrow>
      (p, u) \<noteq> (sv_Path sv, v) \<Longrightarrow>
      stored s' p u = stored s p u \<or> p = sv_Path sv \<and> stored s' p u = None"
    and put_ok: "inv s \<Longrightarrow> sv_ID sv \<noteq> uuid_Nil \<Longrightarrow> sv_Path sv \<noteq> [] \<Longrightarrow> sv_DataEnc sv \<noteq> [] \<Longrightarrow> sv_DEKEnc sv \<noteq> [] \<Longrightarrow>
      (\<And>c. cas = Some c \<Longrightarrow> \<exists>l. repo_GetLatest repo (sv_Path sv) s = Inr l \<and> sv_Version l = c) \<Longrightarrow>
      \<exists>v s'. repo_PutAtomic repo sv cas m s = Inr (v, s')"
    and put_cas: "inv s \<Longrightarrow> repo_PutAtomic repo sv (Some c) m s = Inr (v, s') \<Longrightarrow>
      \<exists>l. repo_GetLatest repo (sv_Path sv) s = Inr l \<and> sv_Version l = c"
    and destroy: "inv s \<Longrightarrow> repo_DestroyVersion repo p v s = Inr s' \<Longrightarrow>
      \<exists>sv. live_in (stored s) p v sv \<and> inv s' \<and>
        stored s' = (stored s)(p := (stored s p)(v \<mapsto> sv\<lparr>sv_Destroyed := True\<rparr>))"
    and destroy_ok: "inv s \<Longrightarrow> live_in (stored s) p v sv \<Longrightarrow> \<exists>s'. repo_DestroyVersion repo p v s = Inr s'"
    and update_dek: "inv s \<Longrightarrow> repo_UpdateDEKEnc repo p v d s = Inr s' \<Longrightarrow>
      \<exists>sv. stored s p v = Some sv \<and> inv s' \<and>
        stored s' = (stored s)(p := (stored s p)(v \<mapsto> sv\<lparr>sv_DEKEnc := d\<rparr>))"
    and list_by_path: "inv s \<Longrightarrow> repo_ListByPath repo p s = Inr svs \<Longrightarrow>
      set svs = {sv. \<exists>q v. stored s q v = Some sv \<and> HasPrefix q p}"
    and list_ok: "inv s \<Longrightarrow> \<exists>svs. repo_ListByPath repo p s = Inr svs"

lemma contents_fun_update:
  "contents (AList.update (p, v) sv r) = (contents r)(p := (contents r p)(v \<mapsto> sv))"
  by (auto simp: fun_eq_iff)

interpretation mem: secret_repository memory_secrets store_wf contents
proof (unfold_locales, unfold live_in_contents, goal_cases)
  case (9 s sv cas m)
  then show ?case
    by (auto simp: memory_secrets_def PutAtomic_Inr cas_ok_def GetLatest_def split: option.splits)
next
  case (10 s sv c m v s')
  then show ?case
    by (auto simp: memory_secrets_def PutAtomic_Inr cas_ok_def GetLatest_def split: option.splits)
next
  case (11 s p v s')
  then show ?case
    using store_wf_entry
    by (fastforce simp: memory_secrets_def DestroyVersion_Inr contents_fun_update live_def
        intro!: store_wf_update)
next
  case (13 s p v d s')
  then show ?case
    using store_wf_entry
    by (fastforce simp: memory_secrets_def UpdateDEKEnc_Inr contents_fun_update intro!: store_wf_update)
qed (auto simp: memory_secrets_def GetVersion_def contents_def [symmetric] GetLatest_Inr GetLatest_Inl
      DestroyVersion_Inr ListByPath_sets ListByPath_def
      dest: store_wf_entry PutAtomic_spec)

section \<open>Consequences of the contract\<close>

context secret_repository
begin

lemma put_latest:
  assumes "inv s" "repo_PutAtomic repo sv cas m s = Inr (v, s')" "0 < m" "\<not> sv_Destroyed sv"
  shows "repo_GetLatest repo (sv_Path sv) s' = Inr (sv\<lparr>sv_Version := v\<rparr>)"
proof -
  note put = put_inv [OF assms] put_stored [OF assms] put_fresh [OF assms] put_other [OF assms]
  have "live_in (stored s') (sv_Path sv) v (sv\<lparr>sv_Version := v\<rparr>)"
    using put(2) assms(4) by (simp add: live_in_def)
  moreover have "u \<le> v" if "live_in (stored s') (sv_Path sv) u sv'" for u sv'
    using put(3) [of u sv'] put(4) [of "sv_Path sv" u] that by (cases "u = v") (auto simp: live_in_def)
  ultimately show ?thesis using put(1) by (simp add: get_latest)
qed

lemma put_elsewhere:
  assumes "inv s" "repo_PutAtomic repo sv cas m s = Inr (v, s')" "0 < m" "\<not> sv_Destroyed sv" "q \<noteq> sv_Path sv"
  shows "stored s' q = stored s q"
  using put_other [OF assms(1-4), of q] assms(5) by (auto simp: fun_eq_iff)

lemma destroyed_at:
  assumes "inv s" "repo_DestroyVersion repo p v s = Inr s'"
  shows "inv s'" "q \<noteq> p \<Longrightarrow> stored s' q = stored s q"
    "live_in (stored s') q u sv \<longleftrightarrow> live_in (stored s) q u sv \<and> (q, u) \<noteq> (p, v)"
  using destroy [OF assms] by (auto simp: live_in_def split: if_splits)

lemma latest_cong:
  assumes "inv s" "inv s'" "stored s' p = stored s p"
  shows "repo_GetLatest repo p s' = repo_GetLatest repo p s"
proof (cases "repo_GetLatest repo p s")
  case (Inl e)
  then have "repo_GetLatest repo p s' = Inl e"
    unfolding get_latest_none [OF assms(1)] get_latest_none [OF assms(2)] by (simp add: live_in_def assms(3))
  with Inl show ?thesis by simp
next
  case (Inr sv)
  then have "repo_GetLatest repo p s' = Inr sv"
    unfolding get_latest [OF assms(1)] get_latest [OF assms(2)] by (simp add: live_in_def assms(3))
  with Inr show ?thesis by simp
qed

end

end
