(* ===== verification/KVv2.thy ===== *)
theory KVv2
  imports SecretRepo Crypto Ttl
begin

text \<open>
  The versioned key-value engine, \<^verbatim>\<open>internal/engine/secrets/kvv2.go\<close>, over any secret
  repository. The engine's configuration holds the key ring (absent when no master key is
  configured), AES-GCM and the JSON codec of \<^verbatim>\<open>encoding/json\<close>, which is a parameter: the
  properties that read a secret back assume that the codec returns the datum that was written.
  The clock, the new UUID and the random bytes are arguments.
\<close>

section \<open>Configuration\<close>

record json =
  json_Marshal :: "any_map \<Rightarrow> bytes res"
  json_Unmarshal :: "bytes \<Rightarrow> any_map res"

record kv_engine =
  kv_aead :: aead
  kv_crypto :: "KeyRing option"
  kv_json :: json

section \<open>Reserved paths\<close>

definition reservedKVPathPrefixes :: "string list" where
  "reservedKVPathPrefixes =
     [''cubbyhole/'', ''sys/wrapping/'', ''sys/internal/'', ''database/creds/'', ''ssh/creds/'',
      ''transit/keys/'']"

definition rejectReservedKVPath :: "string \<Rightarrow> unit res" where
  "rejectReservedKVPath path =
     (let p = TrimPrefix (ToLower (TrimSpace path)) ''/''
      in if p = [] then Inr ()
         else if list_ex (\<lambda>pref. p = TrimSuffix pref ''/'' \<or> HasPrefix p pref) reservedKVPathPrefixes
         then Inl (New ErrCodeForbidden ''path is reserved for an internal engine'')
         else Inr ())"

section \<open>Operations\<close>

definition defaultMaxVersions :: int where "defaultMaxVersions = 10"

record PutOptions =
  po_TTL :: string
  po_CasVersion :: "int option"
  po_MaxVersions :: int
  po_Labels :: "string \<rightharpoonup> string"

text \<open>What a write draws from its environment.\<close>

record put_env =
  pe_rnd :: seal_entropy
  pe_uuid :: uuid
  pe_now :: go_time

definition kv_not_configured :: error where
  "kv_not_configured = New ErrCodeInternal ''kv engine not fully configured''"

text \<open>The expiry fields of a write: the seconds and the instant, or the parse error.\<close>

definition put_ttl :: "string \<Rightarrow> go_time \<Rightarrow> (int option \<times> go_time option) res" where
  "put_ttl raw now =
     (if raw = [] then Inr (None, None)
      else (case ParseTTL raw of
              Inl err \<Rightarrow> Inl (Wrap ErrCodeValidation ''invalid ttl'' err)
            | Inr ttl \<Rightarrow> Inr (Some (ttl div Second), Some (now + ttl))))"

definition new_version :: "put_env \<Rightarrow> string \<Rightarrow> bytes \<Rightarrow> bytes \<Rightarrow> int option \<Rightarrow> go_time option
    \<Rightarrow> (string \<rightharpoonup> string) \<Rightarrow> SecretVersion" where
  "new_version env path dataEnc dekEnc ttlSeconds expires labels =
     \<lparr>sv_ID = pe_uuid env, sv_Path = path, sv_Version = 0, sv_DataEnc = dataEnc,
      sv_DEKEnc = dekEnc, sv_LeaseID = None, sv_TTLSeconds = ttlSeconds,
      sv_CreatedAt = pe_now env, sv_ExpiresAt = expires, sv_Destroyed = False,
      sv_Labels = labels\<rparr>"

definition max_versions :: "PutOptions \<Rightarrow> int" where
  "max_versions opts =
     (if po_MaxVersions opts \<le> 0 then defaultMaxVersions else po_MaxVersions opts)"

definition Put :: "'s SecretRepository \<Rightarrow> kv_engine \<Rightarrow> put_env \<Rightarrow> string \<Rightarrow> any_map \<Rightarrow> PutOptions \<Rightarrow> 's
    \<Rightarrow> (int \<times> 's) res" where
  "Put repo e env path data opts s =
     (case kv_crypto e of
        None \<Rightarrow> Inl kv_not_configured
      | Some ring \<Rightarrow>
          if path = [] then Inl (New ErrCodeValidation ''secret path is required'')
          else (case rejectReservedKVPath path of
            Inl err \<Rightarrow> Inl err
          | Inr _ \<Rightarrow>
          if data = [] then Inl (New ErrCodeValidation ''secret data is required'')
          else (case json_Marshal (kv_json e) data of
            Inl err \<Rightarrow> Inl (Wrap ErrCodeInternal ''marshal secret data'' err)
          | Inr payload \<Rightarrow>
          (case Seal (kv_aead e) (pe_rnd env) ring payload of
            Inl err \<Rightarrow> Inl (Wrap ErrCodeInternal ''encrypt secret data'' err)
          | Inr (dataEnc, dekEnc) \<Rightarrow>
          (case put_ttl (po_TTL opts) (pe_now env) of
            Inl err \<Rightarrow> Inl err
          | Inr (ttlSeconds, expires) \<Rightarrow>
              repo_PutAtomic repo
                (new_version env path dataEnc dekEnc ttlSeconds expires (po_Labels opts))
                (po_CasVersion opts) (max_versions opts) s)))))"

record GetResult =
  gr_Data :: any_map
  gr_Version :: int
  gr_CreatedAt :: go_time
  gr_TTL :: string
  gr_Labels :: "string \<rightharpoonup> string"

definition ttl_string :: "int option \<Rightarrow> string" where
  "ttl_string ttl = (case ttl of None \<Rightarrow> [] | Some n \<Rightarrow> Itoa n @ ''s'')"

definition expired :: "go_time \<Rightarrow> SecretVersion \<Rightarrow> bool" where
  "expired now sv = (case sv_ExpiresAt sv of None \<Rightarrow> False | Some t \<Rightarrow> now > t)"

definition read_version :: "kv_engine \<Rightarrow> KeyRing \<Rightarrow> go_time \<Rightarrow> SecretVersion \<Rightarrow> GetResult res" where
  "read_version e ring now sv =
     (if sv_Destroyed sv then Inl (New ErrCodeNotFound ''secret version destroyed'')
      else if expired now sv then Inl (New ErrCodeNotFound ''secret version expired'')
      else (case Open (kv_aead e) ring (sv_DataEnc sv) (sv_DEKEnc sv) of
        Inl err \<Rightarrow> Inl (Wrap ErrCodeInternal ''decrypt secret data'' err)
      | Inr plain \<Rightarrow>
      (case json_Unmarshal (kv_json e) plain of
        Inl err \<Rightarrow> Inl (Wrap ErrCodeInternal ''unmarshal secret data'' err)
      | Inr data \<Rightarrow> Inr \<lparr>gr_Data = data, gr_Version = sv_Version sv, gr_CreatedAt = sv_CreatedAt sv,
                          gr_TTL = ttl_string (sv_TTLSeconds sv), gr_Labels = sv_Labels sv\<rparr>)))"

definition kv_GetVersion :: "'s SecretRepository \<Rightarrow> kv_engine \<Rightarrow> go_time \<Rightarrow> string \<Rightarrow> int \<Rightarrow> 's
    \<Rightarrow> GetResult res" where
  "kv_GetVersion repo e now path version s =
     (case kv_crypto e of
        None \<Rightarrow> Inl kv_not_configured
      | Some ring \<Rightarrow>
          (case rejectReservedKVPath path of
             Inl err \<Rightarrow> Inl err
           | Inr _ \<Rightarrow>
               (case (if version \<le> 0 then repo_GetLatest repo path s
                      else repo_GetVersion repo path version s) of
                  Inl err \<Rightarrow> Inl err
                | Inr sv \<Rightarrow> read_version e ring now sv)))"

definition kv_Get :: "'s SecretRepository \<Rightarrow> kv_engine \<Rightarrow> go_time \<Rightarrow> string \<Rightarrow> 's \<Rightarrow> GetResult res" where
  "kv_Get repo e now path s = kv_GetVersion repo e now path 0 s"

definition kv_DestroyVersion :: "'s SecretRepository \<Rightarrow> string \<Rightarrow> int \<Rightarrow> 's \<Rightarrow> 's res" where
  "kv_DestroyVersion repo path version s =
     (if path = [] \<or> version < 1 then Inl (New ErrCodeValidation ''path and version are required'')
      else (case rejectReservedKVPath path of
              Inl err \<Rightarrow> Inl err
            | Inr _ \<Rightarrow> repo_DestroyVersion repo path version s))"

definition kv_Delete :: "'s SecretRepository \<Rightarrow> kv_engine \<Rightarrow> string \<Rightarrow> 's \<Rightarrow> 's res" where
  "kv_Delete repo e path s =
     (case kv_crypto e of
        None \<Rightarrow> Inl kv_not_configured
      | Some _ \<Rightarrow>
          (case rejectReservedKVPath path of
             Inl err \<Rightarrow> Inl err
           | Inr _ \<Rightarrow>
               (case repo_GetLatest repo path s of
                  Inl err \<Rightarrow> Inl err
                | Inr latest \<Rightarrow> repo_DestroyVersion repo path (sv_Version latest) s)))"

definition kv_ListPaths :: "'s SecretRepository \<Rightarrow> string \<Rightarrow> 's \<Rightarrow> string list res" where
  "kv_ListPaths repo prefix s =
     (case rejectReservedKVPath prefix of
        Inl err \<Rightarrow> Inl err
      | Inr _ \<Rightarrow>
          (case repo_ListByPath repo prefix s of
             Inl err \<Rightarrow> Inl err
           | Inr versions \<Rightarrow>
               Inr (foldl (\<lambda>paths sv. if \<not> is_ok (rejectReservedKVPath (sv_Path sv)) then paths
                            else if sv_Path sv \<in> set paths then paths
                            else paths @ [sv_Path sv]) [] versions)))"

record VersionMetadata =
  vm_Version :: int
  vm_CreatedAt :: go_time
  vm_Destroyed :: bool
  vm_TTL :: string

record PathMetadata =
  pm_Path :: string
  pm_CurrentVersion :: int
  pm_Versions :: "VersionMetadata list"
  pm_MaxVersions :: int
  pm_Labels :: "string \<rightharpoonup> string"

definition version_meta :: "SecretVersion \<Rightarrow> VersionMetadata" where
  "version_meta sv = \<lparr>vm_Version = sv_Version sv, vm_CreatedAt = sv_CreatedAt sv,
     vm_Destroyed = sv_Destroyed sv, vm_TTL = ttl_string (sv_TTLSeconds sv)\<rparr>"

definition kv_ListVersions :: "'s SecretRepository \<Rightarrow> string \<Rightarrow> 's \<Rightarrow> VersionMetadata list res" where
  "kv_ListVersions repo path s =
     (case rejectReservedKVPath path of
        Inl err \<Rightarrow> Inl err
      | Inr _ \<Rightarrow>
          (case repo_ListByPath repo path s of
             Inl err \<Rightarrow> Inl err
           | Inr versions \<Rightarrow>
               (let out = map version_meta (filter (\<lambda>sv. sv_Path sv = path) versions)
                in if out = [] then Inl (New ErrCodeNotFound ''secret path not found'') else Inr out)))"

definition current_version :: "VersionMetadata list \<Rightarrow> int" where
  "current_version versions =
     foldl (\<lambda>cur v. if vm_Version v > cur \<and> \<not> vm_Destroyed v then vm_Version v else cur) 0 versions"

definition kv_GetMetadata :: "'s SecretRepository \<Rightarrow> string \<Rightarrow> int \<Rightarrow> 's \<Rightarrow> PathMetadata res" where
  "kv_GetMetadata repo path version s =
     (case kv_ListVersions repo path s of
        Inl err \<Rightarrow> Inl err
      | Inr versions \<Rightarrow>
          (let current = current_version versions
           in if version > 0 \<and> \<not> list_ex (\<lambda>v. vm_Version v = version) versions
              then Inl (New ErrCodeNotFound ''secret version not found'')
              else (let targetVersion = (if version > 0 then version else current);
                        labels = (if targetVersion > 0
                                  then (case repo_GetVersion repo path targetVersion s of
                                          Inl _ \<Rightarrow> Map.empty | Inr sv \<Rightarrow> sv_Labels sv)
                                  else Map.empty)
                    in Inr \<lparr>pm_Path = path, pm_CurrentVersion = current, pm_Versions = versions,
                            pm_MaxVersions = defaultMaxVersions, pm_Labels = labels\<rparr>)))"

section \<open>Lemmas for any repository\<close>

lemma new_version_simps [simp]:
  "sv_ID (new_version env path c d t x l) = pe_uuid env"
  "sv_Path (new_version env path c d t x l) = path"
  "sv_DataEnc (new_version env path c d t x l) = c"
  "sv_DEKEnc (new_version env path c d t x l) = d"
  "sv_ExpiresAt (new_version env path c d t x l) = x"
  "sv_TTLSeconds (new_version env path c d t x l) = t"
  "sv_CreatedAt (new_version env path c d t x l) = pe_now env"
  "sv_Labels (new_version env path c d t x l) = l"
  "\<not> sv_Destroyed (new_version env path c d t x l)"
  by (simp_all add: new_version_def)

lemma max_versions_pos: "0 < max_versions opts"
  by (simp add: max_versions_def defaultMaxVersions_def)

lemma Put_InrE:
  assumes "Put repo e env path data opts s = Inr (v, s')"
  obtains ring payload c d t x where
    "kv_crypto e = Some ring" "path \<noteq> []" "is_ok (rejectReservedKVPath path)" "data \<noteq> []"
    "json_Marshal (kv_json e) data = Inr payload" "Seal (kv_aead e) (pe_rnd env) ring payload = Inr (c, d)"
    "put_ttl (po_TTL opts) (pe_now env) = Inr (t, x)"
    "repo_PutAtomic repo (new_version env path c d t x (po_Labels opts)) (po_CasVersion opts)
       (max_versions opts) s = Inr (v, s')"
  using assms by (auto simp: Put_def split: option.splits if_splits sum.splits prod.splits)

lemma Put_eq:
  assumes "kv_crypto e = Some ring" "path \<noteq> []" "is_ok (rejectReservedKVPath path)" "data \<noteq> []"
    "json_Marshal (kv_json e) data = Inr payload" "Seal (kv_aead e) (pe_rnd env) ring payload = Inr (c, d)"
    "put_ttl (po_TTL opts) (pe_now env) = Inr (t, x)"
  shows "Put repo e env path data opts s =
    repo_PutAtomic repo (new_version env path c d t x (po_Labels opts)) (po_CasVersion opts)
      (max_versions opts) s"
  using assms by (auto simp: Put_def is_ok_iff)

lemma kv_Delete_Inr:
  "kv_Delete repo e path s = Inr s' \<longleftrightarrow>
     kv_crypto e \<noteq> None \<and> is_ok (rejectReservedKVPath path) \<and>
     (\<exists>l. repo_GetLatest repo path s = Inr l \<and> repo_DestroyVersion repo path (sv_Version l) s = Inr s')"
  by (auto simp: kv_Delete_def is_ok_iff split: option.splits sum.splits)

text \<open>The ways the engine changes the state.\<close>

inductive kv_step :: "'s SecretRepository \<Rightarrow> 's \<Rightarrow> 's \<Rightarrow> bool" for repo where
  kv_put: "Put repo e env path data opts s = Inr (v, s') \<Longrightarrow> kv_step repo s s'"
| kv_destroy: "kv_DestroyVersion repo path v s = Inr s' \<Longrightarrow> kv_step repo s s'"
| kv_delete: "kv_Delete repo e path s = Inr s' \<Longrightarrow> kv_step repo s s'"

context secret_repository
begin

lemma put_live:
  assumes "inv s" "Put repo e env path data opts s = Inr (v, s')"
  shows "inv s'" "\<exists>sv. live_in (stored s') path v sv"
    "live_in (stored s') q u sv \<Longrightarrow> (q, u) \<noteq> (path, v) \<Longrightarrow> live_in (stored s) q u sv"
    "stored s path u = Some sv \<Longrightarrow> u < v" "q \<noteq> path \<Longrightarrow> stored s' q = stored s q"
    "is_ok (rejectReservedKVPath path)"
proof -
  obtain ring payload c d t x where ok: "is_ok (rejectReservedKVPath path)"
    and put: "repo_PutAtomic repo (new_version env path c d t x (po_Labels opts)) (po_CasVersion opts)
       (max_versions opts) s = Inr (v, s')" by (rule Put_InrE [OF assms(2)])
  show "is_ok (rejectReservedKVPath path)" by (rule ok)
  show "inv s'" by (rule put_inv [OF assms(1) put max_versions_pos]) simp
  show "\<exists>sv. live_in (stored s') path v sv"
    using put_stored [OF assms(1) put max_versions_pos] by (simp add: live_in_def)
  show "stored s path u = Some sv \<Longrightarrow> u < v"
    using put_fresh [OF assms(1) put max_versions_pos] by simp
  note other = put_other [OF assms(1) put max_versions_pos]
  show "live_in (stored s') q u sv \<Longrightarrow> (q, u) \<noteq> (path, v) \<Longrightarrow> live_in (stored s) q u sv"
    using other [of q u] by (auto simp: live_in_def)
  show "q \<noteq> path \<Longrightarrow> stored s' q = stored s q" using other by (auto simp: fun_eq_iff)
qed

lemma kv_step_inv: "kv_step repo s s' \<Longrightarrow> inv s \<Longrightarrow> inv s'"
  by (induction rule: kv_step.induct)
    (auto simp: kv_DestroyVersion_def kv_Delete_def split: if_splits sum.splits option.splits
      dest: put_live(1) destroyed_at(1))

lemma kv_step_reserved:
  "kv_step repo s s' \<Longrightarrow> inv s \<Longrightarrow> \<not> is_ok (rejectReservedKVPath p) \<Longrightarrow> stored s' p = stored s p"
proof (induction rule: kv_step.induct)
  case (kv_put e env path data opts s v s')
  then have "p \<noteq> path" using put_live(6) by blast
  with kv_put show ?case using put_live(5) by blast
next
  case (kv_destroy path v s s')
  then have "p \<noteq> path" "repo_DestroyVersion repo path v s = Inr s'"
    by (auto simp: kv_DestroyVersion_def split: if_splits sum.splits)
  with kv_destroy show ?case using destroyed_at(2) by blast
next
  case (kv_delete e path s s')
  then obtain v where "p \<noteq> path" "repo_DestroyVersion repo path v s = Inr s'"
    by (metis kv_Delete_Inr)
  with kv_delete show ?case using destroyed_at(2) by blast
qed

lemma kv_steps_reserved:
  "(kv_step repo)\<^sup>*\<^sup>* s s' \<Longrightarrow> inv s \<Longrightarrow> \<not> is_ok (rejectReservedKVPath p) \<Longrightarrow>
   inv s' \<and> stored s' p = stored s p"
  by (induction rule: rtranclp_induct) (auto simp: kv_step_reserved dest: kv_step_inv)

lemma put_get:
  assumes "inv s" "Put repo e env path data opts s = Inr (v, s')"
    and "gcm_laws (kv_aead e)" "kv_crypto e = Some ring" "ring_wf ring" "ring_step\<^sup>*\<^sup>* ring ring'"
    and "\<And>payload. json_Marshal (kv_json e) data = Inr payload \<Longrightarrow> json_Unmarshal (kv_json e) payload = Inr data"
    and "put_ttl (po_TTL opts) (pe_now env) = Inr (t, x)" "\<And>y. x = Some y \<Longrightarrow> now \<le> y"
  shows "kv_Get repo (e\<lparr>kv_crypto := Some ring'\<rparr>) now path s' =
    Inr \<lparr>gr_Data = data, gr_Version = v, gr_CreatedAt = pe_now env, gr_TTL = ttl_string t,
         gr_Labels = po_Labels opts\<rparr>"
proof -
  obtain payload c d where p: "is_ok (rejectReservedKVPath path)"
    "json_Marshal (kv_json e) data = Inr payload" "Seal (kv_aead e) (pe_rnd env) ring payload = Inr (c, d)"
    and put: "repo_PutAtomic repo (new_version env path c d t x (po_Labels opts)) (po_CasVersion opts)
       (max_versions opts) s = Inr (v, s')"
    by (rule Put_InrE [OF assms(2)]) (use assms(4,8) in auto)
  let ?sv = "(new_version env path c d t x (po_Labels opts))\<lparr>sv_Version := v\<rparr>"
  have "repo_GetLatest repo path s' = Inr ?sv" using put_latest [OF assms(1) put max_versions_pos] by simp
  moreover have "Open (kv_aead e) ring' c d = Inr payload"
    using Seal_opens [OF assms(3,5) p(3) assms(6)] .
  moreover have "\<not> expired now ?sv" using assms(9) by (auto simp: expired_def split: option.splits)
  ultimately show ?thesis
    using p(1,2) assms(7) by (auto simp: kv_Get_def kv_GetVersion_def read_version_def is_ok_iff)
qed

lemma put_succeeds:
  assumes "inv s" "kv_crypto e = Some ring" "ring_wf ring" "path \<noteq> []" "is_ok (rejectReservedKVPath path)"
    and "data \<noteq> []" "json_Marshal (kv_json e) data = Inr payload" "pe_uuid env \<noteq> uuid_Nil"
    and "put_ttl (po_TTL opts) (pe_now env) = Inr (t, x)"
    and "\<And>c. po_CasVersion opts = Some c \<Longrightarrow> \<exists>l. repo_GetLatest repo path s = Inr l \<and> sv_Version l = c"
  shows "\<exists>v s'. Put repo e env path data opts s = Inr (v, s')"
proof -
  obtain c d where cd: "Seal (kv_aead e) (pe_rnd env) ring payload = Inr (c, d)"
    using Seal_ok [OF assms(3)] by blast
  note nn = Seal_not_Nil [OF assms(3) cd]
  show ?thesis
    unfolding Put_eq [OF assms(2,4-7) cd assms(9)]
    using assms nn by (intro put_ok) auto
qed

lemma put_cas_latest:
  assumes "inv s" "Put repo e env path data opts s = Inr (v, s')" "po_CasVersion opts = Some c"
  shows "\<exists>l. repo_GetLatest repo path s = Inr l \<and> sv_Version l = c"
  by (rule Put_InrE [OF assms(2)]) (use put_cas [OF assms(1)] assms(3) in fastforce)

lemma delete_latest:
  assumes "inv s" "kv_Delete repo e path s = Inr s'"
  shows "\<exists>l. repo_GetLatest repo path s = Inr l \<and> inv s' \<and>
    (\<forall>u sv. live_in (stored s') path u sv \<longleftrightarrow> live_in (stored s) path u sv \<and> u < sv_Version l)"
proof -
  obtain l where l: "repo_GetLatest repo path s = Inr l"
    "repo_DestroyVersion repo path (sv_Version l) s = Inr s'"
    using assms(2) by (auto simp: kv_Delete_Inr)
  have "u \<le> sv_Version l" if "live_in (stored s) path u sv" for u sv
    using l(1) that by (auto simp: get_latest [OF assms(1)])
  then have "live_in (stored s') path u sv \<longleftrightarrow> live_in (stored s) path u sv \<and> u < sv_Version l" for u sv
    using destroyed_at(3) [OF assms(1) l(2), of path u sv] by fastforce
  with l destroyed_at(1) [OF assms(1) l(2)] show ?thesis by blast
qed

end

section \<open>Properties of the engine over the in-memory store\<close>


definition demo_json :: json where
  "demo_json = \<lparr>json_Marshal = \<lambda>_. Inr [1], json_Unmarshal = \<lambda>_. Inr [(''k'', Str ''v'')]\<rparr>"

definition demo_engine :: kv_engine where
  "demo_engine = \<lparr>kv_aead = demo_aead, kv_crypto = Some demo_ring1, kv_json = demo_json\<rparr>"

definition demo_put_env :: put_env where
  "demo_put_env = \<lparr>pe_rnd = \<lparr>dek_rnd = \<lambda>_. 3, data_rnd = \<lambda>_. 4, wrap_rnd = \<lambda>_. 5\<rparr>, pe_uuid = ''u'', pe_now = 7\<rparr>"

definition demo_opts :: PutOptions where
  "demo_opts = \<lparr>po_TTL = [], po_CasVersion = None, po_MaxVersions = 0, po_Labels = Map.empty\<rparr>"

lemmas demo_kv_defs = demo_engine_def demo_json_def demo_put_env_def demo_opts_def

lemma demo_ring1_wf: "ring_wf demo_ring1"
  using NewKeyRing_wf [OF demo_ring1_new] .

lemma demo_path_ok: "is_ok (rejectReservedKVPath ''app/db'')"
  by code_simp

lemma demo_put:
  "store_wf s \<Longrightarrow> \<exists>v s'. Put memory_secrets demo_engine demo_put_env ''app/db'' [(''k'', Str ''v'')] demo_opts s = Inr (v, s')"
  by (rule mem.put_succeeds [where ring = demo_ring1 and payload = "[1]" and t = None and x = None])
    (simp_all add: demo_kv_defs demo_ring1_wf demo_path_ok uuid_Nil_def put_ttl_def)




text \<open>
  C16. A write allocates a version above every stored one of its path, at most the configured
  number of live versions remains, and with a check-and-set version it succeeds only if that is
  the latest live version: a concurrent writer's update is never lost.
\<close>
theorem KV_put_version:
  assumes "store_wf s" "Put memory_secrets e env path data opts s = Inr (v, s')"
  shows "(\<forall>u. contents s path u \<noteq> None \<longrightarrow> u < v) \<and>
    int (length (live_versions path s')) \<le> max_versions opts \<and>
    (\<forall>c. po_CasVersion opts = Some c \<longrightarrow> (\<exists>l. GetLatest path s = Inr l \<and> sv_Version l = c))"
proof -
  have "int (length (live_versions path s')) \<le> max_versions opts"
    by (rule Put_InrE [OF assms(2)])
      (use PutAtomic_spec(6) [OF assms(1) _ max_versions_pos] in \<open>fastforce simp: memory_secrets_def\<close>)
  moreover have "repo_GetLatest memory_secrets = GetLatest" by (simp add: memory_secrets_def)
  ultimately show ?thesis
    using mem.put_live(4) [OF assms] mem.put_cas_latest [OF assms] by auto
qed

theorem KV_put_version_witness:
  "\<exists>v s'. Put memory_secrets demo_engine demo_put_env ''app/db'' [(''k'', Str ''v'')] demo_opts [] = Inr (v, s') \<and>
     int (length (live_versions ''app/db'' s')) \<le> 10"
proof -
  have wf: "store_wf []" by (simp add: store_wf_def)
  then obtain v s' where put:
    "Put memory_secrets demo_engine demo_put_env ''app/db'' [(''k'', Str ''v'')] demo_opts [] = Inr (v, s')"
    using demo_put by blast
  with KV_put_version [OF wf put] show ?thesis
    by (auto simp: demo_kv_defs max_versions_def defaultMaxVersions_def)
qed

text \<open>
  Deleting a path destroys its latest version only. When an older live version exists, the
  next read of the latest version returns that older one.
\<close>
theorem KV_delete_resurfaces_older:
  assumes "store_wf s" "GetLatest path s = Inr l" "kv_Delete memory_secrets e path s = Inr s'"
    "live s path u sv" "u \<noteq> sv_Version l"
  shows "\<exists>l'. GetLatest path s' = Inr l' \<and> live s path (sv_Version l') l' \<and> sv_Version l' < sv_Version l \<and> u \<le> sv_Version l'"
proof -
  have L: "repo_GetLatest memory_secrets = GetLatest" by (simp add: memory_secrets_def)
  from mem.delete_latest [OF assms(1,3)] assms(2) have wf': "store_wf s'"
    and live': "\<And>u sv. live s' path u sv \<longleftrightarrow> live s path u sv \<and> u < sv_Version l"
    by (auto simp: L live_in_contents)
  have "u < sv_Version l" using assms(1,2,4,5) by (force simp: GetLatest_Inr)
  with assms(4) have u: "live s' path u sv" by (simp add: live')
  then obtain l' where "GetLatest path s' = Inr l'"
    using GetLatest_Inl [OF wf'] by (cases "GetLatest path s'") blast+
  with u show ?thesis unfolding GetLatest_Inr [OF wf'] live' by blast
qed

definition demo_sv :: "int \<Rightarrow> SecretVersion" where
  "demo_sv v = (new_version demo_put_env ''app/db'' [1] [1] None None Map.empty)\<lparr>sv_Version := v\<rparr>"

definition demo_store :: secret_store where
  "demo_store = [((''app/db'', 1), demo_sv 1), ((''app/db'', 2), demo_sv 2)]"

theorem KV_delete_resurfaces_older_witness:
  "\<exists>s' l'. GetLatest ''app/db'' demo_store = Inr (demo_sv 2) \<and>
     kv_Delete memory_secrets demo_engine ''app/db'' demo_store = Inr s' \<and>
     GetLatest ''app/db'' s' = Inr l' \<and> sv_Version l' < 2"
proof -
  have wf: "store_wf demo_store"
    by (simp add: store_wf_def demo_store_def demo_sv_def)
  have live: "live demo_store ''app/db'' 1 (demo_sv 1)" "live demo_store ''app/db'' 2 (demo_sv 2)"
    by (simp_all add: live_def contents_def demo_store_def demo_sv_def)
  have latest: "GetLatest ''app/db'' demo_store = Inr (demo_sv 2)"
    by (simp add: GetLatest_def latestNonDestroyedLocked_def demo_store_def newer_def demo_sv_def)
  have v2: "sv_Version (demo_sv 2) = 2" by (simp add: demo_sv_def)
  obtain s' where "DestroyVersion ''app/db'' 2 demo_store = Inr s'"
    using live(2) by (auto simp: DestroyVersion_Inr)
  then have "kv_Delete memory_secrets demo_engine ''app/db'' demo_store = Inr s'"
    using latest demo_path_ok v2 by (simp add: kv_Delete_Inr memory_secrets_def demo_engine_def)
  with KV_delete_resurfaces_older [OF wf latest this live(1)] latest v2 show ?thesis by auto
qed

end
