(* ===== verification/Cubbyhole.thy ===== *)
theory Cubbyhole
  imports KVv2
begin

text \<open>
  The cubbyhole engine, \<^verbatim>\<open>internal/engine/secrets/cubbyhole/engine.go\<close>: secrets private to a
  token, stored under the token's identifier. An operation that destroys several versions goes
  on after a failure and returns the first error, so it yields an error beside a new state.
\<close>

section \<open>Paths\<close>

definition cubbyPrefix :: string where "cubbyPrefix = ''cubbyhole/''"

definition NormalizePath :: "string \<Rightarrow> string res" where
  "NormalizePath p0 =
     (let p = TrimPrefix (TrimSpace p0) ''/''
      in if p = [] then Inl (New ErrCodeValidation ''invalid cubbyhole path'')
         else if list_ex (\<lambda>seg. seg = ''..'' \<or> seg = ''.'') (strings_Split p (CHR ''/''))
         then Inl (New ErrCodeValidation ''invalid cubbyhole path'')
         else (let cleaned = TrimPrefix (path_Clean (''/'' @ p)) ''/''
               in if cleaned = [] \<or> cleaned = ''.''
                  then Inl (New ErrCodeValidation ''invalid cubbyhole path'')
                  else Inr cleaned))"

definition storagePath :: "string \<Rightarrow> string \<Rightarrow> string res" where
  "storagePath tokenID p =
     (case NormalizePath p of
        Inl err \<Rightarrow> Inl err
      | Inr np \<Rightarrow> Inr (cubbyPrefix @ tokenID @ ''/'' @ np))"

section \<open>Operations\<close>

definition cubby_not_configured :: error where
  "cubby_not_configured = New ErrCodeInternal ''cubbyhole not configured''"

definition cubby_labels :: "string \<Rightarrow> string \<rightharpoonup> string" where
  "cubby_labels tokenID = [''engine'' \<mapsto> ''cubbyhole'', ''token_id'' \<mapsto> tokenID]"

definition cubby_Put :: "'s SecretRepository \<Rightarrow> kv_engine \<Rightarrow> put_env \<Rightarrow> string \<Rightarrow> string \<Rightarrow> any_map \<Rightarrow> 's
    \<Rightarrow> 's res" where
  "cubby_Put repo e env tokenID p data s =
     (case kv_crypto e of
        None \<Rightarrow> Inl cubby_not_configured
      | Some ring \<Rightarrow>
          if tokenID = [] then Inl (New ErrCodeUnauthorized ''token id required'')
          else (case storagePath tokenID p of
            Inl err \<Rightarrow> Inl err
          | Inr sp \<Rightarrow>
          if data = [] then Inl (New ErrCodeValidation ''data required'')
          else (case json_Marshal (kv_json e) data of
            Inl err \<Rightarrow> Inl (Wrap ErrCodeInternal ''marshal'' err)
          | Inr raw \<Rightarrow>
          (case Seal (kv_aead e) (pe_rnd env) ring raw of
            Inl err \<Rightarrow> Inl (Wrap ErrCodeInternal ''encrypt'' err)
          | Inr (dataEnc, dekEnc) \<Rightarrow>
          (case repo_PutAtomic repo (new_version env sp dataEnc dekEnc None None (cubby_labels tokenID))
                  None 1 s of
             Inl err \<Rightarrow> Inl err
           | Inr (_, s') \<Rightarrow> Inr s')))))"

definition cubby_Get :: "'s SecretRepository \<Rightarrow> kv_engine \<Rightarrow> string \<Rightarrow> string \<Rightarrow> 's \<Rightarrow> any_map res" where
  "cubby_Get repo e tokenID p s =
     (case kv_crypto e of
        None \<Rightarrow> Inl cubby_not_configured
      | Some ring \<Rightarrow>
          if tokenID = [] then Inl (New ErrCodeUnauthorized ''token id required'')
          else (case storagePath tokenID p of
            Inl err \<Rightarrow> Inl err
          | Inr sp \<Rightarrow>
          (case repo_GetLatest repo sp s of
            Inl err \<Rightarrow> Inl err
          | Inr sv \<Rightarrow>
          (case Open (kv_aead e) ring (sv_DataEnc sv) (sv_DEKEnc sv) of
            Inl err \<Rightarrow> Inl (Wrap ErrCodeInternal ''decrypt'' err)
          | Inr plain \<Rightarrow>
          (case json_Unmarshal (kv_json e) plain of
             Inl err \<Rightarrow> Inl (Wrap ErrCodeInternal ''unmarshal'' err)
           | Inr data \<Rightarrow> Inr data)))))"

text \<open>Destroy one version and remember the first error.\<close>

definition try_destroy :: "'s SecretRepository \<Rightarrow> SecretVersion \<Rightarrow> error option \<times> 's \<Rightarrow> error option \<times> 's" where
  "try_destroy repo sv st =
     (case repo_DestroyVersion repo (sv_Path sv) (sv_Version sv) (snd st) of
        Inl err \<Rightarrow> (if fst st = None then Some err else fst st, snd st)
      | Inr s' \<Rightarrow> (fst st, s'))"

definition destroyAllVersions :: "'s SecretRepository \<Rightarrow> string \<Rightarrow> 's \<Rightarrow> error option \<times> 's" where
  "destroyAllVersions repo sp s =
     (case repo_ListByPath repo sp s of
        Inl _ \<Rightarrow>
          (case repo_GetLatest repo sp s of
             Inl gerr \<Rightarrow> (Some gerr, s)
           | Inr sv \<Rightarrow> try_destroy repo sv (None, s))
      | Inr svs \<Rightarrow> fold (try_destroy repo) (filter (\<lambda>sv. sv_Path sv = sp) svs) (None, s))"

definition cubby_Delete :: "'s SecretRepository \<Rightarrow> string \<Rightarrow> string \<Rightarrow> 's \<Rightarrow> error option \<times> 's" where
  "cubby_Delete repo tokenID p s =
     (case storagePath tokenID p of
        Inl err \<Rightarrow> (Some err, s)
      | Inr sp \<Rightarrow> destroyAllVersions repo sp s)"

text \<open>The map \<^verbatim>\<open>seen\<close> skips a path and version that the list repeats.\<close>

fun dedup_versions :: "(string \<times> int) list \<Rightarrow> SecretVersion list \<Rightarrow> SecretVersion list" where
  "dedup_versions seen [] = []"
| "dedup_versions seen (sv # svs) =
     (if (sv_Path sv, sv_Version sv) \<in> set seen then dedup_versions seen svs
      else sv # dedup_versions ((sv_Path sv, sv_Version sv) # seen) svs)"

definition WipeToken :: "'s SecretRepository \<Rightarrow> string \<Rightarrow> 's \<Rightarrow> error option \<times> 's" where
  "WipeToken repo tokenID s =
     (if tokenID = [] then (None, s)
      else (case repo_ListByPath repo (cubbyPrefix @ tokenID @ ''/'') s of
              Inl err \<Rightarrow> (Some err, s)
            | Inr svs \<Rightarrow> fold (try_destroy repo) (dedup_versions [] svs) (None, s)))"

section \<open>Storage paths of different tokens\<close>

lemma storagePath_Inr:
  "storagePath t p = Inr sp \<longleftrightarrow> (\<exists>np. NormalizePath p = Inr np \<and> sp = cubbyPrefix @ t @ ''/'' @ np)"
  by (auto simp: storagePath_def split: sum.splits)

lemma storagePath_HasPrefix:
  assumes "storagePath t p = Inr sp" "CHR ''/'' \<notin> set t" "CHR ''/'' \<notin> set t'"
  shows "HasPrefix sp (cubbyPrefix @ t' @ ''/'') \<longleftrightarrow> t = t'"
proof
  assume "HasPrefix sp (cubbyPrefix @ t' @ ''/'')"
  then obtain r where r: "sp = cubbyPrefix @ t' @ CHR ''/'' # r" by (auto simp: HasPrefix_iff)
  obtain np where "sp = cubbyPrefix @ t @ CHR ''/'' # np" using assms(1) by (auto simp: storagePath_Inr)
  with r have "t @ CHR ''/'' # np = t' @ CHR ''/'' # r" by simp
  then show "t = t'" using sep_unique [OF assms(2,3)] by blast
next
  assume "t = t'"
  with assms(1) show "HasPrefix sp (cubbyPrefix @ t' @ ''/'')"
    by (auto simp: HasPrefix_iff storagePath_Inr)
qed

section \<open>Destroying versions\<close>

context secret_repository
begin

lemma try_destroy_step:
  assumes "inv s" "try_destroy repo sv (f, s) = (f', s')"
  shows "inv s'" "live_in (stored s') q u sv' \<longleftrightarrow>
      live_in (stored s) q u sv' \<and> (q, u) \<noteq> (sv_Path sv, sv_Version sv)"
    "q \<noteq> sv_Path sv \<Longrightarrow> stored s' q = stored s q"
    "f' = None \<longleftrightarrow> f = None \<and> (\<exists>x. live_in (stored s) (sv_Path sv) (sv_Version sv) x)"
proof -
  consider e where "repo_DestroyVersion repo (sv_Path sv) (sv_Version sv) s = Inl e" "s' = s" "f' \<noteq> None"
    | "repo_DestroyVersion repo (sv_Path sv) (sv_Version sv) s = Inr s'" "f' = f"
    using assms(2) by (auto simp: try_destroy_def split: sum.splits if_splits)
  then have "inv s' \<and> (live_in (stored s') q u sv' \<longleftrightarrow>
      live_in (stored s) q u sv' \<and> (q, u) \<noteq> (sv_Path sv, sv_Version sv)) \<and>
    (q \<noteq> sv_Path sv \<longrightarrow> stored s' q = stored s q) \<and>
    (f' = None \<longleftrightarrow> f = None \<and> (\<exists>x. live_in (stored s) (sv_Path sv) (sv_Version sv) x))"
  proof cases
    case (1 e)
    have "\<not> live_in (stored s) (sv_Path sv) (sv_Version sv) x" for x
      using destroy_ok [OF assms(1), of "sv_Path sv" "sv_Version sv" x] 1(1) by auto
    with 1 assms(1) show ?thesis by auto
  next
    case 2
    with destroyed_at [OF assms(1) 2(1)] destroy [OF assms(1) 2(1)] show ?thesis by metis
  qed
  then show "inv s'" "live_in (stored s') q u sv' \<longleftrightarrow>
      live_in (stored s) q u sv' \<and> (q, u) \<noteq> (sv_Path sv, sv_Version sv)"
    "q \<noteq> sv_Path sv \<Longrightarrow> stored s' q = stored s q"
    "f' = None \<longleftrightarrow> f = None \<and> (\<exists>x. live_in (stored s) (sv_Path sv) (sv_Version sv) x)" by blast+
qed

lemma fold_destroy:
  assumes "inv s" "fold (try_destroy repo) svs (f, s) = (f', s')"
  shows "inv s' \<and> (\<forall>q u x. live_in (stored s') q u x \<longleftrightarrow>
      live_in (stored s) q u x \<and> (\<forall>sv \<in> set svs. (q, u) \<noteq> (sv_Path sv, sv_Version sv))) \<and>
    (\<forall>q. (\<forall>sv \<in> set svs. sv_Path sv \<noteq> q) \<longrightarrow> stored s' q = stored s q)"
  using assms
proof (induction svs arbitrary: f s)
  case (Cons sv svs)
  obtain f1 s1 where st: "try_destroy repo sv (f, s) = (f1, s1)" by fastforce
  note step = try_destroy_step [OF Cons.prems(1) st]
  have "fold (try_destroy repo) svs (f1, s1) = (f', s')" using Cons.prems(2) st by simp
  note IH = Cons.IH [OF step(1) this]
  show ?case using IH step(2,3) by auto
qed simp

lemma fold_destroy_error:
  assumes "inv s" "fold (try_destroy repo) svs (f, s) = (f', s')"
    "f \<noteq> None \<or> (\<exists>sv \<in> set svs. \<forall>x. \<not> live_in (stored s) (sv_Path sv) (sv_Version sv) x)"
  shows "f' \<noteq> None"
  using assms
proof (induction svs arbitrary: f s)
  case (Cons sv svs)
  obtain f1 s1 where st: "try_destroy repo sv (f, s) = (f1, s1)" by fastforce
  note step = try_destroy_step [OF Cons.prems(1) st]
  have "fold (try_destroy repo) svs (f1, s1) = (f', s')" using Cons.prems(2) st by simp
  moreover have "f1 \<noteq> None \<or> (\<exists>sv \<in> set svs. \<forall>x. \<not> live_in (stored s1) (sv_Path sv) (sv_Version sv) x)"
    using Cons.prems(3) step(2,4) by auto
  ultimately show ?case using Cons.IH step(1) by blast
qed simp

lemma destroyAllVersions_spec:
  assumes "inv s" "destroyAllVersions repo sp s = (f, s')"
  shows "inv s'" "\<not> live_in (stored s') sp u sv" "q \<noteq> sp \<Longrightarrow> stored s' q = stored s q"
proof -
  obtain svs where svs: "repo_ListByPath repo sp s = Inr svs" using list_ok [OF assms(1)] by blast
  let ?l = "filter (\<lambda>sv. sv_Path sv = sp) svs"
  have "fold (try_destroy repo) ?l (None, s) = (f, s')"
    using assms(2) svs by (simp add: destroyAllVersions_def)
  note F = fold_destroy [OF assms(1) this]
  show "inv s'" using F by blast
  show "q \<noteq> sp \<Longrightarrow> stored s' q = stored s q" using F by auto
  show "\<not> live_in (stored s') sp u sv"
  proof
    assume "live_in (stored s') sp u sv"
    with F have live: "live_in (stored s) sp u sv" and
      no: "\<forall>sv' \<in> set ?l. (sp, u) \<noteq> (sv_Path sv', sv_Version sv')" by auto
    from live have st: "stored s sp u = Some sv" by (simp add: live_in_def)
    have "sv \<in> set svs" unfolding list_by_path [OF assms(1) svs] using st by auto
    moreover have "sv_Path sv = sp" "sv_Version sv = u" using stored_wf [OF assms(1) st] by auto
    ultimately show False using no by auto
  qed
qed

lemma destroyAllVersions_error:
  assumes "inv s" "destroyAllVersions repo sp s = (f, s')" "stored s sp u = Some sv" "sv_Destroyed sv"
  shows "f \<noteq> None"
proof -
  obtain svs where svs: "repo_ListByPath repo sp s = Inr svs" using list_ok [OF assms(1)] by blast
  have "fold (try_destroy repo) (filter (\<lambda>sv. sv_Path sv = sp) svs) (None, s) = (f, s')"
    using assms(2) svs by (simp add: destroyAllVersions_def)
  moreover have "sv \<in> set (filter (\<lambda>sv. sv_Path sv = sp) svs)"
    using list_by_path [OF assms(1) svs] stored_wf [OF assms(1,3)] assms(3) by auto
  moreover have "\<not> live_in (stored s) (sv_Path sv) (sv_Version sv) x" for x
    using stored_wf [OF assms(1,3)] assms(3,4) by (auto simp: live_in_def)
  ultimately show ?thesis using fold_destroy_error [OF assms(1)] by blast
qed

lemma set_dedup:
  "sv \<in> set svs \<Longrightarrow> (sv_Path sv, sv_Version sv) \<notin> set seen \<Longrightarrow>
   \<exists>sv' \<in> set (dedup_versions seen svs). sv_Path sv' = sv_Path sv \<and> sv_Version sv' = sv_Version sv"
  by (induction seen svs rule: dedup_versions.induct) (auto split: if_splits, metis+)

lemma dedup_subset: "set (dedup_versions seen svs) \<subseteq> set svs"
  by (induction seen svs rule: dedup_versions.induct) auto

lemma WipeToken_spec:
  assumes "inv s" "t \<noteq> []" "WipeToken repo t s = (f, s')"
  shows "inv s'" "HasPrefix q (cubbyPrefix @ t @ ''/'') \<Longrightarrow> \<not> live_in (stored s') q u sv"
    "\<not> HasPrefix q (cubbyPrefix @ t @ ''/'') \<Longrightarrow> stored s' q = stored s q"
proof -
  let ?pre = "cubbyPrefix @ t @ ''/''"
  obtain svs where svs: "repo_ListByPath repo ?pre s = Inr svs" using list_ok [OF assms(1)] by blast
  have "fold (try_destroy repo) (dedup_versions [] svs) (None, s) = (f, s')"
    using assms(2,3) svs by (simp add: WipeToken_def)
  note F = fold_destroy [OF assms(1) this]
  show "inv s'" using F by blast
  have path: "HasPrefix (sv_Path sv) ?pre" if "sv \<in> set svs" for sv
    using that stored_wf [OF assms(1)] by (auto simp: list_by_path [OF assms(1) svs])
  show "stored s' q = stored s q" if "\<not> HasPrefix q ?pre"
  proof -
    have "\<forall>sv \<in> set (dedup_versions [] svs). sv_Path sv \<noteq> q"
      using that path dedup_subset [of "[]" svs] by (metis subsetD)
    then show ?thesis using F by simp
  qed
  show "\<not> live_in (stored s') q u sv" if pre: "HasPrefix q ?pre"
  proof
    assume "live_in (stored s') q u sv"
    with F have live: "live_in (stored s) q u sv" and
      no: "\<forall>sv' \<in> set (dedup_versions [] svs). (q, u) \<noteq> (sv_Path sv', sv_Version sv')" by auto
    from live have st: "stored s q u = Some sv" by (simp add: live_in_def)
    have "sv \<in> set svs" unfolding list_by_path [OF assms(1) svs] using st pre by auto
    moreover have "sv_Path sv = q" "sv_Version sv = u" using stored_wf [OF assms(1) st] by auto
    ultimately show False using no set_dedup [of sv svs "[]"] by auto
  qed
qed

lemma cubby_Get_cong:
  assumes "inv s" "inv s'" "\<And>sp. storagePath t p = Inr sp \<Longrightarrow> stored s' sp = stored s sp"
  shows "cubby_Get repo e t p s' = cubby_Get repo e t p s"
  using latest_cong [OF assms(1,2)] assms(3)
  by (auto simp: cubby_Get_def split: option.splits sum.splits)

lemma cubby_Put_eq:
  assumes "kv_crypto e = Some ring" "t \<noteq> []" "storagePath t p = Inr sp" "data \<noteq> []"
    "json_Marshal (kv_json e) data = Inr raw" "Seal (kv_aead e) (pe_rnd env) ring raw = Inr (c, d)"
  shows "cubby_Put repo e env t p data s =
    map_sum id snd (repo_PutAtomic repo (new_version env sp c d None None (cubby_labels t)) None 1 s)"
  using assms by (simp add: cubby_Put_def split: sum.splits)

lemma cubby_Put_InrE:
  assumes "cubby_Put repo e env t p data s = Inr s'"
  obtains ring sp raw c d v where "kv_crypto e = Some ring" "t \<noteq> []" "storagePath t p = Inr sp" "data \<noteq> []"
    "json_Marshal (kv_json e) data = Inr raw" "Seal (kv_aead e) (pe_rnd env) ring raw = Inr (c, d)"
    "repo_PutAtomic repo (new_version env sp c d None None (cubby_labels t)) None 1 s = Inr (v, s')"
  using assms by (auto simp: cubby_Put_def split: option.splits sum.splits if_splits)

lemma cubby_put_other:
  assumes "inv s" "cubby_Put repo e env t p data s = Inr s'"
  shows "inv s' \<and> (\<forall>q. storagePath t p \<noteq> Inr q \<longrightarrow> stored s' q = stored s q)"
  using assms(2)
proof (rule cubby_Put_InrE, goal_cases)
  case (1 ring sp raw c d v)
  have "stored s' q = stored s q" if "q \<noteq> sp" for q
    using put_elsewhere [OF assms(1) 1(7)] that by simp
  with put_inv [OF assms(1) 1(7)] 1(3) show ?case by auto
qed

end

section \<open>Reachable states\<close>

text \<open>One call of the engine on behalf of a token; a failed write leaves the store unchanged.\<close>

inductive cubby_step :: "'s SecretRepository \<Rightarrow> string \<Rightarrow> 's \<Rightarrow> 's \<Rightarrow> bool" for repo where
  cubby_put: "cubby_Put repo e env t p data s = Inr s' \<Longrightarrow> cubby_step repo t s s'"
| cubby_delete: "cubby_Delete repo t p s = (f, s') \<Longrightarrow> cubby_step repo t s s'"
| cubby_wipe: "WipeToken repo t s = (f, s') \<Longrightarrow> cubby_step repo t s s'"

text \<open>Calls on behalf of any token but one.\<close>

definition others_step :: "'s SecretRepository \<Rightarrow> string \<Rightarrow> 's \<Rightarrow> 's \<Rightarrow> bool" where
  "others_step repo t s s' \<longleftrightarrow> (\<exists>t'. t' \<noteq> t \<and> CHR ''/'' \<notin> set t' \<and> cubby_step repo t' s s')"

context secret_repository
begin

lemma cubby_step_other:
  assumes "cubby_step repo t' s s'" "inv s" "t' \<noteq> t" "CHR ''/'' \<notin> set t'" "CHR ''/'' \<notin> set t"
  shows "inv s' \<and> (\<forall>q. HasPrefix q (cubbyPrefix @ t @ ''/'') \<longrightarrow> stored s' q = stored s q)"
  using assms(1)
proof cases
  case (cubby_put e env p data)
  then show ?thesis
    using cubby_put_other [OF assms(2) cubby_put] storagePath_HasPrefix [OF _ assms(4,5)] assms(3) by metis
next
  case (cubby_delete p f)
  show ?thesis
  proof (cases "storagePath t' p")
    case (Inl e)
    with cubby_delete assms(2) show ?thesis by (simp add: cubby_Delete_def)
  next
    case (Inr sp)
    with cubby_delete have "destroyAllVersions repo sp s = (f, s')" by (simp add: cubby_Delete_def)
    note d = destroyAllVersions_spec [OF assms(2) this]
    show ?thesis using d(1,3) storagePath_HasPrefix [OF Inr assms(4,5)] assms(3) by metis
  qed
next
  case (cubby_wipe f)
  show ?thesis
  proof (cases "t' = []")
    case True
    with cubby_wipe assms(2) show ?thesis by (simp add: WipeToken_def)
  next
    case False
    note w = WipeToken_spec [OF assms(2) False cubby_wipe]
    have "\<not> HasPrefix q (cubbyPrefix @ t' @ ''/'')" if q: "HasPrefix q (cubbyPrefix @ t @ ''/'')" for q
    proof
      assume "HasPrefix q (cubbyPrefix @ t' @ ''/'')"
      with q obtain r r' where "t @ CHR ''/'' # r = t' @ CHR ''/'' # r'" by (auto simp: HasPrefix_iff)
      with sep_unique [OF assms(5,4)] assms(3) show False by blast
    qed
    with w show ?thesis by blast
  qed
qed

lemma others_steps:
  assumes "(others_step repo t)\<^sup>*\<^sup>* s s'" "inv s" "CHR ''/'' \<notin> set t"
  shows "inv s' \<and> (\<forall>q. HasPrefix q (cubbyPrefix @ t @ ''/'') \<longrightarrow> stored s' q = stored s q)"
  using assms(1,2)
proof (induction rule: rtranclp_induct)
  case (step y z)
  then show ?case using cubby_step_other [of _ y z t] assms(3) by (metis others_step_def)
qed simp

lemma others_get:
  assumes "(others_step repo t)\<^sup>*\<^sup>* s s'" "inv s" "CHR ''/'' \<notin> set t"
  shows "cubby_Get repo e t p s' = cubby_Get repo e t p s"
proof (rule cubby_Get_cong)
  note o = others_steps [OF assms]
  show "inv s" "inv s'" using o assms(2) by auto
  show "stored s' sp = stored s sp" if "storagePath t p = Inr sp" for sp
    using storagePath_HasPrefix [OF that assms(3,3)] o by blast
qed

lemma cubby_put_get:
  assumes "inv s" "cubby_Put repo e env t p data s = Inr s'"
    and "gcm_laws (kv_aead e)" "kv_crypto e = Some ring" "ring_wf ring" "ring_step\<^sup>*\<^sup>* ring ring'"
    and "\<And>raw. json_Marshal (kv_json e) data = Inr raw \<Longrightarrow> json_Unmarshal (kv_json e) raw = Inr data"
  shows "cubby_Get repo (e\<lparr>kv_crypto := Some ring'\<rparr>) t p s' = Inr data"
  using assms(2)
proof (rule cubby_Put_InrE, goal_cases)
  case (1 rg sp raw c d v)
  let ?sv = "new_version env sp c d None None (cubby_labels t)"
  have "repo_GetLatest repo sp s' = Inr (?sv\<lparr>sv_Version := v\<rparr>)"
    using put_latest [OF assms(1) 1(7)] by simp
  moreover have "Open (kv_aead e) ring' c d = Inr raw"
    using Seal_opens [OF assms(3,5) _ assms(6)] 1(1,6) assms(4) by simp
  ultimately show ?case using 1 assms(7) by (simp add: cubby_Get_def)
qed

lemma cubby_put_succeeds:
  assumes "inv s" "kv_crypto e = Some ring" "ring_wf ring" "t \<noteq> []" "storagePath t p = Inr sp"
    and "data \<noteq> []" "json_Marshal (kv_json e) data = Inr raw" "pe_uuid env \<noteq> uuid_Nil"
  shows "\<exists>s'. cubby_Put repo e env t p data s = Inr s'"
proof -
  obtain c d where cd: "Seal (kv_aead e) (pe_rnd env) ring raw = Inr (c, d)"
    using Seal_ok [OF assms(3)] by blast
  note nn = Seal_not_Nil [OF assms(3) cd]
  have "\<exists>v s'. repo_PutAtomic repo (new_version env sp c d None None (cubby_labels t)) None 1 s = Inr (v, s')"
    using assms nn by (intro put_ok) (auto simp: storagePath_Inr)
  then show ?thesis unfolding cubby_Put_eq [OF assms(2,4-7) cd] by auto
qed

lemma cubby_get_dead:
  assumes "inv s" "storagePath t p = Inr sp" "\<And>u sv. \<not> live_in (stored s) sp u sv" "kv_crypto e \<noteq> None" "t \<noteq> []"
  shows "cubby_Get repo e t p s = Inl (New ErrCodeNotFound ''secret version not found'')"
proof -
  have "repo_GetLatest repo sp s = Inl (New ErrCodeNotFound ''secret version not found'')"
    using assms(3) by (simp add: get_latest_none [OF assms(1)])
  then show ?thesis using assms by (auto simp: cubby_Get_def)
qed

end

section \<open>Properties\<close>

text \<open>
  C17. What a token stores it reads back, whatever the other tokens write, delete or wipe in
  between and however often the master key is rotated; token identifiers contain no slash.
\<close>
theorem Cubbyhole_private:
  assumes "store_wf s" "gcm_laws (kv_aead e)" "kv_crypto e = Some ring" "ring_wf ring"
    "t \<noteq> []" "CHR ''/'' \<notin> set t" "storagePath t p = Inr sp" "data \<noteq> []"
    "json_Marshal (kv_json e) data = Inr raw" "json_Unmarshal (kv_json e) raw = Inr data"
    "pe_uuid env \<noteq> uuid_Nil"
  shows "\<exists>s'. cubby_Put memory_secrets e env t p data s = Inr s' \<and>
    (\<forall>s'' ring'. (others_step memory_secrets t)\<^sup>*\<^sup>* s' s'' \<longrightarrow> ring_step\<^sup>*\<^sup>* ring ring' \<longrightarrow>
       cubby_Get memory_secrets (e\<lparr>kv_crypto := Some ring'\<rparr>) t p s'' = Inr data)"
proof -
  obtain s' where put: "cubby_Put memory_secrets e env t p data s = Inr s'"
    using mem.cubby_put_succeeds [OF assms(1,3-5,7-9,11)] by blast
  have "store_wf s'" using mem.cubby_put_other [OF assms(1) put] by blast
  moreover have "cubby_Get memory_secrets (e\<lparr>kv_crypto := Some ring'\<rparr>) t p s' = Inr data"
    if "ring_step\<^sup>*\<^sup>* ring ring'" for ring'
    using mem.cubby_put_get [OF assms(1) put assms(2-4) that] assms(9,10) by simp
  ultimately show ?thesis using put mem.others_get [OF _ _ assms(6)] by metis
qed

text \<open>
  After a token's cubbyhole is wiped no value of that token can be read, the entries of every
  other token are unchanged, and the result does not depend on which versions were already
  destroyed.
\<close>
theorem WipeToken_leaves_nothing:
  assumes "store_wf s" "t \<noteq> []" "CHR ''/'' \<notin> set t" "WipeToken memory_secrets t s = (f, s')" "kv_crypto e \<noteq> None"
  shows "(\<forall>p data. cubby_Get memory_secrets e t p s' \<noteq> Inr data) \<and>
    (\<forall>t' p. t' \<noteq> t \<longrightarrow> CHR ''/'' \<notin> set t' \<longrightarrow>
       cubby_Get memory_secrets e t' p s' = cubby_Get memory_secrets e t' p s)"
proof (intro conjI allI impI)
  note w = mem.WipeToken_spec [OF assms(1,2,4)]
  show "cubby_Get memory_secrets e t p s' \<noteq> Inr data" for p data
  proof (cases "storagePath t p")
    case (Inl err)
    with assms(2,5) show ?thesis by (auto simp: cubby_Get_def)
  next
    case (Inr sp)
    with w(2) have "\<not> live_in (contents s') sp u sv" for u sv
      using storagePath_HasPrefix [OF Inr assms(3,3)] by blast
    with mem.cubby_get_dead [OF w(1) Inr _ assms(5,2)] show ?thesis by simp
  qed
  show "cubby_Get memory_secrets e t' p s' = cubby_Get memory_secrets e t' p s"
    if "t' \<noteq> t" "CHR ''/'' \<notin> set t'" for t' p
    using that assms(1,3,4)
    by (intro mem.others_get r_into_rtranclp) (auto simp: others_step_def intro: cubby_wipe)
qed

text \<open>
  Deleting an entry that was deleted before and written again removes it, yet reports a
  failure: the destroyed version of the first deletion is destroyed again, and that error is the
  one returned.
\<close>
theorem Delete_spurious_error:
  assumes "store_wf s" "t \<noteq> []" "storagePath t p = Inr sp" "contents s sp u = Some sv" "sv_Destroyed sv"
    "kv_crypto e \<noteq> None"
  shows "\<exists>err s'. cubby_Delete memory_secrets t p s = (Some err, s') \<and>
    cubby_Get memory_secrets e t p s' = Inl (New ErrCodeNotFound ''secret version not found'')"
proof -
  obtain f s' where d: "destroyAllVersions memory_secrets sp s = (f, s')" by fastforce
  note spec = mem.destroyAllVersions_spec [OF assms(1) d]
  have "f \<noteq> None" by (rule mem.destroyAllVersions_error [OF assms(1) d assms(4,5)])
  with d assms(3) mem.cubby_get_dead [OF spec(1) assms(3) spec(2) assms(6,2)] show ?thesis
    by (auto simp: cubby_Delete_def)
qed

section \<open>Witnesses\<close>

lemma demo_storagePath: "storagePath ''t1'' ''a'' = Inr ''cubbyhole/t1/a''"
  by code_simp

lemma demo_cubby_put:
  "store_wf s \<Longrightarrow> \<exists>s'. cubby_Put memory_secrets demo_engine demo_put_env ''t1'' ''a'' [(''k'', Str ''v'')] s = Inr s'"
  by (rule mem.cubby_put_succeeds [where ring = demo_ring1 and raw = "[1]"])
    (simp_all add: demo_kv_defs demo_ring1_wf demo_storagePath uuid_Nil_def)

theorem Cubbyhole_private_witness:
  "\<exists>s' f s''. cubby_Put memory_secrets demo_engine demo_put_env ''t1'' ''a'' [(''k'', Str ''v'')] [] = Inr s' \<and>
     WipeToken memory_secrets ''t2'' s' = (f, s'') \<and>
     cubby_Get memory_secrets (demo_engine\<lparr>kv_crypto := Some demo_ring2\<rparr>) ''t1'' ''a'' s'' = Inr [(''k'', Str ''v'')]"
proof -
  have "store_wf []" by (simp add: store_wf_def)
  from Cubbyhole_private [OF this, of demo_engine demo_ring1 "''t1''" "''a''" _ "[(''k'', Str ''v'')]" "[1]"
      demo_put_env]
  obtain s' where put: "cubby_Put memory_secrets demo_engine demo_put_env ''t1'' ''a'' [(''k'', Str ''v'')] [] = Inr s'"
    and get: "\<And>s'' ring'. (others_step memory_secrets ''t1'')\<^sup>*\<^sup>* s' s'' \<Longrightarrow> ring_step\<^sup>*\<^sup>* demo_ring1 ring' \<Longrightarrow>
       cubby_Get memory_secrets (demo_engine\<lparr>kv_crypto := Some ring'\<rparr>) ''t1'' ''a'' s'' = Inr [(''k'', Str ''v'')]"
    by (auto simp: demo_kv_defs demo_aead_laws demo_ring1_wf demo_storagePath uuid_Nil_def)
  obtain f s'' where w: "WipeToken memory_secrets ''t2'' s' = (f, s'')" by fastforce
  then have "others_step memory_secrets ''t1'' s' s''"
    unfolding others_step_def by (intro exI [of _ "''t2''"]) (auto intro: cubby_wipe)
  with get demo_steps put w show ?thesis by blast
qed

theorem WipeToken_leaves_nothing_witness:
  "\<exists>s' f s''. cubby_Put memory_secrets demo_engine demo_put_env ''t1'' ''a'' [(''k'', Str ''v'')] [] = Inr s' \<and>
     WipeToken memory_secrets ''t1'' s' = (f, s'') \<and> (\<forall>data. cubby_Get memory_secrets demo_engine ''t1'' ''a'' s'' \<noteq> Inr data)"
proof -
  have wf: "store_wf []" by (simp add: store_wf_def)
  obtain s' where put: "cubby_Put memory_secrets demo_engine demo_put_env ''t1'' ''a'' [(''k'', Str ''v'')] [] = Inr s'"
    using demo_cubby_put [OF wf] by blast
  obtain f s'' where w: "WipeToken memory_secrets ''t1'' s' = (f, s'')" by fastforce
  have wf': "store_wf s'" using mem.cubby_put_other [OF wf put] by blast
  show ?thesis
    using WipeToken_leaves_nothing [OF wf' _ _ w, of demo_engine] put w by (auto simp: demo_kv_defs)
qed

definition demo_cubby :: secret_store where
  "demo_cubby = [((''cubbyhole/t1/a'', 2), (demo_sv 2)\<lparr>sv_Path := ''cubbyhole/t1/a''\<rparr>),
    ((''cubbyhole/t1/a'', 1), (demo_sv 1)\<lparr>sv_Path := ''cubbyhole/t1/a'', sv_Destroyed := True\<rparr>)]"

theorem Delete_spurious_error_witness:
  "\<exists>err s'. cubby_Delete memory_secrets ''t1'' ''a'' demo_cubby = (Some err, s') \<and>
     cubby_Get memory_secrets demo_engine ''t1'' ''a'' s' = Inl (New ErrCodeNotFound ''secret version not found'')"
proof -
  have "store_wf demo_cubby" by (simp add: store_wf_def demo_cubby_def demo_sv_def)
  from Delete_spurious_error [OF this _ demo_storagePath, of 1] show ?thesis
    by (simp add: contents_def demo_cubby_def demo_kv_defs)
qed

end
