(* ===== verification/GoEncoding.thy ===== *)
theory GoEncoding
  imports Bytes GoStrings
begin

text \<open>
  The encodings and the hash function the sources take from the standard library: hexadecimal
  (\<^verbatim>\<open>encoding/hex\<close>), unpadded URL-safe base64 (\<^verbatim>\<open>base64.RawURLEncoding\<close>) and SHA-256 (FIPS 180-4).
  A Go string is converted to the bytes of its characters and back.
\<close>

unbundle bit_operations_syntax

definition str_bytes :: "string \<Rightarrow> bytes" where
  "str_bytes = map (\<lambda>c. of_nat (of_char c))"

definition bytes_str :: "bytes \<Rightarrow> string" where
  "bytes_str = map (\<lambda>b. char_of (unat b))"

lemma bytes_str_str_bytes [simp]: "bytes_str (str_bytes s) = s"
  by (induction s) (auto simp: bytes_str_def str_bytes_def unat_of_nat)

section \<open>Hexadecimal\<close>

definition hextable :: string where "hextable = ''0123456789abcdef''"

definition hex_digit :: "nat \<Rightarrow> char" where
  "hex_digit n = hextable ! n"

fun hex_EncodeToString :: "bytes \<Rightarrow> string" where
  "hex_EncodeToString [] = []"
| "hex_EncodeToString (b # bs) = hex_digit (unat b div 16) # hex_digit (unat b mod 16) # hex_EncodeToString bs"

definition fromHexChar :: "char \<Rightarrow> nat option" where
  "fromHexChar c =
     (let n = of_char c :: nat
      in if 48 \<le> n \<and> n \<le> 57 then Some (n - 48)
         else if 97 \<le> n \<and> n \<le> 102 then Some (n - 87)
         else if 65 \<le> n \<and> n \<le> 70 then Some (n - 55)
         else None)"

fun hex_DecodeString :: "string \<Rightarrow> bytes option" where
  "hex_DecodeString [] = Some []"
| "hex_DecodeString [c] = None"
| "hex_DecodeString (c # d # s) =
     (case (fromHexChar c, fromHexChar d, hex_DecodeString s) of
        (Some h, Some l, Some bs) \<Rightarrow> Some (of_nat (16 * h + l) # bs)
      | _ \<Rightarrow> None)"

section \<open>Base64\<close>

definition encodeURL :: string where
  "encodeURL = ''ABCDEFGHIJKLMNOPQRSTUVWXYZabcdefghijklmnopqrstuvwxyz0123456789-_''"

definition b64_char :: "nat \<Rightarrow> char" where
  "b64_char n = encodeURL ! (n mod 64)"

fun RawURLEncode :: "bytes \<Rightarrow> string" where
  "RawURLEncode [] = []"
| "RawURLEncode [a] = (let v = unat a * 16 in [b64_char (v div 64), b64_char v])"
| "RawURLEncode [a, b] =
     (let v = (unat a * 256 + unat b) * 4 in [b64_char (v div 4096), b64_char (v div 64), b64_char v])"
| "RawURLEncode (a # b # c # bs) =
     (let v = (unat a * 256 + unat b) * 256 + unat c
      in b64_char (v div 262144) # b64_char (v div 4096) # b64_char (v div 64) # b64_char v # RawURLEncode bs)"

section \<open>SHA-256\<close>

type_synonym word32 = "32 word"

text \<open>
  The round constants and the initial state are, as the standard defines them, the first 32 bits
  of the fractional parts of the cube roots of the first 64 primes and of the square roots of the
  first 8. The roots are computed bit by bit.
\<close>

primrec root_bits :: "nat \<Rightarrow> nat \<Rightarrow> nat \<Rightarrow> nat \<Rightarrow> nat" where
  "root_bits k n 0 x = x"
| "root_bits k n (Suc b) x = root_bits k n b (if (x + 2 ^ b) ^ k \<le> n then x + 2 ^ b else x)"

definition small_primes :: "nat list" where
  "small_primes = filter (\<lambda>n. list_all (\<lambda>d. n mod d \<noteq> 0) [2..<n]) [2..<312]"

definition sha256_K :: "word32 list" where
  "sha256_K = map (\<lambda>p. of_nat (root_bits 3 (p * 2 ^ 96) 35 0)) small_primes"

definition sha256_init :: "word32 list" where
  "sha256_init = map (\<lambda>p. of_nat (root_bits 2 (p * 2 ^ 64) 35 0)) [2, 3, 5, 7, 11, 13, 17, 19]"

definition rotr :: "nat \<Rightarrow> word32 \<Rightarrow> word32" where
  "rotr n w = drop_bit n w OR push_bit (32 - n) w"

primrec sha256_extend :: "nat \<Rightarrow> word32 list \<Rightarrow> word32 list" where
  "sha256_extend 0 ws = ws"
| "sha256_extend (Suc n) ws =
     (let i = length ws; v1 = ws ! (i - 2); v2 = ws ! (i - 15);
          t1 = rotr 17 v1 XOR rotr 19 v1 XOR drop_bit 10 v1;
          t2 = rotr 7 v2 XOR rotr 18 v2 XOR drop_bit 3 v2
      in sha256_extend n (ws @ [t1 + ws ! (i - 7) + t2 + ws ! (i - 16)]))"

definition sha256_round :: "word32 \<times> word32 \<Rightarrow> word32 list \<Rightarrow> word32 list" where
  "sha256_round kw st =
     (case st of
        [a, b, c, d, e, f, g, h] \<Rightarrow>
          (let t1 = h + (rotr 6 e XOR rotr 11 e XOR rotr 25 e) + ((e AND f) XOR (NOT e AND g)) + fst kw + snd kw;
               t2 = (rotr 2 a XOR rotr 13 a XOR rotr 22 a) + ((a AND b) XOR (a AND c) XOR (b AND c))
           in [t1 + t2, a, b, c, d + t1, e, f, g])
      | _ \<Rightarrow> st)"

fun be_words :: "bytes \<Rightarrow> word32 list" where
  "be_words (a # b # c # d # bs) =
     (push_bit 24 (ucast a) OR push_bit 16 (ucast b) OR push_bit 8 (ucast c) OR ucast d) # be_words bs"
| "be_words _ = []"

definition sha256_block :: "bytes \<Rightarrow> word32 list \<Rightarrow> word32 list" where
  "sha256_block p st =
     map2 (+) st (fold sha256_round (zip sha256_K (sha256_extend 48 (be_words p))) st)"

fun sha256_blocks :: "nat \<Rightarrow> bytes \<Rightarrow> word32 list \<Rightarrow> word32 list" where
  "sha256_blocks 0 p st = st"
| "sha256_blocks (Suc n) p st = sha256_blocks n (drop 64 p) (sha256_block (take 64 p) st)"

primrec be_bytes :: "nat \<Rightarrow> nat \<Rightarrow> bytes" where
  "be_bytes 0 n = []"
| "be_bytes (Suc k) n = be_bytes k (n div 256) @ [of_nat n]"

definition sha256_pad :: "bytes \<Rightarrow> bytes" where
  "sha256_pad m = m @ [0x80] @ replicate ((119 - length m mod 64) mod 64) 0 @ be_bytes 8 (8 * length m)"

definition Sum256 :: "bytes \<Rightarrow> bytes" where
  "Sum256 m =
     (let p = sha256_pad m
      in concat (map (\<lambda>w. be_bytes 4 (unat w)) (sha256_blocks (length p div 64) p sha256_init)))"

text \<open>HMAC with SHA-256 (RFC 2104).\<close>

definition hmac_key :: "bytes \<Rightarrow> bytes" where
  "hmac_key key = (let k = (if 64 < length key then Sum256 key else key) in k @ replicate (64 - length k) 0)"

definition hmac_sha256 :: "bytes \<Rightarrow> bytes \<Rightarrow> bytes" where
  "hmac_sha256 key m =
     Sum256 (map (\<lambda>b. b XOR 0x5c) (hmac_key key) @ Sum256 (map (\<lambda>b. b XOR 0x36) (hmac_key key) @ m))"

text \<open>The hexadecimal digest of a string, as every identifier derived from a token is computed.\<close>

definition sha256_hex :: "string \<Rightarrow> string" where
  "sha256_hex s = hex_EncodeToString (Sum256 (str_bytes s))"

section \<open>Shape of the digests\<close>

lemma hex_digits: "n < 16 \<Longrightarrow> hex_digit n \<in> set hextable \<and> fromHexChar (hex_digit n) = Some n"
proof -
  have "\<forall>n \<in> set [0..<16]. hex_digit n \<in> set hextable \<and> fromHexChar (hex_digit n) = Some n" by code_simp
  then show "n < 16 \<Longrightarrow> hex_digit n \<in> set hextable \<and> fromHexChar (hex_digit n) = Some n" by auto
qed

lemma byte_nibbles: "unat (b :: byte) div 16 < 16" "unat b mod 16 < 16"
  using unsigned_less [of b, where 'a = nat] by auto

lemma set_hex: "set (hex_EncodeToString bs) \<subseteq> set hextable"
proof (induction bs)
  case (Cons b bs)
  then show ?case using hex_digits [OF byte_nibbles(1) [of b]] hex_digits [OF byte_nibbles(2) [of b]] by auto
qed simp

lemma hex_no_slash: "CHR ''/'' \<notin> set (hex_EncodeToString bs)"
  using set_hex [of bs] by (auto simp: hextable_def)

lemma hex_no_bar: "CHR ''|'' \<notin> set (hex_EncodeToString bs)"
  using set_hex [of bs] by (auto simp: hextable_def)

lemma length_hex: "length (hex_EncodeToString bs) = 2 * length bs"
  by (induction bs rule: hex_EncodeToString.induct) auto

lemma length_be_bytes [simp]: "length (be_bytes k n) = k"
  by (induction k arbitrary: n) auto

lemma sha256_round_length: "length st = 8 \<Longrightarrow> length (sha256_round kw st) = 8"
  by (auto simp: sha256_round_def Let_def split: list.splits)

lemma fold_round_length: "length st = 8 \<Longrightarrow> length (fold sha256_round kws st) = 8"
  by (induction kws arbitrary: st) (auto simp: sha256_round_length)

lemma sha256_blocks_length: "length st = 8 \<Longrightarrow> length (sha256_blocks n p st) = 8"
  by (induction n p st rule: sha256_blocks.induct) (auto simp: sha256_block_def fold_round_length)

lemma length_Sum256: "length (Sum256 m) = 32"
  by (simp add: Sum256_def Let_def length_concat comp_def sum_list_triv sha256_blocks_length sha256_init_def)

lemma sha256_hex_no_slash [simp]: "CHR ''/'' \<notin> set (sha256_hex s)"
  by (simp add: sha256_hex_def hex_no_slash)

lemma length_sha256_hex: "length (sha256_hex s) = 64"
  by (simp add: sha256_hex_def length_hex length_Sum256)

lemma sha256_hex_not_Nil [simp]: "sha256_hex s \<noteq> []"
  using length_sha256_hex [of s] by auto

section \<open>Decoding what was encoded\<close>

lemma hex_roundtrip: "hex_DecodeString (hex_EncodeToString bs) = Some bs"
proof (induction bs)
  case (Cons b bs)
  have "of_nat (16 * (unat b div 16) + unat b mod 16) = b" by (simp only: mult_div_mod_eq of_nat_unat ucast_id)
  with Cons show ?case using hex_digits [OF byte_nibbles(1) [of b]] hex_digits [OF byte_nibbles(2) [of b]] by simp
qed simp

end
