(* ===== verification/Wrapping.thy ===== *)
theory Wrapping
  imports Cubbyhole GoEncoding "HOL-Library.Countable"
begin

text \<open>
  Response wrapping, \<^verbatim>\<open>internal/service/wrapping.go\<close>: single-use tokens for a payload. The payload
  lies in the cubbyhole of the token's hash; the metadata, with the mark that the token was used,
  is a sealed secret version that every node of a cluster shares, beside a map local to the node.
  Both stores are the same secret repository. Audit records are left out.

  \<^verbatim>\<open>Unwrap\<close> holds the node's mutex while it loads the metadata and marks the token used, so the
  repository operations of two nodes may interleave: the step relation at the end has the loading
  and the marking as separate steps.
\<close>

section \<open>Metadata\<close>

record wrapMeta =
  wm_ExpiresAt :: go_time
  wm_Used :: bool
  wm_Creation :: go_time
  wm_casVersion :: "int option"

record WrapResult =
  wr_Token :: string
  wr_TTL :: int
  wr_Creation :: go_time
  wr_ExpiresAt :: go_time

text \<open>
  The JSON encoding of the metadata is a parameter; the field \<^verbatim>\<open>casVersion\<close> is not part of it. The
  flag \<^verbatim>\<open>wc_repo\<close> tells whether \<^verbatim>\<open>AttachStorage\<close> was called, \<^verbatim>\<open>wc_cubby\<close> whether the cubbyhole
  engine is present.
\<close>

record wrap_cfg =
  wc_engine :: kv_engine
  wc_cubby :: bool
  wc_repo :: bool
  wc_Marshal :: "wrapMeta \<Rightarrow> bytes res"
  wc_Unmarshal :: "bytes \<Rightarrow> wrapMeta res"
  wc_maxTTL :: duration

type_synonym wraps = "(string \<times> wrapMeta) list"

definition wrapPath :: string where "wrapPath = ''response''"

definition wrapMetaPrefix :: string where "wrapMetaPrefix = ''sys/wrapping/meta/''"

definition hashWrap :: "string \<Rightarrow> string" where
  "hashWrap token = sha256_hex token"

definition wrapping_not_configured :: error where
  "wrapping_not_configured = New ErrCodeInternal ''wrapping not configured''"

definition wrap_not_found :: error where
  "wrap_not_found = New ErrCodeNotFound ''wrapping token not found''"

definition wrap_crypto :: "wrap_cfg \<Rightarrow> KeyRing option" where
  "wrap_crypto cfg = (if wc_repo cfg then kv_crypto (wc_engine cfg) else None)"

definition putMetaLocked :: "'s SecretRepository \<Rightarrow> wrap_cfg \<Rightarrow> put_env \<Rightarrow> string \<Rightarrow> wrapMeta \<Rightarrow> wraps \<times> 's
    \<Rightarrow> error option \<times> wraps \<times> 's" where
  "putMetaLocked repo cfg env i meta st =
     (let wraps' = AList.update i meta (fst st); s = snd st
      in case wrap_crypto cfg of
        None \<Rightarrow> (None, wraps', s)
      | Some ring \<Rightarrow>
      (case wc_Marshal cfg meta of
        Inl err \<Rightarrow> (Some err, wraps', s)
      | Inr raw \<Rightarrow>
      (case Seal (kv_aead (wc_engine cfg)) (pe_rnd env) ring raw of
        Inl err \<Rightarrow> (Some err, wraps', s)
      | Inr (dataEnc, dekEnc) \<Rightarrow>
      (case repo_PutAtomic repo
              (new_version env (wrapMetaPrefix @ i) dataEnc dekEnc None None [''engine'' \<mapsto> ''wrapping''])
              (wm_casVersion meta) 1 s of
         Inl err \<Rightarrow> (Some err, wraps', s)
       | Inr (_, s') \<Rightarrow> (None, wraps', s')))))"

definition local_meta :: "string \<Rightarrow> wraps \<Rightarrow> wrapMeta res \<times> wraps" where
  "local_meta i wraps =
     (case map_of wraps i of Some meta \<Rightarrow> (Inr meta, wraps) | None \<Rightarrow> (Inl wrap_not_found, wraps))"

definition getMetaLocked :: "'s SecretRepository \<Rightarrow> wrap_cfg \<Rightarrow> string \<Rightarrow> wraps \<times> 's \<Rightarrow> wrapMeta res \<times> wraps" where
  "getMetaLocked repo cfg i st =
     (let wraps = fst st; s = snd st
      in case wrap_crypto cfg of
        None \<Rightarrow> local_meta i wraps
      | Some ring \<Rightarrow>
      (case repo_GetLatest repo (wrapMetaPrefix @ i) s of
        Inl _ \<Rightarrow> local_meta i wraps
      | Inr sv \<Rightarrow>
      (case Open (kv_aead (wc_engine cfg)) ring (sv_DataEnc sv) (sv_DEKEnc sv) of
        Inl err \<Rightarrow> (Inl err, wraps)
      | Inr plain \<Rightarrow>
      (case wc_Unmarshal cfg plain of
        Inl err \<Rightarrow> (Inl err, wraps)
      | Inr meta0 \<Rightarrow>
          (let meta = meta0\<lparr>wm_casVersion := Some (sv_Version sv)\<rparr>
           in (Inr meta, AList.update i meta wraps))))))"

section \<open>Garbage collection\<close>

definition wrap_done :: "go_time \<Rightarrow> wrapMeta \<Rightarrow> bool" where
  "wrap_done now meta \<longleftrightarrow> wm_Used meta \<or> wm_ExpiresAt meta < now"

definition gc_meta :: "'s SecretRepository \<Rightarrow> wrap_cfg \<Rightarrow> string \<Rightarrow> 's \<Rightarrow> 's" where
  "gc_meta repo cfg i s =
     (if wc_repo cfg
      then (case repo_GetLatest repo (wrapMetaPrefix @ i) s of
              Inl _ \<Rightarrow> s
            | Inr sv \<Rightarrow>
                (case repo_DestroyVersion repo (sv_Path sv) (sv_Version sv) s of Inl _ \<Rightarrow> s | Inr s' \<Rightarrow> s'))
      else s)"

definition gc_entry :: "'s SecretRepository \<Rightarrow> wrap_cfg \<Rightarrow> go_time \<Rightarrow> string \<times> wrapMeta \<Rightarrow> 's \<Rightarrow> 's" where
  "gc_entry repo cfg now im s =
     (if wrap_done now (snd im)
      then snd (cubby_Delete repo (fst im) wrapPath (gc_meta repo cfg (fst im) s))
      else s)"

definition gcExpiredLocked :: "'s SecretRepository \<Rightarrow> wrap_cfg \<Rightarrow> go_time \<Rightarrow> wraps \<times> 's \<Rightarrow> wraps \<times> 's" where
  "gcExpiredLocked repo cfg now st =
     (filter (\<lambda>(_, meta). \<not> wrap_done now meta) (fst st), fold (gc_entry repo cfg now) (fst st) (snd st))"

section \<open>Operations\<close>

text \<open>What one call of \<^verbatim>\<open>Wrap\<close> takes from outside: random bytes, clock readings, identifiers.\<close>

record wrap_env =
  we_rnd :: entropy
  we_now :: go_time
  we_put :: put_env
  we_meta :: put_env
  we_gc_now :: go_time

definition wrap_ttl :: "wrap_cfg \<Rightarrow> duration \<Rightarrow> duration" where
  "wrap_ttl cfg ttl =
     (let t = (if ttl \<le> 0 then 60 * Second else ttl)
      in if wc_maxTTL cfg < t then wc_maxTTL cfg else t)"

definition wrap_token :: "entropy \<Rightarrow> string" where
  "wrap_token rnd = ''knxw_'' @ RawURLEncode (ReadFull rnd 32)"

definition Wrap_payload :: "'s SecretRepository \<Rightarrow> wrap_cfg \<Rightarrow> wrap_env \<Rightarrow> any_map \<Rightarrow> duration \<Rightarrow> wraps \<times> 's
    \<Rightarrow> WrapResult res \<times> wraps \<times> 's" where
  "Wrap_payload repo cfg env payload ttl0 st =
     (if \<not> wc_cubby cfg then (Inl wrapping_not_configured, st)
      else if payload = [] then (Inl (New ErrCodeValidation ''payload required''), st)
      else (let ttl = wrap_ttl cfg ttl0; token = wrap_token (we_rnd env); i = hashWrap token;
                now = we_now env; exp = now + ttl
            in case cubby_Put repo (wc_engine cfg) (we_put env) i wrapPath payload (snd st) of
                 Inl err \<Rightarrow> (Inl err, st)
               | Inr s1 \<Rightarrow>
                 (case putMetaLocked repo cfg (we_meta env) i
                         \<lparr>wm_ExpiresAt = exp, wm_Used = False, wm_Creation = now, wm_casVersion = None\<rparr>
                         (fst st, s1) of
                    (Some err, wraps2, s2) \<Rightarrow> (Inl err, wraps2, snd (cubby_Delete repo i wrapPath s2))
                  | (None, wraps2, s2) \<Rightarrow>
                      (Inr \<lparr>wr_Token = token, wr_TTL = ttl div Second, wr_Creation = now, wr_ExpiresAt = exp\<rparr>,
                       gcExpiredLocked repo cfg (we_gc_now env) (wraps2, s2)))))"

text \<open>The part of \<^verbatim>\<open>Unwrap\<close> before the mark: load the metadata and check it.\<close>

definition unwrap_load :: "'s SecretRepository \<Rightarrow> wrap_cfg \<Rightarrow> go_time \<Rightarrow> string \<Rightarrow> wraps \<times> 's \<Rightarrow> wrapMeta res \<times> wraps" where
  "unwrap_load repo cfg now i st =
     (case getMetaLocked repo cfg i st of
        (Inl err, wraps1) \<Rightarrow> (Inl err, wraps1)
      | (Inr meta, wraps1) \<Rightarrow>
          if wm_Used meta then (Inl (New ErrCodeForbidden ''wrapping token already used''), wraps1)
          else if wm_ExpiresAt meta < now then (Inl (New ErrCodeForbidden ''wrapping token expired''), wraps1)
          else (Inr (meta\<lparr>wm_Used := True\<rparr>), wraps1))"

definition unwrap_claim :: "'s SecretRepository \<Rightarrow> wrap_cfg \<Rightarrow> put_env \<Rightarrow> go_time \<Rightarrow> string \<Rightarrow> wraps \<times> 's
    \<Rightarrow> error option \<times> wraps \<times> 's" where
  "unwrap_claim repo cfg env now i st =
     (case unwrap_load repo cfg now i st of
        (Inl err, wraps1) \<Rightarrow> (Some err, wraps1, snd st)
      | (Inr meta, wraps1) \<Rightarrow> putMetaLocked repo cfg env i meta (wraps1, snd st))"

definition Unwrap :: "'s SecretRepository \<Rightarrow> wrap_cfg \<Rightarrow> put_env \<Rightarrow> go_time \<Rightarrow> string \<Rightarrow> wraps \<times> 's
    \<Rightarrow> any_map res \<times> wraps \<times> 's" where
  "Unwrap repo cfg env now token st =
     (if \<not> wc_cubby cfg then (Inl wrapping_not_configured, st)
      else (let i = hashWrap token
            in case unwrap_claim repo cfg env now i st of
                 (Some err, wraps1, s1) \<Rightarrow> (Inl err, wraps1, s1)
               | (None, wraps1, s1) \<Rightarrow>
                   (case cubby_Get repo (wc_engine cfg) i wrapPath s1 of
                      Inl err \<Rightarrow> (Inl err, wraps1, s1)
                    | Inr data \<Rightarrow> (Inr data, wraps1, snd (cubby_Delete repo i wrapPath s1)))))"

text \<open>\<^verbatim>\<open>Lookup\<close> reads the clock a second time for the remaining time.\<close>

definition wrap_Lookup :: "'s SecretRepository \<Rightarrow> wrap_cfg \<Rightarrow> go_time \<Rightarrow> go_time \<Rightarrow> string \<Rightarrow> wraps \<times> 's
    \<Rightarrow> WrapResult res \<times> wraps" where
  "wrap_Lookup repo cfg now now2 token st =
     (case getMetaLocked repo cfg (hashWrap token) st of
        (Inl err, wraps1) \<Rightarrow> (Inl err, wraps1)
      | (Inr meta, wraps1) \<Rightarrow>
          if wm_Used meta then (Inl wrap_not_found, wraps1)
          else if wm_ExpiresAt meta < now then (Inl (New ErrCodeForbidden ''wrapping token expired''), wraps1)
          else (let ttl = (wm_ExpiresAt meta - now2) div Second
                in (Inr \<lparr>wr_Token = [], wr_TTL = if ttl < 0 then 0 else ttl,
                         wr_Creation = wm_Creation meta, wr_ExpiresAt = wm_ExpiresAt meta\<rparr>, wraps1)))"

section \<open>Concurrent unwrapping\<close>

text \<open>
  The calls of \<^verbatim>\<open>Unwrap\<close> for one token, each on some node. A call is idle, has loaded and checked
  the metadata, has marked the token (and may fetch the payload), or has failed. Two calls on one
  node may interleave here as well, which the mutex excludes: the relation allows more than the
  program does. The parameter \<^verbatim>\<open>other\<close> is what the rest of the system does to the shared store
  between two steps.
\<close>

datatype unwrap_pc = Idle | Loaded wrapMeta | Claimed | Failed

record 's cluster =
  cl_store :: 's
  cl_wraps :: "nat \<Rightarrow> wraps"
  cl_pc :: "nat \<Rightarrow> unwrap_pc"

definition set_call :: "nat \<Rightarrow> unwrap_pc \<Rightarrow> nat \<Rightarrow> wraps \<Rightarrow> 's \<Rightarrow> 's cluster \<Rightarrow> 's cluster" where
  "set_call p pc nd w s c =
     c\<lparr>cl_store := s, cl_wraps := (cl_wraps c)(nd := w), cl_pc := (cl_pc c)(p := pc)\<rparr>"

inductive unwrap_step :: "'s SecretRepository \<Rightarrow> wrap_cfg \<Rightarrow> string \<Rightarrow> ('s \<Rightarrow> 's \<Rightarrow> bool) \<Rightarrow> 's cluster \<Rightarrow> 's cluster \<Rightarrow> bool"
  for repo cfg i other where
  load_ok: "cl_pc c p = Idle \<Longrightarrow> unwrap_load repo cfg now i (cl_wraps c nd, cl_store c) = (Inr meta, w) \<Longrightarrow>
    unwrap_step repo cfg i other c (set_call p (Loaded meta) nd w (cl_store c) c)"
| load_err: "cl_pc c p = Idle \<Longrightarrow> unwrap_load repo cfg now i (cl_wraps c nd, cl_store c) = (Inl err, w) \<Longrightarrow>
    unwrap_step repo cfg i other c (set_call p Failed nd w (cl_store c) c)"
| mark_ok: "cl_pc c p = Loaded meta \<Longrightarrow> putMetaLocked repo cfg env i meta (cl_wraps c nd, cl_store c) = (None, w, s) \<Longrightarrow>
    unwrap_step repo cfg i other c (set_call p Claimed nd w s c)"
| mark_err: "cl_pc c p = Loaded meta \<Longrightarrow> putMetaLocked repo cfg env i meta (cl_wraps c nd, cl_store c) = (Some err, w, s) \<Longrightarrow>
    unwrap_step repo cfg i other c (set_call p Failed nd w s c)"
| elsewhere: "other (cl_store c) s \<Longrightarrow> unwrap_step repo cfg i other c (c\<lparr>cl_store := s\<rparr>)"

section \<open>Loading and storing metadata\<close>

text \<open>A service with storage attached, whose encodings and ciphers keep their documented promises.\<close>

definition wrap_ok :: "wrap_cfg \<Rightarrow> KeyRing \<Rightarrow> bool" where
  "wrap_ok cfg ring \<longleftrightarrow> wc_repo cfg \<and> wc_cubby cfg \<and> kv_crypto (wc_engine cfg) = Some ring \<and> ring_wf ring \<and>
     gcm_laws (kv_aead (wc_engine cfg)) \<and>
     (\<forall>m raw. wc_Marshal cfg m = Inr raw \<longrightarrow> wc_Unmarshal cfg raw = Inr (m\<lparr>wm_casVersion := None\<rparr>))"

lemma wrap_okD:
  assumes "wrap_ok cfg ring"
  shows "wc_repo cfg" "wc_cubby cfg" "kv_crypto (wc_engine cfg) = Some ring" "ring_wf ring"
    "gcm_laws (kv_aead (wc_engine cfg))" "wrap_crypto cfg = Some ring"
    "wc_Marshal cfg m = Inr raw \<Longrightarrow> wc_Unmarshal cfg raw = Inr (m\<lparr>wm_casVersion := None\<rparr>)"
  using assms by (auto simp: wrap_ok_def wrap_crypto_def)

text \<open>The metadata the latest stored version holds.\<close>

definition meta_in :: "'s SecretRepository \<Rightarrow> wrap_cfg \<Rightarrow> KeyRing \<Rightarrow> string \<Rightarrow> 's \<Rightarrow> SecretVersion \<Rightarrow> wrapMeta \<Rightarrow> bool" where
  "meta_in repo cfg ring i s sv m \<longleftrightarrow> repo_GetLatest repo (wrapMetaPrefix @ i) s = Inr sv \<and>
     (\<exists>raw. Open (kv_aead (wc_engine cfg)) ring (sv_DataEnc sv) (sv_DEKEnc sv) = Inr raw \<and> wc_Unmarshal cfg raw = Inr m)"

text \<open>
  Before the first mark every loaded call carries the latest version number for the
  check-and-set; afterwards every loaded call carries a smaller one.
\<close>

definition claim_inv :: "'s SecretRepository \<Rightarrow> wrap_cfg \<Rightarrow> KeyRing \<Rightarrow> string \<Rightarrow> 's cluster \<Rightarrow> bool" where
  "claim_inv repo cfg ring i c \<longleftrightarrow>
     (\<exists>sv. repo_GetLatest repo (wrapMetaPrefix @ i) (cl_store c) = Inr sv \<and>
       ((\<forall>p. cl_pc c p \<noteq> Claimed) \<and>
        (\<forall>p m. cl_pc c p = Loaded m \<longrightarrow> wm_Used m \<and> wm_casVersion m = Some (sv_Version sv)) \<or>
        (\<exists>m. meta_in repo cfg ring i (cl_store c) sv m \<and> wm_Used m) \<and> (\<exists>!p. cl_pc c p = Claimed) \<and>
        (\<forall>p m. cl_pc c p = Loaded m \<longrightarrow> wm_Used m \<and> (\<exists>v. wm_casVersion m = Some v \<and> v < sv_Version sv))))"

context secret_repository
begin

lemma getMeta_latest:
  assumes "wrap_ok cfg ring" "meta_in repo cfg ring i s sv m"
  shows "getMetaLocked repo cfg i (w, s) =
    (Inr (m\<lparr>wm_casVersion := Some (sv_Version sv)\<rparr>), AList.update i (m\<lparr>wm_casVersion := Some (sv_Version sv)\<rparr>) w)"
  using assms(2) wrap_okD [OF assms(1)] by (auto simp: getMetaLocked_def meta_in_def Let_def)

lemma getMeta_cas:
  assumes "wrap_ok cfg ring" "repo_GetLatest repo (wrapMetaPrefix @ i) s = Inr sv"
    "getMetaLocked repo cfg i (w, s) = (Inr m, w')"
  shows "wm_casVersion m = Some (sv_Version sv)"
  using assms(2,3) wrap_okD [OF assms(1)] by (auto simp: getMetaLocked_def Let_def split: sum.splits)

lemma putMetaE:
  assumes "wrap_ok cfg ring" "putMetaLocked repo cfg env i m (w, s) = (None, w', s')"
  obtains raw c d v where "wc_Marshal cfg m = Inr raw"
    "Seal (kv_aead (wc_engine cfg)) (pe_rnd env) ring raw = Inr (c, d)"
    "repo_PutAtomic repo (new_version env (wrapMetaPrefix @ i) c d None None [''engine'' \<mapsto> ''wrapping''])
       (wm_casVersion m) 1 s = Inr (v, s')" "w' = AList.update i m w"
  using assms(2) wrap_okD(6) [OF assms(1)] by (auto simp: putMetaLocked_def Let_def split: sum.splits)

lemma putMeta_error:
  assumes "putMetaLocked repo cfg env i m (w, s) = (Some err, w', s')"
  shows "s' = s"
  using assms by (auto simp: putMetaLocked_def Let_def split: sum.splits option.splits)

lemma putMeta_spec:
  assumes "wrap_ok cfg ring" "inv s" "putMetaLocked repo cfg env i m (w, s) = (None, w', s')"
  shows "inv s' \<and> (\<exists>sv. meta_in repo cfg ring i s' sv (m\<lparr>wm_casVersion := None\<rparr>) \<and>
      (\<forall>sv0. repo_GetLatest repo (wrapMetaPrefix @ i) s = Inr sv0 \<longrightarrow> sv_Version sv0 < sv_Version sv)) \<and>
    (\<forall>c. wm_casVersion m = Some c \<longrightarrow>
      (\<exists>sv0. repo_GetLatest repo (wrapMetaPrefix @ i) s = Inr sv0 \<and> sv_Version sv0 = c)) \<and>
    (\<forall>q. q \<noteq> wrapMetaPrefix @ i \<longrightarrow> stored s' q = stored s q)"
proof (rule putMetaE [OF assms(1,3)])
  fix raw c d v
  let ?p = "wrapMetaPrefix @ i"
  let ?sv = "new_version env ?p c d None None [''engine'' \<mapsto> ''wrapping'']"
  assume m: "wc_Marshal cfg m = Inr raw" and seal: "Seal (kv_aead (wc_engine cfg)) (pe_rnd env) ring raw = Inr (c, d)"
    and put: "repo_PutAtomic repo ?sv (wm_casVersion m) 1 s = Inr (v, s')"
  have "meta_in repo cfg ring i s' (?sv\<lparr>sv_Version := v\<rparr>) (m\<lparr>wm_casVersion := None\<rparr>)"
    using put_latest [OF assms(2) put] Seal_opens [OF wrap_okD(5,4) [OF assms(1)] seal rtranclp.rtrancl_refl]
      wrap_okD(7) [OF assms(1) m] by (simp add: meta_in_def)
  moreover have "sv_Version sv0 < v" if "repo_GetLatest repo ?p s = Inr sv0" for sv0
    using that put_fresh [OF assms(2) put, of "sv_Version sv0" sv0]
    by (auto simp: get_latest [OF assms(2)] live_in_def)
  moreover have "\<exists>sv0. repo_GetLatest repo ?p s = Inr sv0 \<and> sv_Version sv0 = k" if "wm_casVersion m = Some k" for k
    using put_cas [OF assms(2)] put that by fastforce
  moreover have "inv s'" using put_inv [OF assms(2) put] by simp
  moreover have "stored s' q = stored s q" if "q \<noteq> ?p" for q
    using put_elsewhere [OF assms(2) put] that by simp
  ultimately show ?thesis
    by (intro conjI exI [of _ "?sv\<lparr>sv_Version := v\<rparr>"]) auto
qed

lemma load_cas:
  assumes "wrap_ok cfg ring" "repo_GetLatest repo (wrapMetaPrefix @ i) s = Inr sv"
    "unwrap_load repo cfg now i (w, s) = (Inr m, w')"
  shows "wm_casVersion m = Some (sv_Version sv) \<and> wm_Used m"
  using assms(3) getMeta_cas [OF assms(1,2)]
  by (auto simp: unwrap_load_def split: prod.splits sum.splits if_splits)

lemma load_used:
  assumes "wrap_ok cfg ring" "meta_in repo cfg ring i s sv m" "wm_Used m"
  shows "unwrap_load repo cfg now i (w, s) \<noteq> (Inr m', w')"
  using getMeta_latest [OF assms(1,2)] assms(3) by (simp add: unwrap_load_def)

section \<open>At most one call claims a token\<close>

lemma mark_claims:
  assumes "wrap_ok cfg ring" "inv (cl_store c)" "claim_inv repo cfg ring i c" "cl_pc c p = Loaded m"
    "putMetaLocked repo cfg env i m (cl_wraps c nd, cl_store c) = (None, w, s)"
  shows "claim_inv repo cfg ring i (set_call p Claimed nd w s c)"
proof -
  note put = putMeta_spec [OF assms(1,2,5)]
  obtain sv where sv: "repo_GetLatest repo (wrapMetaPrefix @ i) (cl_store c) = Inr sv"
    and cases: "(\<forall>p. cl_pc c p \<noteq> Claimed) \<and>
        (\<forall>p m. cl_pc c p = Loaded m \<longrightarrow> wm_Used m \<and> wm_casVersion m = Some (sv_Version sv)) \<or>
        (\<forall>p m. cl_pc c p = Loaded m \<longrightarrow> wm_Used m \<and> (\<exists>v. wm_casVersion m = Some v \<and> v < sv_Version sv))"
    using assms(3) by (auto simp: claim_inv_def)
  have "\<not> (\<exists>v. wm_casVersion m = Some v \<and> v < sv_Version sv)" using put sv by auto
  with cases assms(4) have no: "\<forall>p. cl_pc c p \<noteq> Claimed" and
    all: "\<And>p m. cl_pc c p = Loaded m \<Longrightarrow> wm_Used m \<and> wm_casVersion m = Some (sv_Version sv)" by blast+
  obtain sv' where sv': "meta_in repo cfg ring i s sv' (m\<lparr>wm_casVersion := None\<rparr>)" "sv_Version sv < sv_Version sv'"
    using put sv by blast
  let ?c = "set_call p Claimed nd w s c"
  have "\<exists>!q. cl_pc ?c q = Claimed" using no by (auto simp: set_call_def)
  moreover have "\<exists>m. meta_in repo cfg ring i (cl_store ?c) sv' m \<and> wm_Used m"
    using sv'(1) all [OF assms(4)] by (auto simp: set_call_def)
  moreover have "\<forall>q m. cl_pc ?c q = Loaded m \<longrightarrow> wm_Used m \<and> (\<exists>v. wm_casVersion m = Some v \<and> v < sv_Version sv')"
    using all sv'(2) by (auto simp: set_call_def)
  ultimately show ?thesis
    unfolding claim_inv_def by (intro exI [of _ sv']) (auto simp: meta_in_def)
qed

lemma fail_keeps_claims:
  assumes "claim_inv repo cfg ring i c" "cl_pc c p \<noteq> Claimed"
  shows "claim_inv repo cfg ring i (set_call p Failed nd w (cl_store c) c)"
proof -
  let ?c = "set_call p Failed nd w (cl_store c) c"
  have pc: "cl_pc ?c q = Claimed \<longleftrightarrow> cl_pc c q = Claimed" "cl_pc ?c q = Loaded m \<Longrightarrow> cl_pc c q = Loaded m" for q m
    using assms(2) by (auto simp: set_call_def split: if_splits)
  have st: "cl_store ?c = cl_store c" by (simp add: set_call_def)
  from assms(1) show ?thesis unfolding claim_inv_def pc(1) st using pc(2) by blast
qed

lemma unwrap_step_inv:
  assumes "unwrap_step repo cfg i other c c'" "wrap_ok cfg ring" "inv (cl_store c)" "claim_inv repo cfg ring i c"
    and other: "\<And>s s'. other s s' \<Longrightarrow> inv s \<Longrightarrow> inv s' \<and> stored s' (wrapMetaPrefix @ i) = stored s (wrapMetaPrefix @ i)"
  shows "inv (cl_store c') \<and> claim_inv repo cfg ring i c'"
  using assms(1)
proof cases
  case (load_ok p now nd meta w)
  obtain sv where sv: "repo_GetLatest repo (wrapMetaPrefix @ i) (cl_store c) = Inr sv"
    using assms(4) by (auto simp: claim_inv_def)
  note l = load_cas [OF assms(2) sv load_ok(3)]
  have "\<not> (\<exists>m. meta_in repo cfg ring i (cl_store c) sv m \<and> wm_Used m)"
    using load_used [OF assms(2)] load_ok(3) by blast
  then show ?thesis
    using assms(3,4) l sv load_ok by (auto simp: claim_inv_def set_call_def)
next
  case (load_err p now nd err w)
  then show ?thesis
    using assms(3) fail_keeps_claims [OF assms(4)] by (simp add: set_call_def)
next
  case (mark_ok p meta env nd w s)
  have "claim_inv repo cfg ring i (set_call p Claimed nd w s c)"
    by (rule mark_claims [OF assms(2-4) mark_ok(2,3)])
  with putMeta_spec [OF assms(2,3) mark_ok(3)] mark_ok(1) show ?thesis by (simp add: set_call_def)
next
  case (mark_err p meta env nd err w s)
  then show ?thesis
    using assms(3) fail_keeps_claims [OF assms(4)] putMeta_error [OF mark_err(3)] by (simp add: set_call_def)
next
  case (elsewhere s)
  note o = other [OF elsewhere(2) assms(3)]
  then have "repo_GetLatest repo (wrapMetaPrefix @ i) s = repo_GetLatest repo (wrapMetaPrefix @ i) (cl_store c)"
    using latest_cong [OF assms(3)] by blast
  with assms(4) o elsewhere(1) show ?thesis by (simp add: claim_inv_def meta_in_def)
qed

lemma unwrap_steps_inv:
  assumes "(unwrap_step repo cfg i other)\<^sup>*\<^sup>* c c'" "wrap_ok cfg ring" "inv (cl_store c)" "claim_inv repo cfg ring i c"
    and other: "\<And>s s'. other s s' \<Longrightarrow> inv s \<Longrightarrow> inv s' \<and> stored s' (wrapMetaPrefix @ i) = stored s (wrapMetaPrefix @ i)"
  shows "inv (cl_store c') \<and> claim_inv repo cfg ring i c'"
  using assms(1)
proof (induction rule: rtranclp_induct)
  case (step d d')
  then show ?case using unwrap_step_inv [OF step(2) assms(2) _ _ other] by blast
qed (use assms in blast)

lemma cubby_step_elsewhere:
  assumes "cubby_step repo t s s'" "inv s" "\<And>t p. storagePath t p \<noteq> Inr q" "\<not> HasPrefix q cubbyPrefix"
  shows "inv s' \<and> stored s' q = stored s q"
  using assms(1)
proof cases
  case (cubby_put e env p data)
  then show ?thesis using cubby_put_other [OF assms(2)] assms(3) by blast
next
  case (cubby_delete p f)
  show ?thesis
  proof (cases "storagePath t p")
    case (Inl e)
    with cubby_delete assms(2) show ?thesis by (simp add: cubby_Delete_def)
  next
    case (Inr sp)
    with cubby_delete have "destroyAllVersions repo sp s = (f, s')" by (simp add: cubby_Delete_def)
    with destroyAllVersions_spec [OF assms(2) this] assms(3) [of t p] Inr show ?thesis by metis
  qed
next
  case (cubby_wipe f)
  have "\<not> HasPrefix q (cubbyPrefix @ t @ ''/'')" using assms(4) by (auto simp: HasPrefix_iff)
  with cubby_wipe WipeToken_spec [OF assms(2) _ cubby_wipe] assms(2) show ?thesis
    by (cases "t = []") (auto simp: WipeToken_def)
qed

end

section \<open>What the other engines do\<close>

text \<open>Any call of the key-value engine or of the cubbyhole engine.\<close>

definition engine_step :: "'s SecretRepository \<Rightarrow> 's \<Rightarrow> 's \<Rightarrow> bool" where
  "engine_step repo s s' \<longleftrightarrow> kv_step repo s s' \<or> (\<exists>t. cubby_step repo t s s')"

lemma meta_path_reserved: "\<not> is_ok (rejectReservedKVPath (wrapMetaPrefix @ i))"
proof -
  obtain r where "TrimSpace (wrapMetaPrefix @ i) = wrapMetaPrefix @ r"
    using TrimSpace_prefix [of wrapMetaPrefix i] by (auto simp: wrapMetaPrefix_def is_space_def)
  moreover have "ToLower wrapMetaPrefix = ''sys/wrapping/meta/''" by code_simp
  ultimately have "TrimPrefix (ToLower (TrimSpace (wrapMetaPrefix @ i))) ''/'' = ''sys/wrapping/meta/'' @ ToLower r"
    by (simp add: TrimPrefix_def)
  then show ?thesis
    by (simp add: rejectReservedKVPath_def reservedKVPathPrefixes_def)
qed

lemma meta_path_not_cubby: "storagePath t p \<noteq> Inr (wrapMetaPrefix @ i)" "\<not> HasPrefix (wrapMetaPrefix @ i) cubbyPrefix"
  by (auto simp: storagePath_Inr wrapMetaPrefix_def cubbyPrefix_def)

context secret_repository
begin

lemma engine_step_meta:
  assumes "engine_step repo s s'" "inv s"
  shows "inv s' \<and> stored s' (wrapMetaPrefix @ i) = stored s (wrapMetaPrefix @ i)"
proof (cases "kv_step repo s s'")
  case True
  then show ?thesis
    using kv_step_inv [OF True assms(2)] kv_step_reserved [OF True assms(2) meta_path_reserved] by blast
next
  case False
  with assms(1) obtain t where "cubby_step repo t s s'" by (auto simp: engine_step_def)
  then show ?thesis by (rule cubby_step_elsewhere [OF _ assms(2) meta_path_not_cubby])
qed

end

section \<open>Garbage collection of other tokens\<close>

definition payload_path :: "string \<Rightarrow> string" where
  "payload_path i = cubbyPrefix @ i @ ''/response''"

lemma storagePath_payload: "storagePath i wrapPath = Inr (payload_path i)"
proof -
  have "NormalizePath wrapPath = Inr ''response''" by code_simp
  then show ?thesis by (simp add: storagePath_def payload_path_def)
qed

lemma payload_path_inject [simp]: "payload_path i = payload_path j \<longleftrightarrow> i = j"
  by (simp add: payload_path_def)

lemma payload_path_not_meta [simp]: "payload_path i \<noteq> wrapMetaPrefix @ j" "wrapMetaPrefix @ j \<noteq> payload_path i"
  by (simp_all add: payload_path_def wrapMetaPrefix_def cubbyPrefix_def)

context secret_repository
begin

lemma gc_meta_spec:
  assumes "inv s"
  shows "inv (gc_meta repo cfg i s) \<and> (\<forall>q. q \<noteq> wrapMetaPrefix @ i \<longrightarrow> stored (gc_meta repo cfg i s) q = stored s q)"
proof (cases "repo_GetLatest repo (wrapMetaPrefix @ i) s")
  case (Inl e)
  with assms show ?thesis by (simp add: gc_meta_def)
next
  case (Inr sv)
  then have "sv_Path sv = wrapMetaPrefix @ i"
    using assms stored_wf [OF assms] by (auto simp: get_latest live_in_def)
  with Inr assms show ?thesis
    by (auto simp: gc_meta_def destroyed_at split: sum.splits)
qed

lemma payload_delete:
  assumes "inv s" "cubby_Delete repo i wrapPath s = (f, s')"
  shows "inv s'" "\<not> live_in (stored s') (payload_path i) u sv" "q \<noteq> payload_path i \<Longrightarrow> stored s' q = stored s q"
proof -
  have "destroyAllVersions repo (payload_path i) s = (f, s')"
    using assms(2) by (simp add: cubby_Delete_def storagePath_payload)
  from destroyAllVersions_spec [OF assms(1) this]
  show "inv s'" "\<not> live_in (stored s') (payload_path i) u sv" "q \<noteq> payload_path i \<Longrightarrow> stored s' q = stored s q"
    by auto
qed

lemma gc_entry_other:
  assumes "inv s" "fst im \<noteq> i \<or> \<not> wrap_done now (snd im)" "q = wrapMetaPrefix @ i \<or> q = payload_path i"
  shows "inv (gc_entry repo cfg now im s) \<and> stored (gc_entry repo cfg now im s) q = stored s q"
proof (cases "wrap_done now (snd im)")
  case True
  obtain f s' where d: "cubby_Delete repo (fst im) wrapPath (gc_meta repo cfg (fst im) s) = (f, s')" by fastforce
  note m = gc_meta_spec [OF assms(1), of cfg "fst im"]
  have "q \<noteq> payload_path (fst im)" "q \<noteq> wrapMetaPrefix @ fst im" using True assms(2,3) by auto
  with payload_delete [OF conjunct1 [OF m] d] m d True show ?thesis by (simp add: gc_entry_def)
qed (simp add: gc_entry_def assms)

lemma gc_other:
  assumes "inv s" "\<forall>im \<in> set w. fst im \<noteq> i \<or> \<not> wrap_done now (snd im)" "q = wrapMetaPrefix @ i \<or> q = payload_path i"
  shows "inv (fold (gc_entry repo cfg now) w s) \<and> stored (fold (gc_entry repo cfg now) w s) q = stored s q"
  using assms(1,2)
proof (induction w arbitrary: s)
  case (Cons im w)
  then show ?case using gc_entry_other [OF Cons.prems(1) _ assms(3), of im now cfg] by simp
qed simp

end

section \<open>Wrapping and unwrapping in sequence\<close>

context secret_repository
begin

lemma update_fresh_entry:
  assumes "distinct (map fst w)" "(i, m') \<in> set (AList.update i m w)"
  shows "m' = m"
proof -
  have "map_of (AList.update i m w) i = Some m'"
    by (intro map_of_is_SomeI distinct_update assms)
  then show ?thesis by (simp add: update_conv')
qed

lemma putMeta_succeeds:
  assumes "wrap_ok cfg ring" "inv s" "wc_Marshal cfg m = Inr raw" "pe_uuid env \<noteq> uuid_Nil"
    "\<And>c. wm_casVersion m = Some c \<Longrightarrow> \<exists>l. repo_GetLatest repo (wrapMetaPrefix @ i) s = Inr l \<and> sv_Version l = c"
  shows "\<exists>s'. putMetaLocked repo cfg env i m (w, s) = (None, AList.update i m w, s')"
proof -
  obtain c d where cd: "Seal (kv_aead (wc_engine cfg)) (pe_rnd env) ring raw = Inr (c, d)"
    using Seal_ok [OF wrap_okD(4) [OF assms(1)]] by blast
  note nn = Seal_not_Nil [OF wrap_okD(4) [OF assms(1)] cd]
  have "\<exists>v s'. repo_PutAtomic repo (new_version env (wrapMetaPrefix @ i) c d None None [''engine'' \<mapsto> ''wrapping''])
      (wm_casVersion m) 1 s = Inr (v, s')"
    using assms nn by (intro put_ok) (auto simp: wrapMetaPrefix_def)
  with cd assms(3) wrap_okD(6) [OF assms(1)] show ?thesis by (auto simp: putMetaLocked_def)
qed

lemma Wrap_stores:
  assumes "wrap_ok cfg ring" "inv s" "payload \<noteq> []" "distinct (map fst w)"
    "json_Marshal (kv_json (wc_engine cfg)) payload = Inr raw" "json_Unmarshal (kv_json (wc_engine cfg)) raw = Inr payload"
    "\<And>m. \<exists>raw. wc_Marshal cfg m = Inr raw" "pe_uuid (we_put env) \<noteq> uuid_Nil" "pe_uuid (we_meta env) \<noteq> uuid_Nil"
    "we_gc_now env \<le> we_now env + wrap_ttl cfg ttl"
  defines "i \<equiv> hashWrap (wrap_token (we_rnd env))"
  shows "\<exists>r w' s' sv m. Wrap_payload repo cfg env payload ttl (w, s) = (Inr r, w', s') \<and>
    r = \<lparr>wr_Token = wrap_token (we_rnd env), wr_TTL = wrap_ttl cfg ttl div Second, wr_Creation = we_now env,
         wr_ExpiresAt = we_now env + wrap_ttl cfg ttl\<rparr> \<and>
    inv s' \<and> meta_in repo cfg ring i s' sv m \<and> \<not> wm_Used m \<and> wm_ExpiresAt m = wr_ExpiresAt r \<and>
    cubby_Get repo (wc_engine cfg) i wrapPath s' = Inr payload"
proof -
  let ?e = "wc_engine cfg"
  let ?m = "\<lparr>wm_ExpiresAt = we_now env + wrap_ttl cfg ttl, wm_Used = False, wm_Creation = we_now env, wm_casVersion = None\<rparr>"
  note ok = wrap_okD [OF assms(1)]
  have i: "i \<noteq> []" by (simp add: i_def hashWrap_def)
  obtain s1 where put: "cubby_Put repo ?e (we_put env) i wrapPath payload s = Inr s1"
    using cubby_put_succeeds [OF assms(2) ok(3,4) i storagePath_payload assms(3,5,8)] by blast
  have inv1: "inv s1" using cubby_put_other [OF assms(2) put] by blast
  have "cubby_Get repo (?e\<lparr>kv_crypto := Some ring\<rparr>) i wrapPath s1 = Inr payload"
    using cubby_put_get [OF assms(2) put ok(5,3,4) rtranclp.rtrancl_refl] assms(5,6) by simp
  moreover have "?e\<lparr>kv_crypto := Some ring\<rparr> = ?e" using ok(3) by simp
  ultimately have get1: "cubby_Get repo ?e i wrapPath s1 = Inr payload" by simp
  obtain s2 where put2: "putMetaLocked repo cfg (we_meta env) i ?m (w, s1) = (None, AList.update i ?m w, s2)"
    using assms(7) putMeta_succeeds [OF assms(1) inv1 _ assms(9), of ?m] by fastforce
  from putMeta_spec [OF assms(1) inv1 put2] obtain sv where s2: "inv s2" "meta_in repo cfg ring i s2 sv ?m"
    "\<And>q. q \<noteq> wrapMetaPrefix @ i \<Longrightarrow> stored s2 q = stored s1 q" by auto
  let ?s3 = "fold (gc_entry repo cfg (we_gc_now env)) (AList.update i ?m w) s2"
  have "\<forall>im \<in> set (AList.update i ?m w). fst im \<noteq> i \<or> \<not> wrap_done (we_gc_now env) (snd im)"
    using assms(10) by (auto simp: wrap_done_def dest!: update_fresh_entry [OF assms(4)])
  from gc_other [OF s2(1) this] have s3: "inv ?s3" "stored ?s3 (wrapMetaPrefix @ i) = stored s2 (wrapMetaPrefix @ i)"
    "stored ?s3 (payload_path i) = stored s1 (payload_path i)" using s2(3) by auto
  have "meta_in repo cfg ring i ?s3 sv ?m" using s2(2) latest_cong [OF s2(1) s3(1,2)] by (simp add: meta_in_def)
  moreover have "cubby_Get repo ?e i wrapPath ?s3 = Inr payload"
    using cubby_Get_cong [OF inv1 s3(1), of i wrapPath ?e] s3(3) get1 by (simp add: storagePath_payload)
  moreover have "Wrap_payload repo cfg env payload ttl (w, s) =
      (Inr \<lparr>wr_Token = wrap_token (we_rnd env), wr_TTL = wrap_ttl cfg ttl div Second, wr_Creation = we_now env,
         wr_ExpiresAt = we_now env + wrap_ttl cfg ttl\<rparr>,
       filter (\<lambda>(_, meta). \<not> wrap_done (we_gc_now env) meta) (AList.update i ?m w), ?s3)"
    using put put2 assms(3) ok(2)
    by (simp add: Wrap_payload_def Let_def i_def [symmetric] gcExpiredLocked_def)
  ultimately show ?thesis using s3(1) by fastforce
qed

lemma claim_ok:
  assumes "wrap_ok cfg ring" "inv s" "meta_in repo cfg ring i s sv m" "\<not> wm_Used m" "now \<le> wm_ExpiresAt m"
    "\<And>m. \<exists>raw. wc_Marshal cfg m = Inr raw" "pe_uuid env \<noteq> uuid_Nil"
  shows "\<exists>w' s'. unwrap_claim repo cfg env now i (w, s) = (None, w', s') \<and> inv s' \<and>
    (\<forall>q. q \<noteq> wrapMetaPrefix @ i \<longrightarrow> stored s' q = stored s q)"
proof -
  let ?m = "m\<lparr>wm_casVersion := Some (sv_Version sv), wm_Used := True\<rparr>"
  have load: "unwrap_load repo cfg now i (w, s) = (Inr ?m, AList.update i (m\<lparr>wm_casVersion := Some (sv_Version sv)\<rparr>) w)"
    using assms(4,5) by (simp add: unwrap_load_def getMeta_latest [OF assms(1,3)])
  obtain raw where "wc_Marshal cfg ?m = Inr raw" using assms(6) by blast
  then obtain w' s' where put: "putMetaLocked repo cfg env i ?m
      (AList.update i (m\<lparr>wm_casVersion := Some (sv_Version sv)\<rparr>) w, s) = (None, w', s')"
    using putMeta_succeeds [OF assms(1,2) _ assms(7), of ?m] assms(3) by (fastforce simp: meta_in_def)
  with putMeta_spec [OF assms(1,2) put] load show ?thesis by (simp add: unwrap_claim_def)
qed

lemma Unwrap_once:
  assumes "wrap_ok cfg ring" "inv s" "meta_in repo cfg ring (hashWrap token) s sv m" "\<not> wm_Used m" "now \<le> wm_ExpiresAt m"
    "\<And>m. \<exists>raw. wc_Marshal cfg m = Inr raw" "pe_uuid env \<noteq> uuid_Nil"
    "cubby_Get repo (wc_engine cfg) (hashWrap token) wrapPath s = Inr payload"
  shows "\<exists>w' s'. Unwrap repo cfg env now token (w, s) = (Inr payload, w', s') \<and> inv s' \<and>
    (\<forall>u sv. \<not> live_in (stored s') (payload_path (hashWrap token)) u sv)"
proof -
  let ?i = "hashWrap token"
  obtain w' s1 where c: "unwrap_claim repo cfg env now ?i (w, s) = (None, w', s1)" "inv s1"
    "\<And>q. q \<noteq> wrapMetaPrefix @ ?i \<Longrightarrow> stored s1 q = stored s q" using claim_ok [OF assms(1-7)] by blast
  have get: "cubby_Get repo (wc_engine cfg) ?i wrapPath s1 = Inr payload"
    using cubby_Get_cong [OF assms(2) c(2), of ?i wrapPath "wc_engine cfg"] c(3) assms(8) by (simp add: storagePath_payload)
  obtain f s' where d: "cubby_Delete repo ?i wrapPath s1 = (f, s')" by fastforce
  have "Unwrap repo cfg env now token (w, s) = (Inr payload, w', s')"
    using c(1) get d wrap_okD(2) [OF assms(1)] by (simp add: Unwrap_def)
  with payload_delete [OF c(2) d] show ?thesis by blast
qed

lemma claim_elsewhere:
  assumes "wrap_ok cfg ring" "inv s" "unwrap_claim repo cfg env now i (w, s) = (None, w', s')"
  shows "inv s' \<and> (\<forall>q. q \<noteq> wrapMetaPrefix @ i \<longrightarrow> stored s' q = stored s q)"
  using assms(3) putMeta_spec [OF assms(1,2)]
  by (simp add: unwrap_claim_def split: prod.splits sum.splits)

lemma Unwrap_dead:
  assumes "wrap_ok cfg ring" "inv s" "\<And>u sv. \<not> live_in (stored s) (payload_path (hashWrap token)) u sv"
  shows "fst (Unwrap repo cfg env now token (w, s)) \<noteq> Inr data"
proof (cases "unwrap_claim repo cfg env now (hashWrap token) (w, s)")
  case (fields f w' s')
  show ?thesis
  proof (cases f)
    case None
    note c = claim_elsewhere [OF assms(1,2) fields [unfolded None]]
    have "cubby_Get repo (wc_engine cfg) (hashWrap token) wrapPath s' = Inl (New ErrCodeNotFound ''secret version not found'')"
      using c assms(3) wrap_okD(3) [OF assms(1)]
      by (intro cubby_get_dead [OF _ storagePath_payload]) (auto simp: live_in_def hashWrap_def)
    with fields None show ?thesis by (simp add: Unwrap_def)
  qed (use fields in \<open>simp add: Unwrap_def\<close>)
qed

lemma gc_meta_single:
  assumes "inv s" "wc_repo cfg" "\<And>u sv. live_in (stored s) (wrapMetaPrefix @ i) u sv \<Longrightarrow> u = v"
  shows "\<not> live_in (stored (gc_meta repo cfg i s)) (wrapMetaPrefix @ i) u sv"
proof (cases "repo_GetLatest repo (wrapMetaPrefix @ i) s")
  case (Inl e)
  then have "gc_meta repo cfg i s = s" by (simp add: gc_meta_def)
  with Inl show ?thesis using get_latest_none [OF assms(1)] by simp
next
  case (Inr l)
  then have l: "live_in (stored s) (wrapMetaPrefix @ i) (sv_Version l) l" by (simp add: get_latest [OF assms(1)])
  then have "sv_Path l = wrapMetaPrefix @ i" using stored_wf [OF assms(1)] by (auto simp: live_in_def)
  moreover obtain s1 where d: "repo_DestroyVersion repo (wrapMetaPrefix @ i) (sv_Version l) s = Inr s1"
    using destroy_ok [OF assms(1) l] by blast
  ultimately have "gc_meta repo cfg i s = s1" using Inr assms(2) by (simp add: gc_meta_def)
  with destroyed_at(3) [OF assms(1) d] assms(3) l show ?thesis by blast
qed

lemma local_claim:
  assumes "wrap_ok cfg ring" "inv s" "\<And>u sv. \<not> live_in (stored s) (wrapMetaPrefix @ i) u sv"
    "map_of w i = Some m" "\<not> wm_Used m" "wm_casVersion m = None" "now \<le> wm_ExpiresAt m"
    "\<And>m. \<exists>raw. wc_Marshal cfg m = Inr raw" "pe_uuid env \<noteq> uuid_Nil"
  shows "\<exists>w' s'. unwrap_claim repo cfg env now i (w, s) = (None, w', s') \<and> inv s' \<and>
    (\<forall>q. q \<noteq> wrapMetaPrefix @ i \<longrightarrow> stored s' q = stored s q)"
proof -
  have "repo_GetLatest repo (wrapMetaPrefix @ i) s = Inl (New ErrCodeNotFound ''secret version not found'')"
    using assms(3) by (simp add: get_latest_none [OF assms(2)])
  then have "getMetaLocked repo cfg i (w, s) = (Inr m, w)"
    using assms(4) wrap_okD(6) [OF assms(1)] by (simp add: getMetaLocked_def local_meta_def)
  then have load: "unwrap_load repo cfg now i (w, s) = (Inr (m\<lparr>wm_Used := True\<rparr>), w)"
    using assms(5,7) by (simp add: unwrap_load_def)
  obtain raw where "wc_Marshal cfg (m\<lparr>wm_Used := True\<rparr>) = Inr raw" using assms(8) by blast
  then obtain s' where put: "putMetaLocked repo cfg env i (m\<lparr>wm_Used := True\<rparr>) (w, s) =
      (None, AList.update i (m\<lparr>wm_Used := True\<rparr>) w, s')"
    using putMeta_succeeds [OF assms(1,2) _ assms(9), of "m\<lparr>wm_Used := True\<rparr>" raw i w] assms(6) by auto
  with putMeta_spec [OF assms(1,2) put] load show ?thesis by (simp add: unwrap_claim_def)
qed

end

text \<open>The memory store keeps one live version of the metadata.\<close>

lemma claim_single:
  assumes "wrap_ok cfg ring" "store_wf s" "unwrap_claim memory_secrets cfg env now i (w, s) = (None, w', s')"
  shows "\<exists>v. \<forall>u sv. live s' (wrapMetaPrefix @ i) u sv \<longrightarrow> u = v"
proof -
  obtain m w1 where "putMetaLocked memory_secrets cfg env i m (w1, s) = (None, w', s')"
    using assms(3) by (auto simp: unwrap_claim_def split: prod.splits sum.splits)
  then obtain c d v where "PutAtomic (new_version env (wrapMetaPrefix @ i) c d None None [''engine'' \<mapsto> ''wrapping''])
      (wm_casVersion m) 1 s = Inr (v, s')"
    by (rule mem.putMetaE [OF assms(1)]) (auto simp: memory_secrets_def)
  from PutAtomic_spec(1,6) [OF assms(2) this]
  have "store_wf s'" "length (live_versions (wrapMetaPrefix @ i) s') \<le> 1" by auto
  then show ?thesis
    using set_live_versions [of s' "wrapMetaPrefix @ i"]
    by (cases "live_versions (wrapMetaPrefix @ i) s'") auto
qed

section \<open>Properties\<close>

text \<open>
  C18. Among any number of concurrent calls of \<^verbatim>\<open>Unwrap\<close> for one token, on any nodes and in any
  interleaving with each other and with calls of the key-value and cubbyhole engines, at most one
  gets past marking the token used; the others fail.
\<close>
theorem Unwrap_single_claim:
  assumes "wrap_ok cfg ring" "store_wf s" "GetLatest (wrapMetaPrefix @ i) s = Inr sv"
    "(unwrap_step memory_secrets cfg i (engine_step memory_secrets))\<^sup>*\<^sup>*
       \<lparr>cl_store = s, cl_wraps = w, cl_pc = \<lambda>_. Idle\<rparr> c"
    "cl_pc c p = Claimed" "cl_pc c q = Claimed"
  shows "p = q"
proof -
  have "claim_inv memory_secrets cfg ring i \<lparr>cl_store = s, cl_wraps = w, cl_pc = \<lambda>_. Idle\<rparr>"
    using assms(3) by (simp add: claim_inv_def memory_secrets_def)
  then have "claim_inv memory_secrets cfg ring i c"
    using mem.unwrap_steps_inv [OF assms(4,1)] assms(2) mem.engine_step_meta by simp
  with assms(5,6) show ?thesis unfolding claim_inv_def by blast
qed

text \<open>
  C19. What was wrapped is returned by the first \<^verbatim>\<open>Unwrap\<close> before the expiry, on whichever node it
  runs, and by no later one; the lifetime is positive and at most the configured maximum.
\<close>
theorem Wrap_Unwrap_once:
  assumes "wrap_ok cfg ring" "store_wf s" "payload \<noteq> []" "distinct (map fst w)" "0 < wc_maxTTL cfg"
    "json_Marshal (kv_json (wc_engine cfg)) payload = Inr raw" "json_Unmarshal (kv_json (wc_engine cfg)) raw = Inr payload"
    "\<And>m. \<exists>raw. wc_Marshal cfg m = Inr raw" "pe_uuid (we_put env) \<noteq> uuid_Nil" "pe_uuid (we_meta env) \<noteq> uuid_Nil"
    "we_gc_now env \<le> we_now env + wrap_ttl cfg ttl"
  shows "\<exists>r w1 s1. Wrap_payload memory_secrets cfg env payload ttl (w, s) = (Inr r, w1, s1) \<and>
    we_now env < wr_ExpiresAt r \<and> wr_ExpiresAt r \<le> we_now env + wc_maxTTL cfg \<and>
    (\<forall>env2 now w'. pe_uuid env2 \<noteq> uuid_Nil \<longrightarrow> now \<le> wr_ExpiresAt r \<longrightarrow>
      (\<exists>w2 s2. Unwrap memory_secrets cfg env2 now (wr_Token r) (w', s1) = (Inr payload, w2, s2) \<and>
        (\<forall>env3 now3 w3 data. fst (Unwrap memory_secrets cfg env3 now3 (wr_Token r) (w3, s2)) \<noteq> Inr data)))"
proof -
  obtain r w1 s1 sv m where wrap: "Wrap_payload memory_secrets cfg env payload ttl (w, s) = (Inr r, w1, s1)"
    and r: "r = \<lparr>wr_Token = wrap_token (we_rnd env), wr_TTL = wrap_ttl cfg ttl div Second, wr_Creation = we_now env,
         wr_ExpiresAt = we_now env + wrap_ttl cfg ttl\<rparr>"
    and s1: "store_wf s1" "meta_in memory_secrets cfg ring (hashWrap (wr_Token r)) s1 sv m" "\<not> wm_Used m"
      "wm_ExpiresAt m = wr_ExpiresAt r" "cubby_Get memory_secrets (wc_engine cfg) (hashWrap (wr_Token r)) wrapPath s1 = Inr payload"
    using mem.Wrap_stores [OF assms(1-4,6-11)] by auto
  have "\<exists>w2 s2. Unwrap memory_secrets cfg env2 now (wr_Token r) (w', s1) = (Inr payload, w2, s2) \<and>
        (\<forall>env3 now3 w3 data. fst (Unwrap memory_secrets cfg env3 now3 (wr_Token r) (w3, s2)) \<noteq> Inr data)"
    if "pe_uuid env2 \<noteq> uuid_Nil" "now \<le> wr_ExpiresAt r" for env2 now w'
    using mem.Unwrap_once [OF assms(1) s1(1-3) _ assms(8) that(1) s1(5), of now w'] that(2) s1(4)
      mem.Unwrap_dead [OF assms(1)] by metis
  moreover have "we_now env < wr_ExpiresAt r" "wr_ExpiresAt r \<le> we_now env + wc_maxTTL cfg"
    using assms(5) by (auto simp: r wrap_ttl_def Let_def duration_units)
  ultimately show ?thesis using wrap by blast
qed

text \<open>
  C20. The garbage collection of a node that runs \<^verbatim>\<open>Wrap\<close> undoes the mark: it destroys the metadata
  of a used token before the payload. In between, a node that still holds the unused metadata in
  its own map falls back on it, marks the token a second time without check-and-set, and reads
  the payload, which the first caller may be reading as well.
\<close>
theorem gc_reopens_token:
  assumes "wrap_ok cfg ring" "store_wf s" "unwrap_claim memory_secrets cfg env1 now1 i (w1, s) = (None, w1', s1)"
    "map_of w2 i = Some m" "\<not> wm_Used m" "wm_casVersion m = None" "now2 \<le> wm_ExpiresAt m"
    "\<And>m. \<exists>raw. wc_Marshal cfg m = Inr raw" "pe_uuid env2 \<noteq> uuid_Nil"
    "cubby_Get memory_secrets (wc_engine cfg) i wrapPath s = Inr payload"
  shows "\<exists>w2' s2. unwrap_claim memory_secrets cfg env2 now2 i (w2, gc_meta memory_secrets cfg i s1) = (None, w2', s2) \<and>
    cubby_Get memory_secrets (wc_engine cfg) i wrapPath s2 = Inr payload"
proof -
  let ?s = "gc_meta memory_secrets cfg i s1"
  note c1 = mem.claim_elsewhere [OF assms(1-3)]
  have g: "store_wf ?s" "\<And>q. q \<noteq> wrapMetaPrefix @ i \<Longrightarrow> contents ?s q = contents s1 q"
    using mem.gc_meta_spec [OF conjunct1 [OF c1], of cfg i] by auto
  obtain v where "\<And>u sv. live s1 (wrapMetaPrefix @ i) u sv \<Longrightarrow> u = v"
    using claim_single [OF assms(1-3)] by blast
  then have "\<not> live_in (contents ?s) (wrapMetaPrefix @ i) u sv" for u sv
    using mem.gc_meta_single [OF conjunct1 [OF c1] wrap_okD(1) [OF assms(1)], of i v] by (simp add: live_in_contents)
  from mem.local_claim [OF assms(1) g(1) this assms(4-9)]
  obtain w2' s2 where c: "unwrap_claim memory_secrets cfg env2 now2 i (w2, ?s) = (None, w2', s2)" "store_wf s2"
    "\<And>q. q \<noteq> wrapMetaPrefix @ i \<Longrightarrow> contents s2 q = contents ?s q" by blast
  then have "cubby_Get memory_secrets (wc_engine cfg) i wrapPath s2 = Inr payload"
    using mem.cubby_Get_cong [OF assms(2) c(2), of i wrapPath "wc_engine cfg"] g c1 assms(10)
    by (simp add: storagePath_payload)
  with c(1) show ?thesis by blast
qed

section \<open>Witnesses\<close>

text \<open>A configuration with a concrete encoding of the metadata: its fields, coded as one number in unary.\<close>

definition demo_meta_code :: "wrapMeta \<Rightarrow> nat" where
  "demo_meta_code m =
     prod_encode (int_encode (wm_ExpiresAt m), prod_encode (int_encode (wm_Creation m), of_bool (wm_Used m)))"

definition demo_meta_decode :: "nat \<Rightarrow> wrapMeta" where
  "demo_meta_decode n =
     (case prod_decode n of (e, n') \<Rightarrow> case prod_decode n' of (c, u) \<Rightarrow>
        \<lparr>wm_ExpiresAt = int_decode e, wm_Used = (u = 1), wm_Creation = int_decode c, wm_casVersion = None\<rparr>)"

definition demo_wrap_cfg :: wrap_cfg where
  "demo_wrap_cfg = \<lparr>wc_engine = demo_engine, wc_cubby = True, wc_repo = True,
     wc_Marshal = \<lambda>m. Inr (replicate (demo_meta_code m) 0),
     wc_Unmarshal = \<lambda>raw. Inr (demo_meta_decode (length raw)), wc_maxTTL = Hour\<rparr>"

definition demo_wrap_env :: wrap_env where
  "demo_wrap_env = \<lparr>we_rnd = \<lambda>_. 1, we_now = 5, we_put = demo_put_env, we_meta = demo_put_env, we_gc_now = 6\<rparr>"

lemma demo_wrap_ok: "wrap_ok demo_wrap_cfg demo_ring1"
  by (simp add: wrap_ok_def demo_wrap_cfg_def demo_kv_defs demo_ring1_wf demo_aead_laws demo_meta_code_def demo_meta_decode_def)

lemma demo_wrap_marshal: "\<exists>raw. wc_Marshal demo_wrap_cfg m = Inr raw"
  by (simp add: demo_wrap_cfg_def)

lemma demo_wrap_stores:
  "\<exists>r w' s' sv m. Wrap_payload memory_secrets demo_wrap_cfg demo_wrap_env [(''k'', Str ''v'')] 0 ([], []) = (Inr r, w', s') \<and>
     r = \<lparr>wr_Token = wrap_token (\<lambda>_. 1), wr_TTL = 60, wr_Creation = 5, wr_ExpiresAt = 5 + 60 * Second\<rparr> \<and>
     store_wf s' \<and> meta_in memory_secrets demo_wrap_cfg demo_ring1 (hashWrap (wrap_token (\<lambda>_. 1))) s' sv m \<and> \<not> wm_Used m \<and>
     wm_ExpiresAt m = 5 + 60 * Second \<and>
     cubby_Get memory_secrets (wc_engine demo_wrap_cfg) (hashWrap (wrap_token (\<lambda>_. 1))) wrapPath s' = Inr [(''k'', Str ''v'')]"
proof -
  have "store_wf []" by (simp add: store_wf_def)
  from mem.Wrap_stores [OF demo_wrap_ok this, of "[(''k'', Str ''v'')]" "[]" "[1]" demo_wrap_env 0]
  show ?thesis
    by (simp add: demo_wrap_marshal demo_wrap_env_def wrap_ttl_def duration_units)
      (simp add: demo_wrap_cfg_def demo_kv_defs uuid_Nil_def wrap_ttl_def duration_units)
qed

theorem Wrap_Unwrap_once_witness:
  "\<exists>r w1 s1 w2 s2. Wrap_payload memory_secrets demo_wrap_cfg demo_wrap_env [(''k'', Str ''v'')] 0 ([], []) = (Inr r, w1, s1) \<and>
     Unwrap memory_secrets demo_wrap_cfg demo_put_env 7 (wr_Token r) ([], s1) = (Inr [(''k'', Str ''v'')], w2, s2) \<and>
     (\<forall>data. fst (Unwrap memory_secrets demo_wrap_cfg demo_put_env 8 (wr_Token r) (w2, s2)) \<noteq> Inr data)"
proof -
  have "store_wf []" by (simp add: store_wf_def)
  from Wrap_Unwrap_once [OF demo_wrap_ok this, of "[(''k'', Str ''v'')]" "[]" "[1]" demo_wrap_env 0]
  obtain r w1 s1 where r: "Wrap_payload memory_secrets demo_wrap_cfg demo_wrap_env [(''k'', Str ''v'')] 0 ([], []) = (Inr r, w1, s1)"
    and once: "\<And>now w'. now \<le> wr_ExpiresAt r \<Longrightarrow>
      (\<exists>w2 s2. Unwrap memory_secrets demo_wrap_cfg demo_put_env now (wr_Token r) (w', s1) = (Inr [(''k'', Str ''v'')], w2, s2) \<and>
        (\<forall>env3 now3 w3 data. fst (Unwrap memory_secrets demo_wrap_cfg env3 now3 (wr_Token r) (w3, s2)) \<noteq> Inr data))"
    by (auto simp: demo_wrap_cfg_def demo_wrap_env_def demo_kv_defs uuid_Nil_def wrap_ttl_def duration_units)
  have "7 \<le> wr_ExpiresAt r" using r demo_wrap_stores by (auto simp: duration_units)
  from once [OF this, of "[]"] obtain w2 s2 where
    "Unwrap memory_secrets demo_wrap_cfg demo_put_env 7 (wr_Token r) ([], s1) = (Inr [(''k'', Str ''v'')], w2, s2)"
    "\<And>data. fst (Unwrap memory_secrets demo_wrap_cfg demo_put_env 8 (wr_Token r) (w2, s2)) \<noteq> Inr data" by blast
  with r show ?thesis by blast
qed

lemma demo_claim:
  assumes "store_wf s" "meta_in memory_secrets demo_wrap_cfg demo_ring1 i s sv m" "\<not> wm_Used m" "7 \<le> wm_ExpiresAt m"
  shows "\<exists>w' s'. unwrap_claim memory_secrets demo_wrap_cfg demo_put_env 7 i (w, s) = (None, w', s')"
  using mem.claim_ok [OF demo_wrap_ok assms demo_wrap_marshal, of demo_put_env w]
  by (auto simp: demo_put_env_def uuid_Nil_def)

theorem gc_reopens_token_witness:
  "\<exists>r w s w1' s1 w2' s2 i. Wrap_payload memory_secrets demo_wrap_cfg demo_wrap_env [(''k'', Str ''v'')] 0 ([], []) = (Inr r, w, s) \<and>
     i = hashWrap (wr_Token r) \<and>
     unwrap_claim memory_secrets demo_wrap_cfg demo_put_env 7 i ([], s) = (None, w1', s1) \<and>
     unwrap_claim memory_secrets demo_wrap_cfg demo_put_env 8
       i ([(i, \<lparr>wm_ExpiresAt = 9, wm_Used = False, wm_Creation = 5, wm_casVersion = None\<rparr>)],
          gc_meta memory_secrets demo_wrap_cfg i s1) = (None, w2', s2) \<and>
     cubby_Get memory_secrets (wc_engine demo_wrap_cfg) i wrapPath s2 = Inr [(''k'', Str ''v'')]"
proof -
  let ?m = "\<lparr>wm_ExpiresAt = 9, wm_Used = False, wm_Creation = 5, wm_casVersion = None\<rparr>"
  obtain r w s sv m i where w: "Wrap_payload memory_secrets demo_wrap_cfg demo_wrap_env [(''k'', Str ''v'')] 0 ([], []) = (Inr r, w, s)"
    "i = hashWrap (wr_Token r)" "store_wf s" "meta_in memory_secrets demo_wrap_cfg demo_ring1 i s sv m" "\<not> wm_Used m"
    "7 \<le> wm_ExpiresAt m" "cubby_Get memory_secrets (wc_engine demo_wrap_cfg) i wrapPath s = Inr [(''k'', Str ''v'')]"
    using demo_wrap_stores by (auto simp: duration_units)
  obtain w1' s1 where c: "unwrap_claim memory_secrets demo_wrap_cfg demo_put_env 7 i ([], s) = (None, w1', s1)"
    using demo_claim [OF w(3-6)] by blast
  have "pe_uuid demo_put_env \<noteq> uuid_Nil" by (simp add: demo_put_env_def uuid_Nil_def)
  with gc_reopens_token [OF demo_wrap_ok w(3) c, of "[(i, ?m)]" ?m 8 demo_put_env, OF _ _ _ _ demo_wrap_marshal _ w(7)]
  obtain w2' s2 where "unwrap_claim memory_secrets demo_wrap_cfg demo_put_env 8 i ([(i, ?m)], gc_meta memory_secrets demo_wrap_cfg i s1) =
      (None, w2', s2)" "cubby_Get memory_secrets (wc_engine demo_wrap_cfg) i wrapPath s2 = Inr [(''k'', Str ''v'')]" by auto
  with w c show ?thesis by blast
qed

theorem Unwrap_single_claim_witness:
  "\<exists>r w s c. Wrap_payload memory_secrets demo_wrap_cfg demo_wrap_env [(''k'', Str ''v'')] 0 ([], []) = (Inr r, w, s) \<and>
     (unwrap_step memory_secrets demo_wrap_cfg (hashWrap (wr_Token r)) (engine_step memory_secrets))\<^sup>*\<^sup>*
       \<lparr>cl_store = s, cl_wraps = \<lambda>_. w, cl_pc = \<lambda>_. Idle\<rparr> c \<and>
     cl_pc c 3 = Claimed \<and> (\<forall>q. cl_pc c q = Claimed \<longrightarrow> 3 = q)"
proof -
  obtain r w s sv m i where w: "Wrap_payload memory_secrets demo_wrap_cfg demo_wrap_env [(''k'', Str ''v'')] 0 ([], []) = (Inr r, w, s)"
    "i = hashWrap (wr_Token r)" "store_wf s" "meta_in memory_secrets demo_wrap_cfg demo_ring1 i s sv m" "\<not> wm_Used m"
    "7 \<le> wm_ExpiresAt m" using demo_wrap_stores by (auto simp: duration_units)
  obtain w' s' where c: "unwrap_claim memory_secrets demo_wrap_cfg demo_put_env 7 i (w, s) = (None, w', s')"
    using demo_claim [OF w(3-6)] by blast
  let ?c = "\<lparr>cl_store = s, cl_wraps = \<lambda>_. w, cl_pc = \<lambda>_. Idle\<rparr>"
  obtain m1 w1 where l: "unwrap_load memory_secrets demo_wrap_cfg 7 i (w, s) = (Inr m1, w1)"
    and p: "putMetaLocked memory_secrets demo_wrap_cfg demo_put_env i m1 (w1, s) = (None, w', s')"
    using c by (auto simp: unwrap_claim_def split: prod.splits sum.splits)
  let ?step = "unwrap_step memory_secrets demo_wrap_cfg i (engine_step memory_secrets)"
  let ?c1 = "set_call 3 (Loaded m1) 0 w1 s ?c"
  have "?step ?c ?c1" using load_ok [of ?c 3 memory_secrets demo_wrap_cfg 7 i 0] l by simp
  moreover have "?step ?c1 (set_call 3 Claimed 0 w' s' ?c1)"
    using mark_ok [of ?c1 3 m1 memory_secrets demo_wrap_cfg demo_put_env i 0] p by (simp add: set_call_def)
  ultimately have steps: "?step\<^sup>*\<^sup>* ?c (set_call 3 Claimed 0 w' s' ?c1)" by (meson converse_rtranclp_into_rtranclp rtranclp.rtrancl_refl)
  have "GetLatest (wrapMetaPrefix @ i) s = Inr sv" using w(4) by (simp add: meta_in_def memory_secrets_def)
  note single = Unwrap_single_claim [OF demo_wrap_ok w(3) this steps]
  have "cl_pc (set_call 3 Claimed 0 w' s' ?c1) 3 = Claimed" by (simp add: set_call_def)
  with single w(1,2) steps show ?thesis by blast
qed

end
