(* ===== verification/Token.thy ===== *)
theory Token
  imports GoEncoding GoTime "HOL-Library.AList" "HOL-Library.Char_ord" "HOL-Library.List_Lexorder"
begin

text \<open>
  Client tokens: the record (\<^verbatim>\<open>internal/domain/auth/token.go\<close>), the token repository interface with
  its in-memory implementation (\<^verbatim>\<open>internal/repository/memory/token_repository.go\<close>) and the token
  store (\<^verbatim>\<open>internal/auth/token.go\<close>), which caches records in a map local to the node and, when a
  repository is set, reads and writes through it. Clock readings and random bytes are arguments;
  an operation that reads the clock twice has two of them.
\<close>

section \<open>Records and the repository\<close>

record ClientToken =
  ct_ID :: string
  ct_Subject :: string
  ct_Policies :: "string list"
  ct_ExpiresAt :: go_time
  ct_Renewable :: bool
  ct_Revoked :: bool
  ct_ParentIdentityID :: string
  ct_AgentID :: string
  ct_AllowedActions :: "string list"
  ct_PathPrefix :: string
  ct_MaxExpiresAt :: go_time

definition Active :: "ClientToken \<Rightarrow> go_time \<Rightarrow> bool" where
  "Active t now \<longleftrightarrow> \<not> ct_Revoked t \<and> now < ct_ExpiresAt t"

record 'r TokenRepository =
  tr_Save :: "ClientToken \<Rightarrow> 'r \<Rightarrow> 'r res"
  tr_Get :: "string \<Rightarrow> 'r \<Rightarrow> ClientToken res"
  tr_Revoke :: "string \<Rightarrow> go_time \<Rightarrow> 'r \<Rightarrow> 'r res"

type_synonym token_table = "(string \<times> ClientToken) list"

definition token_not_found :: error where
  "token_not_found = New ErrCodeNotFound ''token not found''"

definition TokenRepository_Save :: "ClientToken \<Rightarrow> token_table \<Rightarrow> token_table res" where
  "TokenRepository_Save token r =
     (if ct_ID token = [] then Inl (New ErrCodeValidation ''token id is required'')
      else Inr (AList.update (ct_ID token) token r))"

definition TokenRepository_Get :: "string \<Rightarrow> token_table \<Rightarrow> ClientToken res" where
  "TokenRepository_Get i r = (case map_of r i of None \<Rightarrow> Inl token_not_found | Some token \<Rightarrow> Inr token)"

definition TokenRepository_Revoke :: "string \<Rightarrow> go_time \<Rightarrow> token_table \<Rightarrow> token_table res" where
  "TokenRepository_Revoke i revokedAt r =
     (case map_of r i of
        None \<Rightarrow> Inl token_not_found
      | Some token \<Rightarrow> Inr (AList.update i (token\<lparr>ct_Revoked := True, ct_ExpiresAt := revokedAt\<rparr>) r))"

definition TokenRepository_List :: "token_table \<Rightarrow> ClientToken list" where
  "TokenRepository_List r = sort_key ct_ID (map snd r)"

text \<open>Tokens with the same expiry are in the order of the table, which in the code is that of a map.\<close>

definition TokenRepository_ListExpired :: "go_time \<Rightarrow> int \<Rightarrow> token_table \<Rightarrow> ClientToken list" where
  "TokenRepository_ListExpired before limit0 r =
     (let limit = (if limit0 \<le> 0 then 100 else limit0);
          out = sort_key ct_ExpiresAt (filter (\<lambda>t. \<not> (ct_Revoked t \<or> \<not> ct_ExpiresAt t < before)) (map snd r))
      in if limit < int (length out) then take (nat limit) out else out)"

definition TokenRepository_Clear :: "token_table \<Rightarrow> token_table" where
  "TokenRepository_Clear r = []"

definition memory_tokens :: "token_table TokenRepository" where
  "memory_tokens = \<lparr>tr_Save = TokenRepository_Save, tr_Get = TokenRepository_Get, tr_Revoke = TokenRepository_Revoke\<rparr>"

section \<open>The token store\<close>

type_synonym 'r token_state = "(string \<rightharpoonup> ClientToken) \<times> 'r"

definition hashToken :: "string \<Rightarrow> string" where
  "hashToken token = sha256_hex token"

definition store_ttl :: "duration \<Rightarrow> duration" where
  "store_ttl ttl = (if ttl \<le> 0 then 24 * Hour else ttl)"

definition token_save :: "'r TokenRepository option \<Rightarrow> ClientToken \<Rightarrow> 'r token_state \<Rightarrow> 'r token_state res" where
  "token_save repo record st =
     (case repo of
        None \<Rightarrow> Inr ((fst st)(ct_ID record \<mapsto> record), snd st)
      | Some R \<Rightarrow>
          (case tr_Save R record (snd st) of
             Inl err \<Rightarrow> Inl err
           | Inr r' \<Rightarrow> Inr ((fst st)(ct_ID record \<mapsto> record), r')))"

definition token_get :: "'r TokenRepository option \<Rightarrow> string \<Rightarrow> 'r token_state \<Rightarrow> ClientToken res \<times> 'r token_state" where
  "token_get repo i st =
     (case repo of
        None \<Rightarrow> (case fst st i of None \<Rightarrow> (Inl token_not_found, st) | Some record \<Rightarrow> (Inr record, st))
      | Some R \<Rightarrow>
          (case tr_Get R i (snd st) of
             Inl err \<Rightarrow> (Inl err, st)
           | Inr record \<Rightarrow> (Inr record, ((fst st)(i \<mapsto> record), snd st))))"

definition new_token :: "entropy \<Rightarrow> string" where
  "new_token rnd = ''knxv_'' @ RawURLEncode (ReadFull rnd 32)"

definition Create :: "'r TokenRepository option \<Rightarrow> duration \<Rightarrow> entropy \<Rightarrow> go_time \<Rightarrow> string \<Rightarrow> string list \<Rightarrow> duration
    \<Rightarrow> bool \<Rightarrow> go_time \<Rightarrow> 'r token_state \<Rightarrow> (string \<times> ClientToken \<times> 'r token_state) res" where
  "Create repo sttl rnd now subject policies ttl0 renewable maxExpiresAt st =
     (let ttl = (if ttl0 \<le> 0 then sttl else ttl0);
          token = new_token rnd;
          record0 = \<lparr>ct_ID = hashToken token, ct_Subject = subject, ct_Policies = policies,
                     ct_ExpiresAt = now + ttl, ct_Renewable = renewable, ct_Revoked = False,
                     ct_ParentIdentityID = [], ct_AgentID = [], ct_AllowedActions = [],
                     ct_PathPrefix = [], ct_MaxExpiresAt = 0\<rparr>;
          record = (if \<not> IsZero maxExpiresAt
                    then record0\<lparr>ct_MaxExpiresAt := maxExpiresAt,
                                 ct_ExpiresAt := (if maxExpiresAt < ct_ExpiresAt record0 then maxExpiresAt
                                                  else ct_ExpiresAt record0)\<rparr>
                    else record0)
      in case token_save repo record st of
           Inl err \<Rightarrow> Inl err
         | Inr st' \<Rightarrow> Inr (token, record, st'))"

definition Issue :: "'r TokenRepository option \<Rightarrow> duration \<Rightarrow> entropy \<Rightarrow> go_time \<Rightarrow> go_time \<Rightarrow> string \<Rightarrow> string list
    \<Rightarrow> 'r token_state \<Rightarrow> (string \<times> ClientToken \<times> 'r token_state) res" where
  "Issue repo sttl rnd now1 now2 subject policies st =
     (let ttl = store_ttl sttl in Create repo sttl rnd now2 subject policies ttl True (now1 + ttl) st)"

text \<open>\<^verbatim>\<open>Renew\<close> in two parts: what it reads and checks, and what it writes back.\<close>

definition renew_load :: "'r TokenRepository option \<Rightarrow> go_time \<Rightarrow> string \<Rightarrow> 'r token_state \<Rightarrow> ClientToken res \<times> 'r token_state" where
  "renew_load repo now token st =
     (case token_get repo (hashToken token) st of
        (Inl _, st1) \<Rightarrow> (Inl (New ErrCodeUnauthorized ''invalid token''), st1)
      | (Inr record, st1) \<Rightarrow>
          if ct_Revoked record then (Inl (New ErrCodeUnauthorized ''token revoked''), st1)
          else if \<not> ct_Renewable record then (Inl (New ErrCodeValidation ''token is not renewable''), st1)
          else if ct_ExpiresAt record < now then (Inl (New ErrCodeUnauthorized ''token expired''), st1)
          else (Inr record, st1))"

definition renewed :: "duration \<Rightarrow> duration \<Rightarrow> go_time \<Rightarrow> ClientToken \<Rightarrow> ClientToken" where
  "renewed sttl increment0 now record =
     (let increment = (if increment0 \<le> 0 then sttl else increment0);
          newExpiry = now + increment
      in record\<lparr>ct_ExpiresAt := (if \<not> IsZero (ct_MaxExpiresAt record) \<and> ct_MaxExpiresAt record < newExpiry
                                 then ct_MaxExpiresAt record else newExpiry)\<rparr>)"

definition renew_store :: "'r TokenRepository option \<Rightarrow> duration \<Rightarrow> duration \<Rightarrow> go_time \<Rightarrow> ClientToken \<Rightarrow> 'r token_state
    \<Rightarrow> ClientToken res \<times> 'r token_state" where
  "renew_store repo sttl increment now record st =
     (case token_save repo (renewed sttl increment now record) st of
        Inl err \<Rightarrow> (Inl err, st)
      | Inr st' \<Rightarrow> (Inr (renewed sttl increment now record), st'))"

definition Renew :: "'r TokenRepository option \<Rightarrow> duration \<Rightarrow> go_time \<Rightarrow> go_time \<Rightarrow> string \<Rightarrow> duration \<Rightarrow> 'r token_state
    \<Rightarrow> ClientToken res \<times> 'r token_state" where
  "Renew repo sttl now1 now2 token increment st =
     (case renew_load repo now1 token st of
        (Inl err, st1) \<Rightarrow> (Inl err, st1)
      | (Inr record, st1) \<Rightarrow> renew_store repo sttl increment now2 record st1)"

definition Revoke :: "'r TokenRepository option \<Rightarrow> go_time \<Rightarrow> string \<Rightarrow> 'r token_state \<Rightarrow> 'r token_state res" where
  "Revoke repo now token st =
     (let i = hashToken token
      in case repo of
           Some R \<Rightarrow>
             (case tr_Revoke R i now (snd st) of
                Inl err \<Rightarrow>
                  (case as_knx err of
                     Some (ErrCodeNotFound, _) \<Rightarrow> Inl (New ErrCodeUnauthorized ''invalid token'')
                   | _ \<Rightarrow> Inl err)
              | Inr r' \<Rightarrow> Inr ((fst st)(i := None), r'))
         | None \<Rightarrow>
             (case fst st i of
                None \<Rightarrow> Inl (New ErrCodeUnauthorized ''invalid token'')
              | Some record \<Rightarrow> Inr ((fst st)(i \<mapsto> record\<lparr>ct_Revoked := True, ct_ExpiresAt := now\<rparr>), snd st)))"

definition Authenticate :: "'r TokenRepository option \<Rightarrow> go_time \<Rightarrow> string \<Rightarrow> 'r token_state \<Rightarrow> ClientToken res \<times> 'r token_state" where
  "Authenticate repo now token st =
     (case token_get repo (hashToken token) st of
        (Inl _, st1) \<Rightarrow> (Inl (New ErrCodeUnauthorized ''invalid token''), st1)
      | (Inr record, st1) \<Rightarrow>
          if ct_Revoked record then (Inl (New ErrCodeUnauthorized ''token revoked''), st1)
          else if ct_ExpiresAt record < now then (Inl (New ErrCodeUnauthorized ''token expired''), st1)
          else (Inr record, st1))"

definition DefaultRootTokenTTL :: duration where "DefaultRootTokenTTL = 72 * Hour"

definition RegisterRootTokenTTL :: "'r TokenRepository option \<Rightarrow> go_time \<Rightarrow> string \<Rightarrow> string list \<Rightarrow> duration \<Rightarrow> 'r token_state
    \<Rightarrow> 'r token_state res" where
  "RegisterRootTokenTTL repo now token policies ttl0 st =
     (let ttl = (if ttl0 \<le> 0 then DefaultRootTokenTTL else ttl0)
      in token_save repo
           \<lparr>ct_ID = hashToken token, ct_Subject = ''root'', ct_Policies = policies, ct_ExpiresAt = now + ttl,
            ct_Renewable = False, ct_Revoked = False, ct_ParentIdentityID = [], ct_AgentID = [],
            ct_AllowedActions = [], ct_PathPrefix = [], ct_MaxExpiresAt = 0\<rparr> st)"

section \<open>Agent tokens\<close>

record AgentTokenScope =
  ats_ParentIdentityID :: string
  ats_AgentID :: string
  ats_AllowedActions :: "string list"
  ats_PathPrefix :: string

definition defaultAgentTTL :: duration where "defaultAgentTTL = 15 * Minute"

definition maxAgentTTL :: duration where "maxAgentTTL = Hour"

definition CreateAgent :: "'r TokenRepository option \<Rightarrow> entropy \<Rightarrow> go_time \<Rightarrow> string \<Rightarrow> string list \<Rightarrow> duration
    \<Rightarrow> AgentTokenScope \<Rightarrow> 'r token_state \<Rightarrow> (string \<times> ClientToken \<times> 'r token_state) res" where
  "CreateAgent repo rnd now subject policies ttl0 scope st =
     (let ttl = (if ttl0 \<le> 0 then defaultAgentTTL else ttl0);
          token = new_token rnd;
          record = \<lparr>ct_ID = hashToken token, ct_Subject = subject, ct_Policies = policies,
                    ct_ExpiresAt = now + ttl, ct_Renewable = False, ct_Revoked = False,
                    ct_ParentIdentityID = ats_ParentIdentityID scope, ct_AgentID = ats_AgentID scope,
                    ct_AllowedActions = ats_AllowedActions scope, ct_PathPrefix = ats_PathPrefix scope,
                    ct_MaxExpiresAt = 0\<rparr>
      in case token_save repo record st of
           Inl err \<Rightarrow> Inl err
         | Inr st' \<Rightarrow> Inr (token, record, st'))"

section \<open>The repository contract\<close>

locale token_repository =
  fixes R :: "'r TokenRepository"
    and lookup :: "'r \<Rightarrow> string \<rightharpoonup> ClientToken"
  assumes get_law: "tr_Get R i r = (case lookup r i of None \<Rightarrow> Inl token_not_found | Some t \<Rightarrow> Inr t)"
    and save_law: "tr_Save R t r = Inr r' \<Longrightarrow> lookup r' = (lookup r)(ct_ID t \<mapsto> t)"
    and save_ok: "ct_ID t \<noteq> [] \<Longrightarrow> \<exists>r'. tr_Save R t r = Inr r'"
    and revoke_law: "tr_Revoke R i now r = Inr r' \<Longrightarrow>
      \<exists>t. lookup r i = Some t \<and> lookup r' = (lookup r)(i \<mapsto> t\<lparr>ct_Revoked := True, ct_ExpiresAt := now\<rparr>)"
    and revoke_ok: "lookup r i = Some t \<Longrightarrow> \<exists>r'. tr_Revoke R i now r = Inr r'"

interpretation mem_tokens: token_repository memory_tokens map_of
  by unfold_locales
    (auto simp: memory_tokens_def TokenRepository_Get_def TokenRepository_Save_def TokenRepository_Revoke_def
      update_conv' split: if_splits option.splits)

section \<open>Service operations\<close>

definition MaxClientTokenTTL :: duration where "MaxClientTokenTTL = 30 * 24 * Hour"

definition client_ttl :: "duration \<Rightarrow> duration \<Rightarrow> duration" where
  "client_ttl sttl ttl0 =
     (let ttl = (if MaxClientTokenTTL < ttl0 then MaxClientTokenTTL else ttl0)
      in if ttl \<le> 0 then store_ttl sttl else ttl)"

definition CreateToken :: "'r TokenRepository option \<Rightarrow> duration \<Rightarrow> entropy \<Rightarrow> go_time \<Rightarrow> go_time \<Rightarrow> string \<Rightarrow> string list
    \<Rightarrow> duration \<Rightarrow> bool \<Rightarrow> 'r token_state \<Rightarrow> (string \<times> ClientToken \<times> 'r token_state) res" where
  "CreateToken repo sttl rnd now1 now2 subject0 policies ttl0 renewable st =
     (let subject = (if subject0 = [] then ''token'' else subject0)
      in if policies = [] then Inl (New ErrCodeValidation ''policies are required'')
         else (let ttl = client_ttl sttl ttl0
               in Create repo sttl rnd now2 subject policies ttl renewable (now1 + ttl) st))"

definition RenewToken :: "'r TokenRepository option \<Rightarrow> duration \<Rightarrow> go_time \<Rightarrow> go_time \<Rightarrow> string \<Rightarrow> duration \<Rightarrow> 'r token_state
    \<Rightarrow> ClientToken res \<times> 'r token_state" where
  "RenewToken repo sttl now1 now2 token increment0 st =
     Renew repo sttl now1 now2 token
       (if MaxClientTokenTTL < increment0 then MaxClientTokenTTL else increment0) st"

section \<open>Histories of a shared repository\<close>

text \<open>
  One call on some node, with whatever that node's map holds, seen through the shared repository.
  A call that stores a new record is about another token than the one with identifier \<^verbatim>\<open>i\<close>.
\<close>

inductive token_step :: "'r TokenRepository \<Rightarrow> duration \<Rightarrow> string \<Rightarrow> 'r \<Rightarrow> 'r \<Rightarrow> bool" for R sttl i where
  ts_create: "Create (Some R) sttl rnd now subject pols ttl renewable maxE (l, r) = Inr (token, rec, l', r') \<Longrightarrow>
    hashToken token \<noteq> i \<Longrightarrow> token_step R sttl i r r'"
| ts_agent: "CreateAgent (Some R) rnd now subject pols ttl scope (l, r) = Inr (token, rec, l', r') \<Longrightarrow>
    hashToken token \<noteq> i \<Longrightarrow> token_step R sttl i r r'"
| ts_root: "RegisterRootTokenTTL (Some R) now token pols ttl (l, r) = Inr (l', r') \<Longrightarrow>
    hashToken token \<noteq> i \<Longrightarrow> token_step R sttl i r r'"
| ts_renew: "Renew (Some R) sttl now1 now2 token inc (l, r) = (res, l', r') \<Longrightarrow> token_step R sttl i r r'"
| ts_revoke: "Revoke (Some R) now token (l, r) = Inr (l', r') \<Longrightarrow> token_step R sttl i r r'"

definition table_wf :: "(string \<rightharpoonup> ClientToken) \<Rightarrow> bool" where
  "table_wf m \<longleftrightarrow> (\<forall>i t. m i = Some t \<longrightarrow> ct_ID t = i)"

text \<open>A record that can never be accepted after a given time, whatever is done to it.\<close>

definition capped :: "go_time \<Rightarrow> ClientToken \<Rightarrow> bool" where
  "capped m t \<longleftrightarrow> ct_Revoked t \<or> \<not> IsZero m \<and> ct_MaxExpiresAt t = m \<and> ct_ExpiresAt t \<le> m"

lemma capped_renewed: "capped m t \<Longrightarrow> capped m (renewed sttl inc now t)"
  by (auto simp: capped_def renewed_def Let_def)

lemma Create_Inr:
  assumes "Create repo sttl rnd now subject pols ttl renewable maxE st = Inr (token, rec, st')"
  shows "token_save repo rec st = Inr st'" "token = new_token rnd" "ct_ID rec = hashToken token" "\<not> ct_Revoked rec"
    "\<not> IsZero maxE \<Longrightarrow> capped maxE rec" "ct_Renewable rec = renewable"
    "\<not> IsZero maxE \<Longrightarrow> ct_ExpiresAt rec = min maxE (now + (if ttl \<le> 0 then sttl else ttl))"
  using assms by (auto simp: Create_def Let_def capped_def split: sum.splits if_splits)

lemma renewed_simps [simp]:
  "ct_ID (renewed sttl inc now t) = ct_ID t" "ct_Revoked (renewed sttl inc now t) = ct_Revoked t"
  by (simp_all add: renewed_def Let_def)

context token_repository
begin

lemma token_save_Inr:
  "token_save (Some R) t (l, r) = Inr (l', r') \<Longrightarrow> lookup r' = (lookup r)(ct_ID t \<mapsto> t)"
  using save_law by (auto simp: token_save_def split: sum.splits)

lemma token_get_shared:
  "fst (token_get (Some R) i (l, r)) = (case lookup r i of None \<Rightarrow> Inl token_not_found | Some t \<Rightarrow> Inr t)"
  "snd (snd (token_get (Some R) i (l, r))) = r"
  by (auto simp: token_get_def get_law split: option.splits)

lemma renew_load_shared:
  assumes "renew_load (Some R) now token (l, r) = (res, l', r')"
  shows "r' = r \<and> (case res of Inl _ \<Rightarrow> True | Inr t \<Rightarrow> lookup r (hashToken token) = Some t \<and> \<not> ct_Revoked t)"
  using assms by (auto simp: renew_load_def token_get_def get_law split: option.splits if_splits sum.splits prod.splits)

text \<open>What a step does to the table: it stores a record of another token, renews one, revokes one, or nothing.\<close>

lemma token_step_cases:
  assumes "token_step R sttl i r r'"
  shows "lookup r' = lookup r \<or> (\<exists>t. ct_ID t \<noteq> i \<and> lookup r' = (lookup r)(ct_ID t \<mapsto> t)) \<or>
    (\<exists>j t inc now. lookup r j = Some t \<and> \<not> ct_Revoked t \<and> lookup r' = (lookup r)(ct_ID t \<mapsto> renewed sttl inc now t)) \<or>
    (\<exists>j t now. lookup r j = Some t \<and> lookup r' = (lookup r)(j \<mapsto> t\<lparr>ct_Revoked := True, ct_ExpiresAt := now\<rparr>))"
  using assms
proof cases
  case (ts_create rnd now subject pols ttl renewable maxE l token rec l')
  then have "ct_ID rec \<noteq> i \<and> token_save (Some R) rec (l, r) = Inr (l', r')"
    using Create_Inr [OF ts_create(1)] by simp
  with token_save_Inr show ?thesis by blast
next
  case (ts_agent rnd now subject pols ttl scope l token rec l')
  then have "ct_ID rec \<noteq> i \<and> token_save (Some R) rec (l, r) = Inr (l', r')"
    by (auto simp: CreateAgent_def Let_def split: sum.splits)
  with token_save_Inr show ?thesis by blast
next
  case (ts_root now token pols ttl l l')
  let ?rec = "\<lparr>ct_ID = hashToken token, ct_Subject = ''root'', ct_Policies = pols,
    ct_ExpiresAt = now + (if ttl \<le> 0 then DefaultRootTokenTTL else ttl), ct_Renewable = False, ct_Revoked = False,
    ct_ParentIdentityID = [], ct_AgentID = [], ct_AllowedActions = [], ct_PathPrefix = [], ct_MaxExpiresAt = 0\<rparr>"
  have "ct_ID ?rec \<noteq> i \<and> token_save (Some R) ?rec (l, r) = Inr (l', r')"
    using ts_root by (simp add: RegisterRootTokenTTL_def)
  with token_save_Inr show ?thesis by blast
next
  case (ts_renew now1 now2 token inc l res l')
  obtain res1 l1 r1 where ld: "renew_load (Some R) now1 token (l, r) = (res1, l1, r1)" by (metis prod.collapse)
  note sh = renew_load_shared [OF ld]
  show ?thesis
  proof (cases res1)
    case (Inl e)
    with ts_renew ld sh show ?thesis by (simp add: Renew_def)
  next
    case (Inr t)
    with ts_renew ld sh have "renew_store (Some R) sttl inc now2 t (l1, r) = (res, l', r')" by (simp add: Renew_def)
    then have "r' = r \<or> token_save (Some R) (renewed sttl inc now2 t) (l1, r) = Inr (l', r')"
      by (auto simp: renew_store_def split: sum.splits)
    with token_save_Inr [of "renewed sttl inc now2 t"] sh Inr show ?thesis by fastforce
  qed
next
  case (ts_revoke now token l l')
  then have "tr_Revoke R (hashToken token) now r = Inr r'"
    by (auto simp: Revoke_def Let_def split: sum.splits option.splits prod.splits ErrorCode.splits)
  from revoke_law [OF this] show ?thesis by blast
qed

lemma token_step_keeps:
  assumes "token_step R sttl i r r'" "table_wf (lookup r)" "lookup r i = Some t"
  shows "table_wf (lookup r') \<and> (\<exists>t'. lookup r' i = Some t' \<and> (ct_Revoked t \<longrightarrow> ct_Revoked t') \<and> (\<forall>m. capped m t \<longrightarrow> capped m t'))"
  using token_step_cases [OF assms(1)] assms(2,3) capped_renewed
  by (elim disjE exE conjE) (auto simp: table_wf_def, auto simp: capped_def)

lemma token_steps_keep:
  assumes "(token_step R sttl i)\<^sup>*\<^sup>* r r'" "table_wf (lookup r)" "lookup r i = Some t"
  shows "table_wf (lookup r') \<and> (\<exists>t'. lookup r' i = Some t' \<and> (ct_Revoked t \<longrightarrow> ct_Revoked t') \<and> (\<forall>m. capped m t \<longrightarrow> capped m t'))"
  using assms(1)
proof (induction rule: rtranclp_induct)
  case (step y z)
  then obtain t1 where "table_wf (lookup y)" "lookup y i = Some t1" "ct_Revoked t \<longrightarrow> ct_Revoked t1"
    "\<forall>m. capped m t \<longrightarrow> capped m t1" by blast
  with token_step_keeps [OF step(2), of t1] show ?case by blast
qed (use assms in auto)

lemma Authenticate_shared:
  "fst (Authenticate (Some R) now token (l, r)) =
     (case lookup r (hashToken token) of
        None \<Rightarrow> Inl (New ErrCodeUnauthorized ''invalid token'')
      | Some t \<Rightarrow> if ct_Revoked t then Inl (New ErrCodeUnauthorized ''token revoked'')
                  else if ct_ExpiresAt t < now then Inl (New ErrCodeUnauthorized ''token expired'')
                  else Inr t)"
  by (auto simp: Authenticate_def token_get_def get_law split: option.splits)

lemma capped_rejected:
  assumes "lookup r (hashToken token) = Some t" "capped m t" "m < now"
  shows "fst (Authenticate (Some R) now token (l, r)) \<noteq> Inr t'"
  using assms by (auto simp: Authenticate_shared capped_def)

end

section \<open>Properties\<close>

lemma CreateToken_Inr:
  assumes "CreateToken repo sttl rnd now1 now2 subject pols ttl renewable st = Inr (token, rec, st')"
  shows "\<exists>subject'. Create repo sttl rnd now2 subject' pols (client_ttl sttl ttl) renewable (now1 + client_ttl sttl ttl) st =
    Inr (token, rec, st')"
  using assms by (auto simp: CreateToken_def Let_def split: if_splits)

lemma client_ttl_pos: "0 < client_ttl sttl ttl"
  by (simp add: client_ttl_def Let_def store_ttl_def MaxClientTokenTTL_def duration_units)

text \<open>
  C21. A token made by \<^verbatim>\<open>CreateToken\<close> is accepted at once and until its expiry, and never again after
  its creation time plus the requested lifetime, capped at thirty days: no sequence of renewals,
  revocations and creations of other tokens on any node extends it.
\<close>
theorem CreateToken_hard_stop:
  assumes "table_wf (map_of r)" "0 < now1" "now1 \<le> now2"
    "CreateToken (Some memory_tokens) sttl rnd now1 now2 subject pols ttl renewable (l, r) = Inr (token, rec, l1, r1)"
  shows "(\<forall>l' now. now \<le> ct_ExpiresAt rec \<longrightarrow> fst (Authenticate (Some memory_tokens) now token (l', r1)) = Inr rec) \<and>
    ct_ExpiresAt rec = now1 + client_ttl sttl ttl \<and>
    (\<forall>r2 l' now t. (token_step memory_tokens sttl (hashToken token))\<^sup>*\<^sup>* r1 r2 \<longrightarrow> now1 + client_ttl sttl ttl < now \<longrightarrow>
       fst (Authenticate (Some memory_tokens) now token (l', r2)) \<noteq> Inr t)"
proof -
  let ?m = "now1 + client_ttl sttl ttl"
  obtain subject' where "Create (Some memory_tokens) sttl rnd now2 subject' pols (client_ttl sttl ttl) renewable ?m (l, r) =
      Inr (token, rec, l1, r1)" using CreateToken_Inr [OF assms(4)] by blast
  note c = Create_Inr [OF this]
  have pos: "0 < client_ttl sttl ttl" by (rule client_ttl_pos)
  with assms(2) have m: "\<not> IsZero ?m" by (simp add: IsZero_def)
  have lk: "map_of r1 = (map_of r)(hashToken token \<mapsto> rec)" using mem_tokens.token_save_Inr [OF c(1)] c(3) by simp
  have "table_wf (map_of r1)" using assms(1) c(3) by (auto simp: lk table_wf_def)
  then have "fst (Authenticate (Some memory_tokens) now token (l', r2)) \<noteq> Inr t"
    if "(token_step memory_tokens sttl (hashToken token))\<^sup>*\<^sup>* r1 r2" "?m < now" for r2 l' now t
    using mem_tokens.token_steps_keep [OF that(1), of rec] lk c(5) [OF m] that(2) mem_tokens.capped_rejected
    by (metis fun_upd_same)
  moreover have "ct_ExpiresAt rec = ?m" using c(7) [OF m] pos assms(3) by auto
  ultimately show ?thesis using c(4) lk by (auto simp: mem_tokens.Authenticate_shared)
qed


text \<open>
  C23. A revocation is lost when it falls between the reading and the writing of a renewal: the
  renewal writes back the record it read, which was not revoked, and the token is accepted again.
\<close>
theorem Revoke_lost_in_Renew:
  assumes "table_wf (map_of r)" "renew_load (Some memory_tokens) now token (l, r) = (Inr rec, l1, r1)"
    "Revoke (Some memory_tokens) rnow token (l', r1) = Inr (l2, r2)"
  shows "\<exists>rec' l3 r3. renew_store (Some memory_tokens) sttl inc now2 rec (l1, r2) = (Inr rec', l3, r3) \<and>
    (\<forall>l4 now3. now3 \<le> ct_ExpiresAt rec' \<longrightarrow> fst (Authenticate (Some memory_tokens) now3 token (l4, r3)) = Inr rec')"
proof -
  let ?rec = "renewed sttl inc now2 rec"
  have rec: "map_of r (hashToken token) = Some rec" "\<not> ct_Revoked rec"
    using mem_tokens.renew_load_shared [OF assms(2)] by auto
  then have i: "ct_ID rec = hashToken token" using assms(1) by (auto simp: table_wf_def)
  obtain r3 where save: "tr_Save memory_tokens ?rec r2 = Inr r3"
    using mem_tokens.save_ok [of ?rec r2] i by (auto simp: hashToken_def)
  with mem_tokens.save_law [OF save] i rec(2) show ?thesis
    by (auto simp: renew_store_def token_save_def mem_tokens.Authenticate_shared)
qed

section \<open>Witnesses\<close>

lemma demo_created:
  "\<exists>rec l1 r1. CreateToken (Some memory_tokens) Hour (\<lambda>_. 1) 1 2 ''ci'' [''p''] Minute True (Map.empty, []) =
       Inr (new_token (\<lambda>_. 1), rec, l1, r1) \<and> table_wf (map_of r1) \<and>
     map_of r1 (hashToken (new_token (\<lambda>_. 1))) = Some rec \<and> ct_Renewable rec \<and> \<not> ct_Revoked rec \<and> ct_ExpiresAt rec = 1 + Minute"
  by (simp add: CreateToken_def Create_def Let_def token_save_def memory_tokens_def TokenRepository_Save_def
      hashToken_def client_ttl_def MaxClientTokenTTL_def IsZero_def table_wf_def duration_units)

theorem CreateToken_hard_stop_witness:
  "\<exists>rec l1 r1 res l2 r2. CreateToken (Some memory_tokens) Hour (\<lambda>_. 1) 1 2 ''ci'' [''p''] Minute True (Map.empty, []) =
       Inr (new_token (\<lambda>_. 1), rec, l1, r1) \<and>
     Renew (Some memory_tokens) Hour 3 4 (new_token (\<lambda>_. 1)) Hour (l1, r1) = (res, l2, r2) \<and>
     (\<forall>t. fst (Authenticate (Some memory_tokens) (2 + Minute) (new_token (\<lambda>_. 1)) (l2, r2)) \<noteq> Inr t)"
proof -
  obtain rec l1 r1 where c: "CreateToken (Some memory_tokens) Hour (\<lambda>_. 1) 1 2 ''ci'' [''p''] Minute True (Map.empty, []) =
       Inr (new_token (\<lambda>_. 1), rec, l1, r1)" using demo_created by blast
  obtain res l2 r2 where n: "Renew (Some memory_tokens) Hour 3 4 (new_token (\<lambda>_. 1)) Hour (l1, r1) = (res, l2, r2)"
    by (metis prod.collapse)
  then have "(token_step memory_tokens Hour (hashToken (new_token (\<lambda>_. 1))))\<^sup>*\<^sup>* r1 r2" by (auto intro: ts_renew)
  with CreateToken_hard_stop [OF _ _ _ c] c n show ?thesis
    by (auto simp: table_wf_def client_ttl_def MaxClientTokenTTL_def duration_units)
qed

lemma demo_revoke:
  "map_of r (hashToken token) = Some rec \<Longrightarrow> \<exists>l' r'. Revoke (Some memory_tokens) now token (l, r) = Inr (l', r')"
  using mem_tokens.revoke_ok [of r "hashToken token" rec now] by (auto simp: Revoke_def)


theorem Revoke_lost_in_Renew_witness:
  "\<exists>rec l r l1 r1 l2 r2 rec' l3 r3. renew_load (Some memory_tokens) 3 (new_token (\<lambda>_. 1)) (l, r) = (Inr rec, l1, r1) \<and>
     Revoke (Some memory_tokens) 4 (new_token (\<lambda>_. 1)) (l, r1) = Inr (l2, r2) \<and>
     renew_store (Some memory_tokens) Hour Hour 5 rec (l1, r2) = (Inr rec', l3, r3) \<and> ct_ExpiresAt rec' = 1 + Minute \<and>
     fst (Authenticate (Some memory_tokens) 6 (new_token (\<lambda>_. 1)) (l3, r3)) = Inr rec'"
proof -
  obtain rec l r where c: "CreateToken (Some memory_tokens) Hour (\<lambda>_. 1) 1 2 ''ci'' [''p''] Minute True (Map.empty, []) =
       Inr (new_token (\<lambda>_. 1), rec, l, r)" "table_wf (map_of r)" "map_of r (hashToken (new_token (\<lambda>_. 1))) = Some rec"
    "ct_Renewable rec" "\<not> ct_Revoked rec" "ct_ExpiresAt rec = 1 + Minute" using demo_created by blast
  have "tr_Get memory_tokens (hashToken (new_token (\<lambda>_. 1))) r = Inr rec" using c(3) by (simp add: mem_tokens.get_law)
  then have ld: "renew_load (Some memory_tokens) 3 (new_token (\<lambda>_. 1)) (l, r) =
      (Inr rec, l(hashToken (new_token (\<lambda>_. 1)) \<mapsto> rec), r)"
    using c(4-6) by (simp add: renew_load_def token_get_def duration_units)
  obtain l2 r2 where rv: "Revoke (Some memory_tokens) 4 (new_token (\<lambda>_. 1)) (l, r) = Inr (l2, r2)"
    using demo_revoke [OF c(3)] by blast
  from Revoke_lost_in_Renew [OF c(2) ld rv, of Hour Hour 5] obtain rec' l3 r3
    where st: "renew_store (Some memory_tokens) Hour Hour 5 rec (l(hashToken (new_token (\<lambda>_. 1)) \<mapsto> rec), r2) = (Inr rec', l3, r3)"
    and ok: "\<And>now3. now3 \<le> ct_ExpiresAt rec' \<Longrightarrow> fst (Authenticate (Some memory_tokens) now3 (new_token (\<lambda>_. 1)) (l3, r3)) = Inr rec'"
    by blast
  have "ct_MaxExpiresAt rec = 1 + Minute"
    using Create_Inr(5) [of "Some memory_tokens" Hour] CreateToken_Inr [OF c(1)] c(5)
    by (fastforce simp: capped_def IsZero_def client_ttl_def MaxClientTokenTTL_def duration_units)
  with st have e: "ct_ExpiresAt rec' = 1 + Minute"
    by (auto simp: renew_store_def renewed_def IsZero_def duration_units split: sum.splits)
  then have "fst (Authenticate (Some memory_tokens) 6 (new_token (\<lambda>_. 1)) (l3, r3)) = Inr rec'"
    by (intro ok) (simp add: duration_units)
  with ld rv st e show ?thesis by blast
qed

end
