(* ===== verification/AuthService.thy ===== *)
theory AuthService
  imports Token Rbac Ttl
begin

text \<open>
  Authorisation of authenticated requests and delegation to agents: \<^verbatim>\<open>Service.Authorize\<close>,
  \<^verbatim>\<open>AuthorizePath\<close> and \<^verbatim>\<open>SimulatePolicy\<close> of \<^verbatim>\<open>internal/auth/token.go\<close>, \<^verbatim>\<open>internal/auth/agent.go\<close>,
  \<^verbatim>\<open>context.go\<close>, the parser of service account names in \<^verbatim>\<open>role_binding.go\<close>, and the permission
  checks of \<^verbatim>\<open>internal/api/middleware\<close>. The request's parameters and headers are arguments. The
  policy reload before each decision is an argument as well: what the reload made of the policy
  table, and whether it failed.
\<close>

section \<open>Principals\<close>

record Principal =
  pr_Subject :: string
  pr_Policies :: "string list"
  pr_TokenID :: string
  pr_ParentIdentityID :: string
  pr_AgentID :: string
  pr_AllowedActions :: "string list"
  pr_PathPrefix :: string

definition principal_of :: "ClientToken \<Rightarrow> Principal" where
  "principal_of record =
     \<lparr>pr_Subject = ct_Subject record, pr_Policies = ct_Policies record, pr_TokenID = ct_ID record,
      pr_ParentIdentityID = ct_ParentIdentityID record, pr_AgentID = ct_AgentID record,
      pr_AllowedActions = ct_AllowedActions record, pr_PathPrefix = ct_PathPrefix record\<rparr>"

record ServiceAccountIdentity =
  sa_Namespace :: string
  sa_Name :: string
  sa_Username :: string

definition ParseServiceAccountUsername :: "string \<Rightarrow> ServiceAccountIdentity option" where
  "ParseServiceAccountUsername username =
     (let prefix = ''system:serviceaccount:''
      in if \<not> HasPrefix username prefix then None
         else (let rest = TrimPrefix username prefix
               in case IndexByte rest (CHR '':'') of
                    None \<Rightarrow> None
                  | Some k \<Rightarrow>
                      (let ns = take k rest; name = drop (Suc k) rest
                       in if ns = [] \<or> name = [] then None
                          else Some \<lparr>sa_Namespace = ns, sa_Name = name, sa_Username = username\<rparr>)))"

definition ResolveTenantNamespace :: "string \<Rightarrow> string \<Rightarrow> string res" where
  "ResolveTenantNamespace header0 subject =
     (let header = TrimSpace header0
      in case ParseServiceAccountUsername subject of
           Some i \<Rightarrow>
             if header \<noteq> [] \<and> header \<noteq> sa_Namespace i
             then Inl (New ErrCodeForbidden ''namespace header does not match service account'')
             else Inr (sa_Namespace i)
         | None \<Rightarrow> if header \<noteq> [] then Inr header else Inr [])"

section \<open>Agent scopes\<close>

definition ActionAllowedForPrincipal :: "Principal \<Rightarrow> string \<Rightarrow> bool" where
  "ActionAllowedForPrincipal prin action \<longleftrightarrow>
     pr_AllowedActions prin = [] \<or> list_ex (\<lambda>allowed. MatchAction allowed action) (pr_AllowedActions prin)"

definition KVPathAllowedForPrincipal :: "Principal \<Rightarrow> string \<Rightarrow> bool" where
  "KVPathAllowedForPrincipal prin resource \<longleftrightarrow>
     pr_PathPrefix prin = [] \<or>
     (let kvPrefix = ''secrets/kv/'' @ TrimSuffix (pr_PathPrefix prin) ''/''
      in HasPrefix resource (kvPrefix @ ''/'') \<or> resource = kvPrefix)"

text \<open>\<^verbatim>\<open>strings.ReplaceAll\<close> of two slashes by one, from the left and without overlaps.\<close>

fun collapse_slashes :: "string \<Rightarrow> string" where
  "collapse_slashes (a # b # s) =
     (if a = CHR ''/'' \<and> b = CHR ''/'' then CHR ''/'' # collapse_slashes s else a # collapse_slashes (b # s))"
| "collapse_slashes s = s"

definition normalizeAgentPathPrefix :: "string \<Rightarrow> string \<Rightarrow> string" where
  "normalizeAgentPathPrefix prefix0 agentID =
     (let prefix1 = TrimByte (CHR ''/'') (TrimSpace prefix0);
          prefix2 = (if Contains prefix1 ''..'' then [] else prefix1);
          prefix3 = (if prefix2 = [] then ''agent/'' @ agentID else prefix2);
          prefix4 = (if \<not> HasPrefix prefix3 ''agent/'' then ''agent/'' @ prefix3 else prefix3)
      in TrimByte (CHR ''/'') (collapse_slashes prefix4) @ ''/'')"

section \<open>Decisions\<close>

text \<open>The outcome of \<^verbatim>\<open>SyncRBAC\<close>: an error or none, and the policy table afterwards.\<close>

type_synonym rbac_sync = "RBAC \<Rightarrow> error option \<times> RBAC"

definition syncRBAC :: "rbac_sync option \<Rightarrow> bool \<Rightarrow> RBAC \<Rightarrow> error option \<times> RBAC" where
  "syncRBAC sync failClosed r =
     (case sync of
        None \<Rightarrow> (None, r)
      | Some f \<Rightarrow>
          (case f r of
             (Some err, r') \<Rightarrow> (if failClosed then Some (Wrap ErrCodeUnavailable ''rbac sync failed'' err) else None, r')
           | (None, r') \<Rightarrow> (None, r')))"

definition request_of :: "RequestContext option \<Rightarrow> Principal \<Rightarrow> string \<Rightarrow> string \<Rightarrow> RequestContext" where
  "request_of existing prin resource action =
     (case existing of
        Some req \<Rightarrow> req\<lparr>rc_Resource := resource, rc_Action := action, rc_AgentID := pr_AgentID prin\<rparr>
      | None \<Rightarrow> \<lparr>ClientIP = [], rc_Namespace = [], rc_Resource = resource, rc_Action = action,
                 rc_AgentID = pr_AgentID prin, rc_Now = 0, Cluster = [], Environment = [],
                 RequestPath = [], RequestID = [], ResourceLabels = Map.empty\<rparr>)"

definition svc_Authorize :: "rbac_sync option \<Rightarrow> bool \<Rightarrow> go_time \<Rightarrow> RequestContext option \<Rightarrow> Principal \<Rightarrow> string \<Rightarrow> string
    \<Rightarrow> RBAC \<Rightarrow> error option \<times> RBAC" where
  "svc_Authorize sync failClosed clock existing prin resource action r =
     (if \<not> ActionAllowedForPrincipal prin action
      then (Some (New ErrCodeForbidden ''action not allowed for agent token''), r)
      else if HasPrefix resource ''secrets/kv/'' \<and> \<not> KVPathAllowedForPrincipal prin resource
      then (Some (New ErrCodeForbidden ''path outside agent prefix''), r)
      else (case syncRBAC sync failClosed r of
              (Some err, r') \<Rightarrow> (Some err, r')
            | (None, r') \<Rightarrow>
                if \<not> Authorize clock r' (pr_Policies prin) resource action
                       (request_of existing prin resource action)
                then (Some (New ErrCodeForbidden ''access denied''), r')
                else (None, r')))"

text \<open>\<^verbatim>\<open>AuthorizePath\<close> has the same body, with the capability as the action.\<close>

definition AuthorizePath :: "rbac_sync option \<Rightarrow> bool \<Rightarrow> go_time \<Rightarrow> RequestContext option \<Rightarrow> Principal \<Rightarrow> string \<Rightarrow> string
    \<Rightarrow> RBAC \<Rightarrow> error option \<times> RBAC" where
  "AuthorizePath sync failClosed clock existing prin resource capability r =
     (if \<not> ActionAllowedForPrincipal prin capability
      then (Some (New ErrCodeForbidden ''action not allowed for agent token''), r)
      else if HasPrefix resource ''secrets/kv/'' \<and> \<not> KVPathAllowedForPrincipal prin resource
      then (Some (New ErrCodeForbidden ''path outside agent prefix''), r)
      else (case syncRBAC sync failClosed r of
              (Some err, r') \<Rightarrow> (Some err, r')
            | (None, r') \<Rightarrow>
                if \<not> Authorize clock r' (pr_Policies prin) resource capability
                       (request_of existing prin resource capability)
                then (Some (New ErrCodeForbidden ''access denied''), r')
                else (None, r')))"

definition SimulatePolicy :: "rbac_sync option \<Rightarrow> bool \<Rightarrow> go_time \<Rightarrow> string list \<Rightarrow> string \<Rightarrow> string \<Rightarrow> RequestContext
    \<Rightarrow> RBAC \<Rightarrow> AuthzResult \<times> RBAC" where
  "SimulatePolicy sync failClosed clock names resource capability req r =
     (let r' = snd (syncRBAC sync failClosed r)
      in (AuthorizeDetailed clock r' (ResolvePolicyNames r' names) resource capability req, r'))"

section \<open>Permission checks of the HTTP layer\<close>

definition extractToken :: "(string \<Rightarrow> string) \<Rightarrow> string" where
  "extractToken header =
     (let authHeader = header ''Authorization''
      in if HasPrefix (ToLower authHeader) ''bearer '' then TrimSpace (drop 7 authHeader)
         else if header ''X-KNXVault-Token'' \<noteq> [] then header ''X-KNXVault-Token''
         else if header ''X-Vault-Token'' \<noteq> [] then header ''X-Vault-Token''
         else [])"

text \<open>The first authorised candidate lets the request through; otherwise the last error is returned.\<close>

fun any_authorized :: "('a \<Rightarrow> RBAC \<Rightarrow> error option \<times> RBAC) \<Rightarrow> 'a list \<Rightarrow> error option \<Rightarrow> RBAC \<Rightarrow> error option \<times> bool \<times> RBAC" where
  "any_authorized auth [] lastErr r = (lastErr, False, r)"
| "any_authorized auth (x # xs) lastErr r =
     (case auth x r of
        (None, r') \<Rightarrow> (None, True, r')
      | (Some err, r') \<Rightarrow> any_authorized auth xs (Some err) r')"

definition RequireAnyPermission :: "rbac_sync option \<Rightarrow> bool \<Rightarrow> go_time \<Rightarrow> RequestContext option \<Rightarrow> Principal option
    \<Rightarrow> (string \<times> string) list \<Rightarrow> RBAC \<Rightarrow> error option \<times> RBAC" where
  "RequireAnyPermission sync failClosed clock existing prin pairs r =
     (if pairs = [] then (Some (New ErrCodeInternal ''invalid permission middleware config''), r)
      else (case prin of
              None \<Rightarrow> (Some (New ErrCodeUnauthorized ''unauthenticated''), r)
            | Some pr \<Rightarrow>
                (case any_authorized (\<lambda>(resource, action). svc_Authorize sync failClosed clock existing pr resource action)
                        pairs None r of
                   (_, True, r') \<Rightarrow> (None, r')
                 | (Some err, False, r') \<Rightarrow> (Some err, r')
                 | (None, False, r') \<Rightarrow> (Some (New ErrCodeForbidden ''permission denied''), r'))))"

definition path_resource :: "string \<Rightarrow> string \<Rightarrow> string" where
  "path_resource baseResource param =
     (let path = TrimPrefix param ''/''
      in if path \<noteq> [] then baseResource @ ''/'' @ path else baseResource)"

definition RequirePathCapability :: "rbac_sync option \<Rightarrow> bool \<Rightarrow> go_time \<Rightarrow> RequestContext option \<Rightarrow> Principal option
    \<Rightarrow> string \<Rightarrow> string \<Rightarrow> string \<Rightarrow> RBAC \<Rightarrow> error option \<times> RBAC" where
  "RequirePathCapability sync failClosed clock existing prin baseResource capability param r =
     (case prin of
        None \<Rightarrow> (Some (New ErrCodeUnauthorized ''unauthenticated''), r)
      | Some pr \<Rightarrow> AuthorizePath sync failClosed clock existing pr (path_resource baseResource param) capability r)"

definition sign_candidates :: "string \<Rightarrow> string \<Rightarrow> string \<Rightarrow> string list" where
  "sign_candidates defaultMount mountParam roleParam =
     (let m1 = TrimSpace mountParam; m2 = (if m1 = [] then defaultMount else m1);
          mount = (if m2 = [] then ''pki'' else m2); role = TrimSpace roleParam
      in (if role \<noteq> [] then [mount @ ''/sign/'' @ role, mount @ ''/sign/*'', mount @ ''/sign'']
          else [mount @ ''/sign'']) @ [mount @ ''/*''])"

text \<open>The last candidate's error is not reported; the one before it is.\<close>

definition RequirePKISignCapability :: "rbac_sync option \<Rightarrow> bool \<Rightarrow> go_time \<Rightarrow> RequestContext option \<Rightarrow> Principal option
    \<Rightarrow> string \<Rightarrow> string \<Rightarrow> string \<Rightarrow> RBAC \<Rightarrow> error option \<times> RBAC" where
  "RequirePKISignCapability sync failClosed clock existing prin defaultMount mountParam roleParam r =
     (case prin of
        None \<Rightarrow> (Some (New ErrCodeUnauthorized ''unauthenticated''), r)
      | Some pr \<Rightarrow>
          (let cs = sign_candidates defaultMount mountParam roleParam;
               auth = (\<lambda>resource. AuthorizePath sync failClosed clock existing pr resource ''write'')
           in case any_authorized auth (butlast cs) None r of
                (_, True, r1) \<Rightarrow> (None, r1)
              | (lastErr, False, r1) \<Rightarrow>
                  (case auth (last cs) r1 of
                     (None, r2) \<Rightarrow> (None, r2)
                   | (Some _, r2) \<Rightarrow>
                       (case lastErr of
                          Some err \<Rightarrow> (Some err, r2)
                        | None \<Rightarrow> (Some (New ErrCodeForbidden ''access denied''), r2)))))"

definition KVCapability :: "string \<Rightarrow> string \<Rightarrow> string" where
  "KVCapability pathParam listQuery =
     (let rawPath = TrimPrefix pathParam ''/''
      in if listQuery = ''true'' then ''list''
         else if HasSuffix rawPath ''/metadata'' \<or> HasSuffix rawPath ''/versions'' then ''list''
         else ''read'')"

section \<open>Delegation\<close>

record AgentDelegateRequest =
  adr_AgentID :: string
  adr_PathPrefix :: string
  adr_AllowedActions :: "string list"
  adr_Policies :: "string list"
  adr_TTL :: duration

definition validateDelegatedPolicies :: "RBAC \<Rightarrow> string list \<Rightarrow> string list \<Rightarrow> unit res" where
  "validateDelegatedPolicies r parentPolicies requested =
     (let parentSet = ResolvePolicyNames r parentPolicies
      in if list_all (\<lambda>name. list_all (\<lambda>resolved. resolved \<in> set parentSet) (ResolvePolicyNames r [name])) requested
         then Inr ()
         else Inl (New ErrCodeForbidden ''cannot delegate policy outside parent scope''))"

definition ParseAgentDelegateTTL :: "string \<Rightarrow> duration res" where
  "ParseAgentDelegateTTL raw = (if TrimSpace raw = [] then Inr defaultAgentTTL else ParseTTL raw)"

definition agent_ttl :: "duration \<Rightarrow> duration" where
  "agent_ttl ttl0 =
     (let ttl = (if ttl0 \<le> 0 then defaultAgentTTL else ttl0)
      in if maxAgentTTL < ttl then maxAgentTTL else ttl)"

record MachineIdentity =
  mi_ID :: string
  mi_Type :: string
  mi_BoundNamespace :: string
  mi_BoundName :: string
  mi_Policies :: "string list"
  mi_MaxTTL :: int
  mi_LastSeen :: go_time
  mi_Revoked :: bool
  mi_ParentIdentityID :: string

definition NHIKey :: "string \<Rightarrow> string \<Rightarrow> string \<Rightarrow> string \<Rightarrow> string" where
  "NHIKey typ namespace name subject =
     (if typ = ''k8s_sa'' then ''k8s_sa:'' @ namespace @ '':'' @ name
      else if typ = ''oidc'' then ''oidc:'' @ subject
      else typ @ '':'' @ subject)"

text \<open>
  The token, its record, the machine identity that is recorded when a recorder is present, and the
  new token state. The audit record is left out.
\<close>

definition DelegateAgent :: "'r TokenRepository option \<Rightarrow> entropy \<Rightarrow> go_time \<Rightarrow> RBAC \<Rightarrow> Principal \<Rightarrow> AgentDelegateRequest
    \<Rightarrow> 'r token_state \<Rightarrow> (string \<times> ClientToken \<times> MachineIdentity \<times> 'r token_state) res" where
  "DelegateAgent repo rnd now r parent req st =
     (if adr_AgentID req = [] then Inl (New ErrCodeValidation ''agent_id is required'')
      else if adr_PathPrefix req = [] then Inl (New ErrCodeValidation ''path_prefix is required'')
      else if adr_AllowedActions req = [] then Inl (New ErrCodeValidation ''allowed_actions is required'')
      else (let prefix = normalizeAgentPathPrefix (adr_PathPrefix req) (adr_AgentID req)
            in if adr_Policies req = []
               then Inl (New ErrCodeValidation ''policies are required for agent delegation (explicit subset of parent policies)'')
               else (case validateDelegatedPolicies r (pr_Policies parent) (adr_Policies req) of
                       Inl err \<Rightarrow> Inl err
                     | Inr _ \<Rightarrow>
                         (let ttl = agent_ttl (adr_TTL req);
                              parentID = (if pr_Subject parent = [] then pr_TokenID parent else pr_Subject parent)
                          in case CreateAgent repo rnd now (''agent:'' @ adr_AgentID req) (adr_Policies req) ttl
                                    \<lparr>ats_ParentIdentityID = parentID, ats_AgentID = adr_AgentID req,
                                     ats_AllowedActions = adr_AllowedActions req, ats_PathPrefix = prefix\<rparr> st of
                               Inl err \<Rightarrow> Inl err
                             | Inr (token, record, st') \<Rightarrow>
                                 Inr (token, record,
                                      \<lparr>mi_ID = NHIKey ''agent'' [] [] (adr_AgentID req), mi_Type = ''agent'',
                                       mi_BoundNamespace = [], mi_BoundName = adr_AgentID req,
                                       mi_Policies = adr_Policies req, mi_MaxTTL = ttl div Second, mi_LastSeen = 0, mi_Revoked = False,
                                       mi_ParentIdentityID = parentID\<rparr>,
                                      st')))))"

section \<open>Scopes of delegated tokens\<close>

lemma collapse_slash_head: "\<exists>y. collapse_slashes (CHR ''/'' # x) = CHR ''/'' # y"
  by (cases x) auto

lemma collapse_agent: "\<exists>y. collapse_slashes (''agent/'' @ x) = ''agent/'' @ y"
  using collapse_slash_head [of x] by auto

lemma TrimByte_agent: "\<exists>r. TrimByte (CHR ''/'') (''agent/'' @ y) @ ''/'' = ''agent/'' @ r"
proof (cases "\<forall>c \<in> set y. c = CHR ''/''")
  case True
  then have "dropWhile (\<lambda>x. x = CHR ''/'') (rev y @ ''/tnega'') = dropWhile (\<lambda>x. x = CHR ''/'') ''/tnega''"
    by (intro dropWhile_append2) auto
  then show ?thesis by (simp add: TrimByte_def)
next
  case False
  then obtain c where "c \<in> set y" "c \<noteq> CHR ''/''" by blast
  then have "dropWhile (\<lambda>x. x = CHR ''/'') (rev y @ ''/tnega'') = dropWhile (\<lambda>x. x = CHR ''/'') (rev y) @ ''/tnega''"
    by (intro dropWhile_append1 [of c]) auto
  then show ?thesis by (simp add: TrimByte_def)
qed

lemma normalizeAgentPathPrefix_agent: "HasPrefix (normalizeAgentPathPrefix p a) ''agent/''"
proof -
  let ?q1 = "TrimByte (CHR ''/'') (TrimSpace p)"
  let ?q2 = "if Contains ?q1 ''..'' then [] else ?q1"
  let ?q = "if ?q2 = [] then ''agent/'' @ a else ?q2"
  have "\<exists>x. (if \<not> HasPrefix q ''agent/'' then ''agent/'' @ q else q) = ''agent/'' @ x" for q
    by (auto simp: HasPrefix_iff)
  from this [of ?q] obtain x where x: "(if \<not> HasPrefix ?q ''agent/'' then ''agent/'' @ ?q else ?q) = ''agent/'' @ x" by blast
  obtain y where y: "collapse_slashes (''agent/'' @ x) = ''agent/'' @ y" using collapse_agent by blast
  show ?thesis
    unfolding normalizeAgentPathPrefix_def Let_def x y using TrimByte_agent unfolding HasPrefix_iff .
qed

lemma normalizeAgentPathPrefix_slash: "\<exists>x. normalizeAgentPathPrefix p a = x @ ''/''"
  by (simp add: normalizeAgentPathPrefix_def Let_def)

lemma validateDelegatedPolicies_reach:
  assumes "validateDelegatedPolicies r ps qs = Inr ()"
  shows "reach r (set qs) \<subseteq> reach r (set ps)"
proof -
  have "reach r {q} \<subseteq> reach r (set ps)" if "q \<in> set qs" for q
    using assms that
    by (auto simp: validateDelegatedPolicies_def Let_def list_all_iff ResolvePolicyNames_set split: if_splits)
  then show ?thesis by (auto simp: reach_def)
qed

lemma agent_ttl_bounds: "0 < agent_ttl ttl" "agent_ttl ttl \<le> Hour"
  by (simp_all add: agent_ttl_def Let_def defaultAgentTTL_def maxAgentTTL_def duration_units)

lemma CreateAgent_Inr:
  assumes "CreateAgent repo rnd now subject pols ttl scope st = Inr (token, rec, st')" "0 < ttl"
  shows "rec = \<lparr>ct_ID = hashToken token, ct_Subject = subject, ct_Policies = pols, ct_ExpiresAt = now + ttl,
    ct_Renewable = False, ct_Revoked = False, ct_ParentIdentityID = ats_ParentIdentityID scope,
    ct_AgentID = ats_AgentID scope, ct_AllowedActions = ats_AllowedActions scope,
    ct_PathPrefix = ats_PathPrefix scope, ct_MaxExpiresAt = 0\<rparr>"
  using assms by (auto simp: CreateAgent_def Let_def split: sum.splits)

lemma DelegateAgent_Inr:
  assumes "DelegateAgent repo rnd now r parent req st = Inr (token, rec, mi, st')"
  shows "adr_AllowedActions req \<noteq> []" "validateDelegatedPolicies r (pr_Policies parent) (adr_Policies req) = Inr ()"
    "ct_PathPrefix rec = normalizeAgentPathPrefix (adr_PathPrefix req) (adr_AgentID req)"
    "ct_AllowedActions rec = adr_AllowedActions req" "ct_Policies rec = adr_Policies req"
    "ct_ExpiresAt rec = now + agent_ttl (adr_TTL req)" "\<not> ct_Renewable rec"
  using assms agent_ttl_bounds(1)
  by (auto simp: DelegateAgent_def Let_def split: if_splits sum.splits dest!: CreateAgent_Inr)

lemma svc_Authorize_None:
  "svc_Authorize sync fc clock existing prin resource action r = (None, r') \<longleftrightarrow>
     ActionAllowedForPrincipal prin action \<and>
     (HasPrefix resource ''secrets/kv/'' \<longrightarrow> KVPathAllowedForPrincipal prin resource) \<and>
     syncRBAC sync fc r = (None, r') \<and>
     Authorize clock r' (pr_Policies prin) resource action (request_of existing prin resource action)"
  by (auto simp: svc_Authorize_def split: prod.splits option.splits if_splits)

lemma AuthorizePath_eq: "AuthorizePath = svc_Authorize"
  by (simp add: fun_eq_iff AuthorizePath_def svc_Authorize_def)

lemma Authorize_mono:
  assumes "Authorize clock r qs resource action req" "reach r (set qs) \<subseteq> reach r (set ps)"
    "\<not> (\<exists>n \<in> reach r (set ps). denies clock r resource action req n)"
  shows "Authorize clock r ps resource action req"
  using assms by (auto simp: Authorize_def AuthorizeDetailed_def authorize_loop_Allowed ResolvePolicyNames_set)

section \<open>Properties\<close>


text \<open>
  C25. Delegation checks that the agent's policies are among the parent's, but a parent restricted by
  a deny policy can leave that policy out: the agent is then granted what its parent is denied.
\<close>
theorem DelegateAgent_drops_deny:
  assumes "q \<in> set (pr_Policies parent)" "policy r q = Some p" "pol_Includes p = []" "pol_Effect p \<noteq> EffectDeny"
    "\<And>rq. eval_matches clock p resource action rq" "\<not> HasPrefix resource ''secrets/kv/''"
    "\<And>rq. denies clock r resource action rq n" "n \<in> set (pr_Policies parent)"
    "adr_AgentID req \<noteq> []" "adr_PathPrefix req \<noteq> []" "adr_AllowedActions req = [action]" "adr_Policies req = [q]"
  shows "fst (svc_Authorize None fc clock existing parent resource action r) \<noteq> None \<and>
    (\<exists>token rec mi st'. DelegateAgent (Some memory_tokens) rnd now r parent req st = Inr (token, rec, mi, st') \<and>
       fst (svc_Authorize None fc clock existing (principal_of rec) resource action r) = None)"
proof -
  have "reach r {q} \<subseteq> {q}" by (rule reach_least) (use assms(2,3) in auto)
  then have reach: "reach r {q} = {q}" using reach_self [of q "{q}" r] by auto
  have "reach r {q} \<subseteq> reach r (set (pr_Policies parent))" by (rule reach_mono) (use assms(1) in auto)
  then have v: "validateDelegatedPolicies r (pr_Policies parent) [q] = Inr ()"
    by (auto simp: validateDelegatedPolicies_def list_all_iff ResolvePolicyNames_set)
  have "n \<in> reach r (set (pr_Policies parent))" using assms(8) by (rule reach_self)
  with assms(7) have "\<not> Authorize clock r (pr_Policies parent) resource action rq" for rq
    by (auto simp: Authorize_def AuthorizeDetailed_def authorize_loop_Allowed ResolvePolicyNames_set)
  then have "fst (svc_Authorize None fc clock existing parent resource action r) \<noteq> None"
    by (auto simp: svc_Authorize_def syncRBAC_def)
  moreover have "Authorize clock r [q] resource action rq" for rq
    using assms(2,4,5) reach
    by (simp add: Authorize_def AuthorizeDetailed_def authorize_loop_Allowed ResolvePolicyNames_set grants_def denies_def)
  moreover obtain token rec mi st' where d: "DelegateAgent (Some memory_tokens) rnd now r parent req st = Inr (token, rec, mi, st')"
    using v assms(9-12)
    by (auto simp: DelegateAgent_def CreateAgent_def Let_def token_save_def memory_tokens_def TokenRepository_Save_def hashToken_def)
  ultimately show ?thesis
    using DelegateAgent_Inr [OF d] assms(6,11,12)
    by (auto simp: svc_Authorize_def syncRBAC_def principal_of_def ActionAllowedForPrincipal_def MatchAction_def)
qed

lemma any_authorized_pure:
  assumes "\<And>x. auth x r = (f x, r)"
  shows "fst (snd (any_authorized auth xs e r)) \<longleftrightarrow> (\<exists>x \<in> set xs. f x = None)"
    "snd (snd (any_authorized auth xs e r)) = r"
  by (induction xs arbitrary: e) (auto simp: assms split: option.splits)

text \<open>
  C26. The check for signing certificates tries the role's resource and then broader ones, and the
  first authorised one lets the request through: an explicit deny on the role's resource has no
  effect for a principal that may sign under the mount.
\<close>
theorem sign_deny_bypassed:
  assumes "TrimSpace roleParam \<noteq> []" "TrimSpace mountParam \<noteq> []"
    "fst (AuthorizePath None fc clock existing pr (TrimSpace mountParam @ ''/sign/'' @ TrimSpace roleParam) ''write'' r) = Some denied"
    "fst (AuthorizePath None fc clock existing pr (TrimSpace mountParam @ ''/sign'') ''write'' r) = None"
  shows "fst (RequirePKISignCapability None fc clock existing (Some pr) defaultMount mountParam roleParam r) = None"
proof -
  let ?auth = "\<lambda>resource. AuthorizePath None fc clock existing pr resource ''write''"
  have pure: "?auth x r = (fst (?auth x r), r)" for x
    by (auto simp: AuthorizePath_def syncRBAC_def)
  let ?cs = "butlast (sign_candidates defaultMount mountParam roleParam)"
  have "TrimSpace mountParam @ ''/sign'' \<in> set ?cs"
    using assms(1,2) by (simp add: sign_candidates_def Let_def)
  then have "fst (snd (any_authorized ?auth ?cs None r))"
    using any_authorized_pure(1) [of ?auth r "\<lambda>x. fst (?auth x r)" ?cs None, OF pure] assms(4) by blast
  then show ?thesis
    by (auto simp: RequirePKISignCapability_def Let_def split: prod.splits)
qed

section \<open>Witnesses\<close>

definition demo_deny :: Policy where
  "demo_deny = (default_policy ''no-prod'' [''pki/sign/prod''] [''*''])\<lparr>pol_Effect := EffectDeny\<rparr>"

definition demo_rbac :: RBAC where
  "demo_rbac = UpsertPolicy demo_deny NewRBAC"

definition demo_principal :: Principal where
  "demo_principal = \<lparr>pr_Subject = ''dev'', pr_Policies = [''pki-admin'', ''no-prod''], pr_TokenID = [],
     pr_ParentIdentityID = [], pr_AgentID = [], pr_AllowedActions = [], pr_PathPrefix = []\<rparr>"

definition demo_delegate :: AgentDelegateRequest where
  "demo_delegate = \<lparr>adr_AgentID = ''a1'', adr_PathPrefix = ''agent/a1'', adr_AllowedActions = [''write''],
     adr_Policies = [''pki-admin''], adr_TTL = 0\<rparr>"

lemma demo_rbac_policies:
  "policy demo_rbac ''no-prod'' = Some demo_deny"
  "policy demo_rbac ''pki-admin'' = Some (default_policy ''pki-admin'' [''pki/*''] [''*''])"
  by (simp_all add: policy_def demo_rbac_def demo_deny_def UpsertPolicy_def NewRBAC_def LoadPolicies_def default_policy_def)

lemma demo_matches:
  "eval_matches clock (default_policy ''pki-admin'' [''pki/*''] [''*'']) ''pki/sign/prod'' ''write'' rq"
  "eval_matches clock demo_deny ''pki/sign/prod'' ''write'' rq"
proof -
  have m: "MatchResource ''pki/*'' ''pki/sign/prod''" "MatchResource ''pki/sign/prod'' ''pki/sign/prod''" by code_simp+
  have c: "ConditionsMatch clock Map.empty rq'" for rq'
    by (simp add: ConditionsMatch_def check_cond_def string_cond_def)
  show "eval_matches clock (default_policy ''pki-admin'' [''pki/*''] [''*'']) ''pki/sign/prod'' ''write'' rq"
    "eval_matches clock demo_deny ''pki/sign/prod'' ''write'' rq"
    using m c by (simp_all add: eval_matches_iff default_policy_def demo_deny_def NormalizeCapabilities_def MatchAction_def)
qed

lemma demo_denies: "denies clock demo_rbac ''pki/sign/prod'' ''write'' rq ''no-prod''"
  using demo_matches(2) by (simp add: denies_def demo_rbac_policies) (simp add: demo_deny_def)

theorem DelegateAgent_drops_deny_witness:
  "fst (svc_Authorize None True 0 None demo_principal ''pki/sign/prod'' ''write'' demo_rbac) \<noteq> None \<and>
   (\<exists>token rec mi st'. DelegateAgent (Some memory_tokens) (\<lambda>_. 1) 0 demo_rbac demo_principal demo_delegate (Map.empty, []) =
       Inr (token, rec, mi, st') \<and>
     fst (svc_Authorize None True 0 None (principal_of rec) ''pki/sign/prod'' ''write'' demo_rbac) = None)"
  by (rule DelegateAgent_drops_deny [where q = "''pki-admin''" and n = "''no-prod''", OF _ demo_rbac_policies(2) _ _ demo_matches(1) _ demo_denies])
    (simp_all add: demo_principal_def demo_delegate_def default_policy_def EffectAllow_def EffectDeny_def)

lemma demo_no_denies: "\<not> denies clock demo_rbac ''pki/sign'' ''write'' rq n"
proof
  have m: "\<not> MatchResource ''pki/sign/prod'' ''pki/sign''" by code_simp
  assume "denies clock demo_rbac ''pki/sign'' ''write'' rq n"
  then obtain p where p: "policy demo_rbac n = Some p" "pol_Effect p = EffectDeny" "eval_matches clock p ''pki/sign'' ''write'' rq"
    by (auto simp: denies_def)
  then have "p = demo_deny"
    by (auto simp: policy_def demo_rbac_def demo_deny_def UpsertPolicy_def NewRBAC_def LoadPolicies_def default_policy_def
        EffectAllow_def EffectDeny_def split: if_splits)
  with p(3) m show False by (simp add: eval_matches_iff demo_deny_def default_policy_def)
qed

lemma demo_sign_ok:
  assumes "''pki-admin'' \<in> set ps"
  shows "Authorize 0 demo_rbac ps ''pki/sign'' ''write'' rq"
proof -
  have m: "MatchResource ''pki/*'' ''pki/sign''" by code_simp
  have "eval_matches 0 (default_policy ''pki-admin'' [''pki/*''] [''*'']) ''pki/sign'' ''write'' rq"
    using m by (simp add: eval_matches_iff default_policy_def NormalizeCapabilities_def MatchAction_def
        ConditionsMatch_def check_cond_def string_cond_def)
  then have "grants 0 demo_rbac ''pki/sign'' ''write'' rq ''pki-admin''"
    by (simp add: grants_def demo_rbac_policies) (simp add: default_policy_def EffectAllow_def EffectDeny_def)
  moreover have "''pki-admin'' \<in> reach demo_rbac (set ps)" using assms by (rule reach_self)
  ultimately show ?thesis
    using demo_no_denies
    by (auto simp: Authorize_def AuthorizeDetailed_def authorize_loop_Allowed ResolvePolicyNames_set)
qed

theorem sign_deny_bypassed_witness:
  "fst (AuthorizePath None True 0 None demo_principal ''pki/sign/prod'' ''write'' demo_rbac) =
     Some (New ErrCodeForbidden ''access denied'') \<and>
   fst (RequirePKISignCapability None True 0 None (Some demo_principal) ''pki'' ''pki'' ''prod'' demo_rbac) = None"
proof -
  have t: "TrimSpace ''prod'' = ''prod''" "TrimSpace ''pki'' = ''pki''" by code_simp+
  have "''no-prod'' \<in> reach demo_rbac {''pki-admin'', ''no-prod''}" by (rule reach_self) simp
  then have "\<not> Authorize 0 demo_rbac [''pki-admin'', ''no-prod''] ''pki/sign/prod'' ''write'' rq" for rq
    using demo_denies by (auto simp: Authorize_def AuthorizeDetailed_def authorize_loop_Allowed ResolvePolicyNames_set)
  then have d: "fst (AuthorizePath None True 0 None demo_principal ''pki/sign/prod'' ''write'' demo_rbac) =
      Some (New ErrCodeForbidden ''access denied'')"
    by (simp add: AuthorizePath_def syncRBAC_def demo_principal_def ActionAllowedForPrincipal_def)
  have "fst (AuthorizePath None True 0 None demo_principal ''pki/sign'' ''write'' demo_rbac) = None"
    using demo_sign_ok by (simp add: AuthorizePath_def syncRBAC_def demo_principal_def ActionAllowedForPrincipal_def)
  with sign_deny_bypassed [of "''prod''" "''pki''" True 0 None demo_principal demo_rbac] d show ?thesis by (simp add: t)
qed


end
