(* ===== verification/Lockout.thy ===== *)
theory Lockout
  imports GoStrings GoTime "HOL-Library.AList"
begin

text \<open>
  The lockout tracker, \<^verbatim>\<open>internal/auth/lockout.go\<close>: failed logins counted per key, a key locked for
  a while once it reached the threshold, and the eviction that bounds the table. The maps are
  association lists whose order is the order a range over the map visits them in. The tracker's
  mutex covers each operation.
\<close>

record LockoutTracker =
  lt_attempts :: "(string \<times> int) list"
  lt_locked :: "(string \<times> go_time) list"
  lt_threshold :: int
  lt_ttl :: duration
  lt_maxEntries :: int

definition NewLockoutTracker :: "int \<Rightarrow> duration \<Rightarrow> LockoutTracker" where
  "NewLockoutTracker threshold ttl =
     \<lparr>lt_attempts = [], lt_locked = [], lt_threshold = (if threshold \<le> 0 then 5 else threshold),
      lt_ttl = (if ttl \<le> 0 then 15 * Minute else ttl), lt_maxEntries = 50000\<rparr>"

definition LockoutKey :: "string \<Rightarrow> string \<Rightarrow> string" where
  "LockoutKey authMethod subjectOrIP = authMethod @ '':'' @ subjectOrIP"

definition forget :: "string \<Rightarrow> LockoutTracker \<Rightarrow> LockoutTracker" where
  "forget key t = t\<lparr>lt_attempts := AList.delete key (lt_attempts t), lt_locked := AList.delete key (lt_locked t)\<rparr>"

definition IsLocked :: "go_time \<Rightarrow> string \<Rightarrow> LockoutTracker \<Rightarrow> bool \<times> LockoutTracker" where
  "IsLocked now key t =
     (case map_of (lt_locked t) key of
        None \<Rightarrow> (False, t)
      | Some until \<Rightarrow> if until < now then (False, forget key t) else (True, t))"

fun IsLockedAny :: "go_time \<Rightarrow> string list \<Rightarrow> LockoutTracker \<Rightarrow> bool \<times> LockoutTracker" where
  "IsLockedAny now [] t = (False, t)"
| "IsLockedAny now (k # ks) t =
     (case IsLocked now k t of (True, t') \<Rightarrow> (True, t') | (False, t') \<Rightarrow> IsLockedAny now ks t')"

definition purge_step :: "go_time \<Rightarrow> string \<times> go_time \<Rightarrow> LockoutTracker \<Rightarrow> LockoutTracker" where
  "purge_step now ku t = (if snd ku < now then forget (fst ku) t else t)"

definition purgeExpiredLocked :: "go_time \<Rightarrow> LockoutTracker \<Rightarrow> LockoutTracker" where
  "purgeExpiredLocked now t = fold (purge_step now) (lt_locked t) t"

text \<open>Stops once fewer than half of the allowed entries are left.\<close>

fun evict_keys :: "string list \<Rightarrow> LockoutTracker \<Rightarrow> LockoutTracker" where
  "evict_keys [] t = t"
| "evict_keys (k # ks) t =
     (if map_of (lt_locked t) k \<noteq> None then evict_keys ks t
      else (let t' = t\<lparr>lt_attempts := AList.delete k (lt_attempts t)\<rparr>
            in if int (length (lt_attempts t')) < lt_maxEntries t' div 2 then t' else evict_keys ks t'))"

definition evictAttemptsLocked :: "LockoutTracker \<Rightarrow> LockoutTracker" where
  "evictAttemptsLocked t = evict_keys (map fst (lt_attempts t)) t"

definition RecordFailure :: "go_time \<Rightarrow> go_time \<Rightarrow> string \<Rightarrow> LockoutTracker \<Rightarrow> bool \<times> LockoutTracker" where
  "RecordFailure now1 now2 key t0 =
     (let t1 = purgeExpiredLocked now1 t0;
          t2 = (if map_of (lt_attempts t1) key = None \<and> 0 < lt_maxEntries t1 \<and>
                   lt_maxEntries t1 \<le> int (length (lt_attempts t1))
                then evictAttemptsLocked t1 else t1);
          n = (case map_of (lt_attempts t2) key of None \<Rightarrow> 1 | Some n \<Rightarrow> n + 1);
          t3 = t2\<lparr>lt_attempts := AList.update key n (lt_attempts t2)\<rparr>
      in if lt_threshold t3 \<le> n
         then (True, t3\<lparr>lt_locked := AList.update key (now2 + lt_ttl t3) (lt_locked t3)\<rparr>)
         else (False, t3))"

definition RecordSuccess :: "string \<Rightarrow> LockoutTracker \<Rightarrow> LockoutTracker" where
  "RecordSuccess key t = forget key t"

definition lockout_Clear :: "string \<Rightarrow> LockoutTracker \<Rightarrow> LockoutTracker" where
  "lockout_Clear key t = forget key t"

section \<open>What the operations do to other keys\<close>

lemma forget_simps [simp]:
  "map_of (lt_attempts (forget k t)) = (map_of (lt_attempts t))(k := None)"
  "map_of (lt_locked (forget k t)) = (map_of (lt_locked t))(k := None)"
  "lt_threshold (forget k t) = lt_threshold t" "lt_ttl (forget k t) = lt_ttl t"
  "lt_maxEntries (forget k t) = lt_maxEntries t"
  by (simp_all add: forget_def delete_conv')

lemma purge_fold:
  "map_of (lt_locked (fold (purge_step now) kus t)) k =
     (if \<exists>u. (k, u) \<in> set kus \<and> u < now then None else map_of (lt_locked t) k)"
  "map_of (lt_attempts (fold (purge_step now) kus t)) k =
     (if \<exists>u. (k, u) \<in> set kus \<and> u < now then None else map_of (lt_attempts t) k)"
  "lt_threshold (fold (purge_step now) kus t) = lt_threshold t" "lt_ttl (fold (purge_step now) kus t) = lt_ttl t"
  by (induction kus arbitrary: t) (auto simp: purge_step_def)

lemma evict_locked [simp]:
  "lt_locked (evict_keys ks t) = lt_locked t" "lt_threshold (evict_keys ks t) = lt_threshold t" "lt_ttl (evict_keys ks t) = lt_ttl t"
  by (induction ks t rule: evict_keys.induct) (auto simp: Let_def)

lemma evict_attempts:
  "map_of (lt_attempts (evict_keys ks t)) k = Some n \<Longrightarrow> map_of (lt_attempts t) k = Some n"
  by (induction ks t rule: evict_keys.induct) (auto simp: Let_def delete_conv' split: if_splits)

lemma evict_keeps_locked:
  "map_of (lt_locked t) k = Some u \<Longrightarrow> map_of (lt_attempts (evict_keys ks t)) k = map_of (lt_attempts t) k"
  by (induction ks t rule: evict_keys.induct) (auto simp: Let_def delete_conv')

text \<open>The tracker before the counter is raised.\<close>

definition prepared :: "go_time \<Rightarrow> string \<Rightarrow> LockoutTracker \<Rightarrow> LockoutTracker" where
  "prepared now key t0 =
     (let t1 = purgeExpiredLocked now t0
      in if map_of (lt_attempts t1) key = None \<and> 0 < lt_maxEntries t1 \<and>
            lt_maxEntries t1 \<le> int (length (lt_attempts t1))
         then evictAttemptsLocked t1 else t1)"

lemma RecordFailure_prepared:
  "RecordFailure now1 now2 key t0 =
     (let t = prepared now1 key t0; n = (case map_of (lt_attempts t) key of None \<Rightarrow> 1 | Some n \<Rightarrow> n + 1)
      in if lt_threshold t \<le> n
         then (True, t\<lparr>lt_attempts := AList.update key n (lt_attempts t),
                       lt_locked := AList.update key (now2 + lt_ttl t) (lt_locked t)\<rparr>)
         else (False, t\<lparr>lt_attempts := AList.update key n (lt_attempts t)\<rparr>))"
  by (simp add: RecordFailure_def prepared_def Let_def)

lemma prepared_simps:
  "lt_locked (prepared now key t) = lt_locked (purgeExpiredLocked now t)"
  "lt_threshold (prepared now key t) = lt_threshold (purgeExpiredLocked now t)"
  "lt_ttl (prepared now key t) = lt_ttl (purgeExpiredLocked now t)"
  by (simp_all add: prepared_def Let_def evictAttemptsLocked_def)

lemma prepared_params: "lt_threshold (prepared now key t) = lt_threshold t" "lt_ttl (prepared now key t) = lt_ttl t"
  by (simp_all add: prepared_simps purgeExpiredLocked_def purge_fold)

lemma prepared_locked: "map_of (lt_locked (prepared now key t)) k =
    (if \<exists>u. (k, u) \<in> set (lt_locked t) \<and> u < now then None else map_of (lt_locked t) k)"
  by (simp add: prepared_simps purgeExpiredLocked_def purge_fold)

lemma prepared_attempts:
  "map_of (lt_attempts (prepared now key t)) k = Some n \<Longrightarrow> map_of (lt_attempts t) k = Some n"
  by (auto simp: prepared_def Let_def evictAttemptsLocked_def purgeExpiredLocked_def purge_fold dest!: evict_attempts split: if_splits)

lemma RecordFailure_locked:
  "map_of (lt_locked (snd (RecordFailure now1 now2 key t))) k = Some u \<Longrightarrow> k \<noteq> key \<Longrightarrow> map_of (lt_locked t) k = Some u"
  by (auto simp: RecordFailure_prepared Let_def prepared_locked update_conv' split: if_splits option.splits)

section \<open>A locked key stays locked\<close>

text \<open>
  One operation of the tracker, other than clearing the given key, at a clock reading of at most
  the given time.
\<close>

inductive lockout_step :: "string \<Rightarrow> go_time \<Rightarrow> LockoutTracker \<Rightarrow> LockoutTracker \<Rightarrow> bool" for key limit where
  ls_check: "now \<le> limit \<Longrightarrow> IsLocked now k t = (b, t') \<Longrightarrow> lockout_step key limit t t'"
| ls_failure: "now1 \<le> limit \<Longrightarrow> limit \<le> now2 + lt_ttl t \<Longrightarrow> RecordFailure now1 now2 k t = (b, t') \<Longrightarrow> lockout_step key limit t t'"
| ls_success: "k \<noteq> key \<Longrightarrow> RecordSuccess k t = t' \<Longrightarrow> lockout_step key limit t t'"
| ls_clear: "k \<noteq> key \<Longrightarrow> lockout_Clear k t = t' \<Longrightarrow> lockout_step key limit t t'"

definition locked_until :: "string \<Rightarrow> go_time \<Rightarrow> LockoutTracker \<Rightarrow> bool" where
  "locked_until key limit t \<longleftrightarrow> distinct (map fst (lt_locked t)) \<and> (\<exists>u \<ge> limit. map_of (lt_locked t) key = Some u)"

lemma purge_fold_distinct:
  "distinct (map fst (lt_locked t)) \<Longrightarrow> distinct (map fst (lt_locked (fold (purge_step now) kus t)))"
  by (induction kus arbitrary: t) (auto simp: purge_step_def forget_def distinct_delete)

lemma prepared_distinct: "distinct (map fst (lt_locked t)) \<Longrightarrow> distinct (map fst (lt_locked (prepared now key t)))"
  by (simp add: prepared_simps purgeExpiredLocked_def purge_fold_distinct)

lemma locked_until_prepared:
  assumes "locked_until key limit t" "now \<le> limit"
  shows "locked_until key limit (prepared now k t)"
proof -
  from assms obtain u where u: "distinct (map fst (lt_locked t))" "limit \<le> u" "map_of (lt_locked t) key = Some u"
    by (auto simp: locked_until_def)
  have "\<not> v < now" if "(key, v) \<in> set (lt_locked t)" for v
    using map_of_is_SomeI [OF u(1) that] u(2,3) assms(2) by simp
  then have "map_of (lt_locked (prepared now k t)) key = Some u" using u(3) by (simp only: prepared_locked) auto
  with u(2) prepared_distinct [OF u(1)] show ?thesis unfolding locked_until_def by blast
qed

lemma locked_until_checked: "locked_until key limit t \<Longrightarrow> now \<le> limit \<Longrightarrow> IsLocked now key t = (True, t)"
  by (auto simp: locked_until_def IsLocked_def)

lemma locked_until_forget: "locked_until key limit t \<Longrightarrow> k \<noteq> key \<Longrightarrow> locked_until key limit (forget k t)"
  by (auto simp: locked_until_def forget_def distinct_delete delete_conv')

lemma locked_until_update:
  "locked_until key limit t \<Longrightarrow> limit \<le> v \<Longrightarrow>
   locked_until key limit (t\<lparr>lt_attempts := a, lt_locked := AList.update k v (lt_locked t)\<rparr>)"
  "locked_until key limit t \<Longrightarrow> locked_until key limit (t\<lparr>lt_attempts := a\<rparr>)"
  by (auto simp: locked_until_def distinct_update update_conv' simp del: map_of_eq_Some_iff)

lemma lockout_step_keeps:
  assumes "lockout_step key limit t t'" "locked_until key limit t"
  shows "locked_until key limit t'"
  using assms(1)
proof cases
  case (ls_check now k b)
  show ?thesis
  proof (cases "k = key")
    case True
    with ls_check locked_until_checked [OF assms(2)] assms(2) show ?thesis by simp
  next
    case False
    with ls_check assms(2) locked_until_forget [OF assms(2) False] show ?thesis
      by (auto simp: IsLocked_def split: option.splits if_splits)
  qed
next
  case (ls_failure now1 now2 k b)
  note p = locked_until_prepared [OF assms(2) ls_failure(1), of k]
  from ls_failure(2) have l: "limit \<le> now2 + lt_ttl (prepared now1 k t)" by (simp add: prepared_params)
  from ls_failure(3) show ?thesis
    using locked_until_update(1) [OF p l] locked_until_update(2) [OF p]
    by (auto simp: RecordFailure_prepared Let_def split: if_splits)
qed (use assms(2) in \<open>auto simp: RecordSuccess_def lockout_Clear_def locked_until_forget\<close>)

section \<open>Reaching the threshold\<close>

text \<open>A run of failures for one key, each with its two clock readings; the result of the last one.\<close>

fun failures :: "(go_time \<times> go_time) list \<Rightarrow> string \<Rightarrow> bool \<times> LockoutTracker \<Rightarrow> bool \<times> LockoutTracker" where
  "failures [] key bt = bt"
| "failures ((now1, now2) # ts) key bt = failures ts key (RecordFailure now1 now2 key (snd bt))"

lemma failure_below:
  assumes "lt_locked t = []" "lt_attempts t = (if n = 0 then [] else [(key, int n)])" "0 < lt_maxEntries t" "int (Suc n) < lt_threshold t"
  shows "RecordFailure now1 now2 key t = (False, t\<lparr>lt_attempts := [(key, int (Suc n))]\<rparr>)"
  using assms by (simp add: RecordFailure_def Let_def purgeExpiredLocked_def)

lemma failure_at:
  assumes "lt_locked t = []" "lt_attempts t = (if n = 0 then [] else [(key, int n)])" "0 < lt_maxEntries t" "lt_threshold t \<le> int (Suc n)"
  shows "RecordFailure now1 now2 key t = (True, t\<lparr>lt_attempts := [(key, int (Suc n))], lt_locked := [(key, now2 + lt_ttl t)]\<rparr>)"
  using assms by (simp add: RecordFailure_def Let_def purgeExpiredLocked_def)

lemma failures_count:
  assumes "lt_locked t = []" "lt_attempts t = (if n = 0 then [] else [(key, int n)])" "0 < lt_maxEntries t"
    "int (n + length ts) < lt_threshold t" "ts \<noteq> []"
  shows "failures ts key (b, t) = (False, t\<lparr>lt_attempts := [(key, int (n + length ts))]\<rparr>)"
  using assms
proof (induction ts arbitrary: b t n)
  case (Cons x ts)
  obtain now1 now2 where x: "x = (now1, now2)" by fastforce
  let ?t = "t\<lparr>lt_attempts := [(key, int (Suc n))]\<rparr>"
  have f: "RecordFailure now1 now2 key t = (False, ?t)" using Cons.prems by (intro failure_below) auto
  show ?case
  proof (cases "ts = []")
    case False
    with Cons.IH [of ?t "Suc n"] Cons.prems f x show ?thesis by simp
  qed (use f x in simp)
qed simp



end
