(* ===== verification/Login.thy ===== *)
theory Login
  imports AuthService Lockout
begin

text \<open>
  The login flows of \<^verbatim>\<open>internal/auth\<close>: \<^verbatim>\<open>LoginKubernetes\<close> and \<^verbatim>\<open>LoginOIDC\<close> (token.go, oidc.go),
  \<^verbatim>\<open>LoginWithTokenEndpoint\<close> (login_audit.go), \<^verbatim>\<open>LoginAppRole\<close> (approle.go), with the role resolver,
  the service account binding, the lockout keys and the audit events they record.

  The JWT library, the Kubernetes token review and the fetching of key sets are parameters. The
  state has the token store, the lockout tracker, the machine identities recorded and the audit
  events, oldest first. Whether a machine identity is revoked is an argument.
\<close>

section \<open>Roles\<close>

record OIDCConfig =
  oc_Issuer :: string
  oc_Audience :: string
  oc_JWKSURL :: string
  oc_MaxTTL :: int

record Role =
  role_Name :: string
  role_Policies :: "string list"
  role_PolicyGroups :: "string list"
  role_BoundServiceAccountNames :: "string list"
  role_BoundServiceAccountNamespaces :: "string list"
  role_AuthMethod :: string
  role_OIDC :: "OIDCConfig option"
  role_RequireMFA :: bool

definition Role_Validate :: "Role \<Rightarrow> string option" where
  "Role_Validate r =
     (if role_Name r = [] then Some ''role name is required''
      else if role_Policies r = [] then Some ''role requires at least one policy''
      else None)"

definition MatchServiceAccountBinding :: "Role \<Rightarrow> ServiceAccountIdentity \<Rightarrow> error option" where
  "MatchServiceAccountBinding role i =
     (let names = role_BoundServiceAccountNames role; nss = role_BoundServiceAccountNamespaces role
      in if names = [] \<and> nss = []
         then Some (New ErrCodeForbidden ''kubernetes role requires service account bindings'')
         else if sa_Namespace i = [] \<or> sa_Name i = []
         then Some (New ErrCodeForbidden ''service account identity required'')
         else if nss \<noteq> [] \<and> sa_Namespace i \<notin> set nss \<and> ''*'' \<notin> set nss
         then Some (New ErrCodeForbidden ''service account namespace not bound to role'')
         else if names \<noteq> [] \<and> sa_Name i \<notin> set names \<and> ''*'' \<notin> set names
         then Some (New ErrCodeForbidden ''service account name not bound to role'')
         else None)"

fun flatten_names :: "string list \<Rightarrow> string list \<Rightarrow> string list" where
  "flatten_names seen [] = []"
| "flatten_names seen (n # ns) =
     (if n = [] \<or> n \<in> set seen then flatten_names seen ns else n # flatten_names (n # seen) ns)"

definition flattenRolePolicies :: "string list \<Rightarrow> string list \<Rightarrow> string list" where
  "flattenRolePolicies pols groups = (if groups = [] then pols else flatten_names [] (pols @ groups))"

type_synonym role_table = "string \<rightharpoonup> Role"

definition GetStoredRole :: "role_table \<Rightarrow> string \<Rightarrow> Role res" where
  "GetStoredRole roles name =
     (case roles name of None \<Rightarrow> Inl (New ErrCodeNotFound ''role not found'') | Some r \<Rightarrow> Inr r)"

text \<open>\<^verbatim>\<open>GetRole\<close> falls back on the built-in roles, which are never without a policy.\<close>

definition resolver_PoliciesForRole :: "role_table \<Rightarrow> string \<Rightarrow> string list" where
  "resolver_PoliciesForRole roles role =
     (case GetStoredRole roles role of
        Inr stored \<Rightarrow> flattenRolePolicies (role_Policies stored) (role_PolicyGroups stored)
      | Inl _ \<Rightarrow> PoliciesForRole role)"

section \<open>Audit and lockout keys\<close>

record LoginAuditContext =
  la_AuthMethod :: string
  la_SourceIP :: string
  la_ClientIdentity :: string
  la_RequestID :: string
  la_Namespace :: string
  la_FailureReason :: string

definition loginAuditFromContext :: "RequestContext option \<Rightarrow> string \<Rightarrow> LoginAuditContext" where
  "loginAuditFromContext req meth =
     (case req of
        Some r \<Rightarrow> \<lparr>la_AuthMethod = meth, la_SourceIP = ClientIP r, la_ClientIdentity = [], la_RequestID = RequestID r,
                    la_Namespace = rc_Namespace r, la_FailureReason = []\<rparr>
      | None \<Rightarrow> \<lparr>la_AuthMethod = meth, la_SourceIP = [], la_ClientIdentity = [], la_RequestID = [],
                 la_Namespace = [], la_FailureReason = []\<rparr>)"

definition LoginLockoutKey :: "string \<Rightarrow> LoginAuditContext \<Rightarrow> string" where
  "LoginLockoutKey meth actx =
     (if la_ClientIdentity actx \<noteq> [] then LockoutKey meth (la_ClientIdentity actx)
      else if la_SourceIP actx \<noteq> [] then LockoutKey meth (la_SourceIP actx)
      else LockoutKey meth ''unknown'')"

definition LoginLockoutKeys :: "string \<Rightarrow> LoginAuditContext \<Rightarrow> string list" where
  "LoginLockoutKeys meth actx =
     (let keys = remdups ((if la_ClientIdentity actx \<noteq> [] then [LockoutKey meth (la_ClientIdentity actx)] else []) @
                          (if la_SourceIP actx \<noteq> [] then [LockoutKey meth (la_SourceIP actx)] else []))
      in if keys = [] then [LockoutKey meth ''unknown''] else keys)"

record audit_event =
  ev_actor :: string
  ev_action :: string
  ev_resource :: string
  ev_status :: string
  ev_reason :: string

record 'r auth_state =
  au_tokens :: "'r token_state"
  au_lockout :: "LockoutTracker option"
  au_identities :: "MachineIdentity list"
  au_audit :: "audit_event list"

definition recordLoginAudit :: "bool \<Rightarrow> LoginAuditContext \<Rightarrow> 'r auth_state \<Rightarrow> 'r auth_state" where
  "recordLoginAudit success actx st =
     st\<lparr>au_audit := au_audit st @
        [\<lparr>ev_actor = (if la_ClientIdentity actx = [] then ''anonymous'' else la_ClientIdentity actx),
          ev_action = (if success then ''auth.login'' else ''auth.login.failed''),
          ev_resource = ''auth/'' @ la_AuthMethod actx,
          ev_status = (if success then ''success'' else ''failure''), ev_reason = la_FailureReason actx\<rparr>]\<rparr>"

definition recordLockoutAudit :: "string \<Rightarrow> LoginAuditContext \<Rightarrow> 'r auth_state \<Rightarrow> 'r auth_state" where
  "recordLockoutAudit lockKey actx st =
     st\<lparr>au_audit := au_audit st @
        [\<lparr>ev_actor = (if la_SourceIP actx = [] then ''anonymous'' else la_SourceIP actx), ev_action = ''auth.lockout'',
          ev_resource = ''auth/'' @ la_AuthMethod actx, ev_status = ''failure'', ev_reason = lockKey\<rparr>]\<rparr>"

text \<open>The clock readings and the random bytes of one login.\<close>

record login_env =
  le_check :: go_time
  le_fail1 :: go_time
  le_fail2 :: go_time
  le_issue1 :: go_time
  le_issue2 :: go_time
  le_rnd :: entropy

definition lockout_primary :: "string \<Rightarrow> LoginAuditContext \<Rightarrow> string" where
  "lockout_primary lockKey actx =
     (let primary = LoginLockoutKey (la_AuthMethod actx) actx
      in if (primary = [] \<or> primary = LockoutKey (la_AuthMethod actx) ''unknown'') \<and> lockKey \<noteq> [] then lockKey else primary)"

definition noteLockoutFailure :: "login_env \<Rightarrow> string \<Rightarrow> LoginAuditContext \<Rightarrow> 'r auth_state \<Rightarrow> 'r auth_state" where
  "noteLockoutFailure env lockKey actx st =
     (case au_lockout st of
        None \<Rightarrow> st
      | Some t \<Rightarrow>
          (let primary = lockout_primary lockKey actx
           in case RecordFailure (le_fail1 env) (le_fail2 env) primary t of
                (locked, t') \<Rightarrow>
                  (let st' = st\<lparr>au_lockout := Some t'\<rparr>
                   in if locked then recordLockoutAudit primary actx st' else st')))"

definition recordLoginFailure :: "login_env \<Rightarrow> string \<Rightarrow> LoginAuditContext \<Rightarrow> string \<Rightarrow> 'r auth_state \<Rightarrow> 'r auth_state" where
  "recordLoginFailure env lockKey actx reason st =
     (let actx' = actx\<lparr>la_FailureReason := reason\<rparr>
      in noteLockoutFailure env lockKey actx' (recordLoginAudit False actx' st))"

definition check_lockout :: "login_env \<Rightarrow> string \<Rightarrow> LoginAuditContext \<Rightarrow> 'r auth_state \<Rightarrow> bool \<times> 'r auth_state" where
  "check_lockout env meth actx st =
     (case au_lockout st of
        None \<Rightarrow> (False, st)
      | Some t \<Rightarrow> (case IsLockedAny (le_check env) (LoginLockoutKeys meth actx) t of
                    (b, t') \<Rightarrow> (b, st\<lparr>au_lockout := Some t'\<rparr>)))"

definition clear_lockout :: "string \<Rightarrow> 'r auth_state \<Rightarrow> 'r auth_state" where
  "clear_lockout lockKey st = st\<lparr>au_lockout := map_option (RecordSuccess lockKey) (au_lockout st)\<rparr>"

definition ClearLockout :: "string \<Rightarrow> string \<Rightarrow> string \<Rightarrow> 'r auth_state \<Rightarrow> 'r auth_state" where
  "ClearLockout actor authMethod sourceIP st =
     (case au_lockout st of
        None \<Rightarrow> st
      | Some t \<Rightarrow>
          (let key = LockoutKey authMethod sourceIP
           in st\<lparr>au_lockout := Some (lockout_Clear key t),
                 au_audit := au_audit st @
                   [\<lparr>ev_actor = actor, ev_action = ''auth.lockout.clear'', ev_resource = ''auth/'' @ authMethod,
                     ev_status = ''success'', ev_reason = []\<rparr>]\<rparr>))"

text \<open>A failure that is audited but not counted, and one that is counted as well.\<close>

definition fail_audit :: "LoginAuditContext \<Rightarrow> string \<Rightarrow> error \<Rightarrow> 'r auth_state \<Rightarrow> 'a res \<times> 'r auth_state" where
  "fail_audit actx reason err st = (Inl err, recordLoginAudit False (actx\<lparr>la_FailureReason := reason\<rparr>) st)"

definition fail_count :: "login_env \<Rightarrow> string \<Rightarrow> LoginAuditContext \<Rightarrow> string \<Rightarrow> error \<Rightarrow> 'r auth_state \<Rightarrow> 'a res \<times> 'r auth_state" where
  "fail_count env lockKey actx reason err st = (Inl err, recordLoginFailure env lockKey actx reason st)"

section \<open>Token login\<close>

definition LoginWithTokenEndpoint :: "'r TokenRepository option \<Rightarrow> login_env \<Rightarrow> RequestContext option \<Rightarrow> string \<Rightarrow> 'r auth_state
    \<Rightarrow> ClientToken res \<times> 'r auth_state" where
  "LoginWithTokenEndpoint repo env req token st =
     (let actx = loginAuditFromContext req ''token''; lockKey = LoginLockoutKey ''token'' actx
      in case check_lockout env ''token'' actx st of
           (True, st1) \<Rightarrow> fail_audit actx ''identity locked out'' (New ErrCodeForbidden ''identity locked out'') st1
         | (False, st1) \<Rightarrow>
             if token = [] then fail_count env lockKey actx ''token is required'' (New ErrCodeValidation ''token is required'') st1
             else (case Authenticate repo (le_issue1 env) token (au_tokens st1) of
                     (Inl err, ts) \<Rightarrow> fail_count env lockKey actx ''invalid token'' err (st1\<lparr>au_tokens := ts\<rparr>)
                   | (Inr record, ts) \<Rightarrow> (Inr record, clear_lockout lockKey (st1\<lparr>au_tokens := ts\<rparr>))))"

section \<open>Kubernetes login\<close>

record TokenReviewResult =
  rv_Authenticated :: bool
  rv_Username :: string
  rv_Namespace :: string
  rv_ServiceAccountName :: string

text \<open>The claims a JWT carries when they are a map, and whether the token is valid.\<close>

record k8s_options =
  ko_Reviewer :: "(string \<Rightarrow> TokenReviewResult option res) option"
  ko_RaftEnabled :: bool
  ko_InsecureDev :: bool
  ko_jwtSecret :: string
  ko_Parse :: "string \<Rightarrow> string \<Rightarrow> (any_map option \<times> bool) res"
  ko_ParseUnverified :: "string \<Rightarrow> any_map option res"

definition string_claim :: "any_map \<Rightarrow> string \<Rightarrow> string" where
  "string_claim claims k = (case map_of claims k of Some (Str s) \<Rightarrow> s | _ \<Rightarrow> [])"

definition sa_subject :: "ServiceAccountIdentity \<Rightarrow> string" where
  "sa_subject i = ''system:serviceaccount:'' @ sa_Namespace i @ '':'' @ sa_Name i"

definition no_identity :: ServiceAccountIdentity where
  "no_identity = \<lparr>sa_Namespace = [], sa_Name = [], sa_Username = []\<rparr>"

type_synonym k8s_identity = "ServiceAccountIdentity \<times> string \<times> error option"

definition identityFromJWTClaims :: "any_map \<Rightarrow> string \<Rightarrow> k8s_identity" where
  "identityFromJWTClaims claims role =
     (let subject = string_claim claims ''sub''
      in if subject = [] then (no_identity, [], Some (New ErrCodeUnauthorized ''kubernetes jwt subject is required''))
         else (case ParseServiceAccountUsername subject of
                 None \<Rightarrow> (no_identity, [], Some (New ErrCodeUnauthorized ''kubernetes jwt subject must be a service account''))
               | Some i \<Rightarrow> (i, if subject = role then sa_subject i else subject, None)))"

definition parseUnverifiedKubernetesJWT :: "k8s_options \<Rightarrow> string \<Rightarrow> string \<Rightarrow> k8s_identity" where
  "parseUnverifiedKubernetesJWT ko jwtToken role =
     (case ko_ParseUnverified ko jwtToken of
        Inl err \<Rightarrow> (no_identity, [], Some (Wrap ErrCodeUnauthorized ''invalid kubernetes jwt'' err))
      | Inr None \<Rightarrow> (no_identity, [], Some (New ErrCodeUnauthorized ''invalid kubernetes jwt claims''))
      | Inr (Some claims) \<Rightarrow> identityFromJWTClaims claims role)"

definition reviewed_identity :: "TokenReviewResult \<Rightarrow> ServiceAccountIdentity" where
  "reviewed_identity review =
     (let i = \<lparr>sa_Namespace = rv_Namespace review, sa_Name = rv_ServiceAccountName review, sa_Username = rv_Username review\<rparr>
      in if sa_Namespace i = [] \<or> sa_Name i = []
         then (case ParseServiceAccountUsername (rv_Username review) of Some parsed \<Rightarrow> parsed | None \<Rightarrow> i)
         else i)"

definition validateKubernetesJWT :: "k8s_options \<Rightarrow> string \<Rightarrow> string \<Rightarrow> k8s_identity" where
  "validateKubernetesJWT ko role jwtToken =
     (case ko_Reviewer ko of
        Some Review \<Rightarrow>
          (case Review jwtToken of
             Inl err \<Rightarrow> (no_identity, [], Some (Wrap ErrCodeUnauthorized ''token review failed'' err))
           | Inr None \<Rightarrow> (no_identity, [], Some (New ErrCodeUnauthorized ''kubernetes token not authenticated''))
           | Inr (Some review) \<Rightarrow>
               if \<not> rv_Authenticated review
               then (no_identity, [], Some (New ErrCodeUnauthorized ''kubernetes token not authenticated''))
               else (let i = reviewed_identity review
                     in (i, if rv_Username review = [] then sa_subject i else rv_Username review, None)))
      | None \<Rightarrow>
          if ko_RaftEnabled ko
          then (no_identity, [], Some (New ErrCodeUnauthorized ''kubernetes token review required in production''))
          else if ko_InsecureDev ko then parseUnverifiedKubernetesJWT ko jwtToken role
          else if ko_jwtSecret ko \<noteq> []
          then (case ko_Parse ko (ko_jwtSecret ko) jwtToken of
                  Inl err \<Rightarrow> (no_identity, [], Some (Wrap ErrCodeUnauthorized ''invalid kubernetes jwt'' err))
                | Inr (Some claims, True) \<Rightarrow> identityFromJWTClaims claims role
                | Inr _ \<Rightarrow> (no_identity, [], Some (New ErrCodeUnauthorized ''invalid kubernetes jwt claims'')))
          else (no_identity, [], Some (New ErrCodeUnauthorized ''kubernetes authentication not configured'')))"

text \<open>The role's checks after the JWT was accepted: the policies, or the reason and the error.\<close>

definition k8s_role_policies :: "role_table \<Rightarrow> string \<Rightarrow> ServiceAccountIdentity \<Rightarrow> (string \<times> error) + string list" where
  "k8s_role_policies roles role i =
     (case GetStoredRole roles role of
        Inl err \<Rightarrow> Inl (''role not found'', Wrap ErrCodeForbidden ''role not found'' err)
      | Inr storedRole \<Rightarrow>
          if role_AuthMethod storedRole \<noteq> [] \<and> role_AuthMethod storedRole \<noteq> ''kubernetes''
          then Inl (''role does not allow kubernetes login'', New ErrCodeForbidden ''role does not allow kubernetes login'')
          else (case MatchServiceAccountBinding storedRole i of
                  Some err \<Rightarrow> Inl (''service account binding mismatch'', err)
                | None \<Rightarrow>
                    (let pols = resolver_PoliciesForRole roles role
                     in if pols = [] then Inl (''role has no policies'', New ErrCodeForbidden ''role has no policies'')
                        else Inr pols)))"

text \<open>The machine identity check before a token is issued; the recorder is absent when it is None.\<close>

definition with_identity :: "(string \<Rightarrow> bool res) option \<Rightarrow> MachineIdentity \<Rightarrow> 'r auth_state \<Rightarrow> error option \<times> 'r auth_state" where
  "with_identity isRevoked mi st =
     (case isRevoked of
        None \<Rightarrow> (None, st)
      | Some f \<Rightarrow>
          (case f (mi_ID mi) of
             Inl err \<Rightarrow> (Some (Wrap ErrCodeUnavailable ''identity check failed'' err), st)
           | Inr True \<Rightarrow> (Some (New ErrCodeForbidden ''machine identity revoked''), st)
           | Inr False \<Rightarrow> (None, st\<lparr>au_identities := au_identities st @ [mi]\<rparr>)))"

definition finish_login :: "(string \<times> ClientToken \<times> 'r token_state) res \<Rightarrow> 'r auth_state \<Rightarrow> (string \<times> ClientToken) res \<times> 'r auth_state" where
  "finish_login created st =
     (case created of
        Inl err \<Rightarrow> (Inl err, st)
      | Inr (token, record, ts) \<Rightarrow> (Inr (token, record), st\<lparr>au_tokens := ts\<rparr>))"

definition LoginKubernetes :: "'r TokenRepository option \<Rightarrow> duration \<Rightarrow> k8s_options \<Rightarrow> role_table option \<Rightarrow> (string \<Rightarrow> bool res) option
    \<Rightarrow> login_env \<Rightarrow> RequestContext option \<Rightarrow> string \<Rightarrow> string \<Rightarrow> 'r auth_state \<Rightarrow> (string \<times> ClientToken) res \<times> 'r auth_state" where
  "LoginKubernetes repo sttl ko roles isRevoked env req role jwtToken st =
     (let actx = loginAuditFromContext req ''kubernetes''; lockKey = LoginLockoutKey ''kubernetes'' actx
      in case check_lockout env ''kubernetes'' actx st of
           (True, st1) \<Rightarrow> fail_audit actx ''identity locked out'' (New ErrCodeForbidden ''identity locked out'') st1
         | (False, st1) \<Rightarrow>
             if jwtToken = [] then fail_audit actx ''jwt is required'' (New ErrCodeValidation ''jwt is required'') st1
             else if role = [] then fail_audit actx ''role is required'' (New ErrCodeValidation ''role is required'') st1
             else (case validateKubernetesJWT ko role jwtToken of (identity, subject, verr) \<Rightarrow>
               (let actx1 = actx\<lparr>la_ClientIdentity := subject, la_Namespace := sa_Namespace identity\<rparr>
                in case verr of
                     Some err \<Rightarrow> fail_count env lockKey actx1 ''kubernetes jwt validation failed'' err st1
                   | None \<Rightarrow>
                (case roles of
                   None \<Rightarrow> fail_audit actx1 ''kubernetes login requires persisted roles''
                             (New ErrCodeForbidden ''kubernetes login requires persisted roles'') st1
                 | Some rs \<Rightarrow>
                (case k8s_role_policies rs role identity of
                   Inl (reason, err) \<Rightarrow> fail_count env lockKey actx1 reason err st1
                 | Inr pols \<Rightarrow>
                (case with_identity isRevoked
                        \<lparr>mi_ID = NHIKey ''k8s_sa'' (sa_Namespace identity) (sa_Name identity) subject, mi_Type = ''k8s_sa'',
                         mi_BoundNamespace = sa_Namespace identity, mi_BoundName = sa_Name identity, mi_Policies = pols,
                         mi_MaxTTL = 0, mi_LastSeen = 0, mi_Revoked = False, mi_ParentIdentityID = []\<rparr> st1 of
                   (Some err, st2) \<Rightarrow> (Inl err, st2)
                 | (None, st2) \<Rightarrow>
                     (let st3 = recordLoginAudit True actx1 (clear_lockout lockKey st2)
                      in finish_login (Issue repo sttl (le_rnd env) (le_issue1 env) (le_issue2 env) subject pols (au_tokens st3)) st3)))))))"

section \<open>OIDC login\<close>

text \<open>
  The JWT library calls the key function with whether the token's method is an RSA one and with its
  key identifier; it returns the claims and the validity, or an error with whether its text
  mentions an unknown key identifier. The key sets are those of the first and the second attempt.
\<close>

record oidc_validator =
  ov_keys :: "string \<Rightarrow> nat \<Rightarrow> any_map res"
  ov_Parse :: "(bool \<Rightarrow> string \<Rightarrow> any res) \<Rightarrow> string \<Rightarrow> (bool \<times> error) + (any_map option \<times> bool)"

definition oidc_keyfunc :: "any_map \<Rightarrow> bool \<Rightarrow> string \<Rightarrow> any res" where
  "oidc_keyfunc keys is_rsa kid =
     (if \<not> is_rsa then Inl (New ErrCodeUnauthorized ''unexpected signing method'')
      else if kid \<noteq> []
      then (case map_of keys kid of
              Some key \<Rightarrow> Inr key
            | None \<Rightarrow> Inl (New ErrCodeUnauthorized ''unknown kid''))
      else (case keys of
              [(_, key)] \<Rightarrow> Inr key
            | _ \<Rightarrow> Inl (New ErrCodeUnauthorized ''jwt missing kid'')))"

definition audienceMatches :: "any option \<Rightarrow> string \<Rightarrow> bool" where
  "audienceMatches audClaim expected =
     (case audClaim of
        Some (Str v) \<Rightarrow> v = expected
      | Some (Anys v) \<Rightarrow> list_ex (\<lambda>item. item = Str expected) v
      | _ \<Rightarrow> False)"

definition oidc_claims :: "OIDCConfig \<Rightarrow> any_map option \<times> bool \<Rightarrow> (string \<times> any_map) res" where
  "oidc_claims cfg parsed =
     (case parsed of
        (Some claims, True) \<Rightarrow>
          if TrimSpace (oc_Issuer cfg) = [] then Inl (New ErrCodeUnauthorized ''oidc issuer is required'')
          else if string_claim claims ''iss'' \<noteq> oc_Issuer cfg then Inl (New ErrCodeUnauthorized ''issuer mismatch'')
          else if TrimSpace (oc_Audience cfg) = [] then Inl (New ErrCodeUnauthorized ''oidc audience is required'')
          else if \<not> audienceMatches (map_of claims ''aud'') (oc_Audience cfg) then Inl (New ErrCodeUnauthorized ''audience mismatch'')
          else if string_claim claims ''sub'' = [] then Inl (New ErrCodeUnauthorized ''oidc subject required'')
          else Inr (string_claim claims ''sub'', claims)
      | _ \<Rightarrow> Inl (New ErrCodeUnauthorized ''invalid oidc jwt claims''))"

definition oidc_attempt :: "oidc_validator \<Rightarrow> OIDCConfig \<Rightarrow> string \<Rightarrow> nat \<Rightarrow> (bool \<times> error) + (any_map option \<times> bool)" where
  "oidc_attempt v cfg token attempt =
     (case ov_keys v (oc_JWKSURL cfg) attempt of
        Inl keyErr \<Rightarrow> Inl (False, Wrap ErrCodeUnauthorized ''jwks unavailable'' keyErr)
      | Inr keys \<Rightarrow>
          (case ov_Parse v (oidc_keyfunc keys) token of
             Inl (unknown, err) \<Rightarrow> Inl (unknown, Wrap ErrCodeUnauthorized ''invalid oidc jwt'' err)
           | Inr parsed \<Rightarrow> Inr parsed))"

definition oidc_Validate :: "oidc_validator \<Rightarrow> OIDCConfig \<Rightarrow> string \<Rightarrow> (string \<times> any_map) res" where
  "oidc_Validate v cfg token =
     (if oc_JWKSURL cfg = [] then Inl (New ErrCodeValidation ''oidc jwks_url is required'')
      else (case oidc_attempt v cfg token 0 of
              Inr parsed \<Rightarrow> oidc_claims cfg parsed
            | Inl (True, _) \<Rightarrow>
                (case oidc_attempt v cfg token 1 of
                   Inr parsed \<Rightarrow> oidc_claims cfg parsed
                 | Inl (_, err) \<Rightarrow> Inl err)
            | Inl (False, err) \<Rightarrow> Inl err))"

definition mfa_method :: "any \<Rightarrow> bool" where
  "mfa_method a \<longleftrightarrow> a = Str ''mfa'' \<or> a = Str ''otp'' \<or> a = Str ''hwk''"

definition CheckMFA :: "bool \<Rightarrow> any_map \<Rightarrow> error option" where
  "CheckMFA requireMFA claims =
     (if \<not> requireMFA then None
      else if (case map_of claims ''acr'' of
                 Some (Str v) \<Rightarrow> v = ''mfa'' \<or> v = ''urn:mace:incommon:iap:silver''
               | Some (Num v) \<Rightarrow> 2 \<le> v
               | _ \<Rightarrow> False) then None
      else if (case map_of claims ''amr'' of
                 Some (Str v) \<Rightarrow> mfa_method (Str v)
               | Some (Anys v) \<Rightarrow> list_ex mfa_method v
               | _ \<Rightarrow> False) then None
      else Some (New ErrCodeForbidden ''mfa required for administrative role''))"

definition OIDCTTL :: "OIDCConfig option \<Rightarrow> duration \<Rightarrow> duration" where
  "OIDCTTL cfg defaultTTL =
     (let over = (case cfg of
                    Some c \<Rightarrow> 0 < oc_MaxTTL c \<and> wrap64 (oc_MaxTTL c * Second) < defaultTTL
                  | None \<Rightarrow> False)
      in if over then (case cfg of Some c \<Rightarrow> wrap64 (oc_MaxTTL c * Second) | None \<Rightarrow> 0)
         else if defaultTTL \<le> 0 then Hour else defaultTTL)"

definition OIDCSubjectLabel :: "string \<Rightarrow> string \<Rightarrow> string" where
  "OIDCSubjectLabel issuer0 sub =
     (let issuer = TrimSpace issuer0
      in if issuer = [] then ''oidc:'' @ sub else ''oidc:'' @ issuer @ '':'' @ sub)"

text \<open>The role's OIDC settings; a role that is not stored is refused only when roles are persisted.\<close>

definition oidc_role :: "role_table option \<Rightarrow> string \<Rightarrow> (string \<times> error) + (OIDCConfig \<times> bool)" where
  "oidc_role roles role =
     (case roles of
        None \<Rightarrow> Inl (''oidc not configured for role'', New ErrCodeValidation ''oidc not configured for role'')
      | Some rs \<Rightarrow>
          (case GetStoredRole rs role of
             Inl err \<Rightarrow> Inl (''role not found'', Wrap ErrCodeForbidden ''role not found'' err)
           | Inr storedRole \<Rightarrow>
               if role_AuthMethod storedRole \<noteq> [] \<and> role_AuthMethod storedRole \<noteq> ''oidc''
               then Inl (''role does not allow oidc login'', New ErrCodeForbidden ''role does not allow oidc login'')
               else (case role_OIDC storedRole of
                       None \<Rightarrow> Inl (''oidc not configured for role'', New ErrCodeValidation ''oidc not configured for role'')
                     | Some cfg \<Rightarrow> Inr (cfg, role_RequireMFA storedRole))))"

definition LoginOIDC :: "'r TokenRepository option \<Rightarrow> duration \<Rightarrow> oidc_validator option \<Rightarrow> duration \<Rightarrow> role_table option
    \<Rightarrow> (string \<Rightarrow> bool res) option \<Rightarrow> login_env \<Rightarrow> RequestContext option \<Rightarrow> string \<Rightarrow> string \<Rightarrow> 'r auth_state
    \<Rightarrow> (string \<times> ClientToken) res \<times> 'r auth_state" where
  "LoginOIDC repo sttl oidc oidcTTL roles isRevoked env req role jwtToken st =
     (let actx = loginAuditFromContext req ''oidc''; lockKey = LoginLockoutKey ''oidc'' actx
      in case check_lockout env ''oidc'' actx st of
           (True, st1) \<Rightarrow> fail_audit actx ''identity locked out'' (New ErrCodeForbidden ''identity locked out'') st1
         | (False, st1) \<Rightarrow>
             if jwtToken = [] then fail_audit actx ''jwt is required'' (New ErrCodeValidation ''jwt is required'') st1
             else if role = [] then fail_audit actx ''role is required'' (New ErrCodeValidation ''role is required'') st1
             else (case oidc of
                     None \<Rightarrow> fail_audit actx ''oidc not configured'' (New ErrCodeUnauthorized ''oidc authentication not configured'') st1
                   | Some v \<Rightarrow>
             (case oidc_role roles role of
                Inl (reason, err) \<Rightarrow> fail_audit actx reason err st1
              | Inr (cfg, requireMFA) \<Rightarrow>
             (case oidc_Validate v cfg jwtToken of
                Inl err \<Rightarrow> fail_count env lockKey actx ''oidc jwt validation failed'' err st1
              | Inr (subject, claims) \<Rightarrow>
             (let actx1 = actx\<lparr>la_ClientIdentity := subject\<rparr>
              in case CheckMFA requireMFA claims of
                   Some err \<Rightarrow> fail_count env lockKey actx1 ''mfa required for administrative role'' err st1
                 | None \<Rightarrow>
             (let pols = (case roles of Some rs \<Rightarrow> resolver_PoliciesForRole rs role | None \<Rightarrow> PoliciesForRole role);
                  ttl = OIDCTTL (Some cfg) oidcTTL
              in case with_identity isRevoked
                        \<lparr>mi_ID = NHIKey ''oidc'' [] [] subject, mi_Type = ''oidc'', mi_BoundNamespace = [],
                         mi_BoundName = subject, mi_Policies = pols, mi_MaxTTL = ttl div Second, mi_LastSeen = 0, mi_Revoked = False, mi_ParentIdentityID = []\<rparr> st1 of
                   (Some err, st2) \<Rightarrow> (Inl err, st2)
                 | (None, st2) \<Rightarrow>
                     (let st3 = recordLoginAudit True actx1 (clear_lockout lockKey st2)
                      in finish_login
                           (Create repo sttl (le_rnd env) (le_issue2 env) (OIDCSubjectLabel (oc_Issuer cfg) subject) pols ttl
                              True (le_issue1 env + ttl) (au_tokens st3)) st3)))))))"

section \<open>AppRole login\<close>

record AppRole =
  ar_RoleID :: string
  ar_Subject :: string
  ar_Policies :: "string list"
  ar_secretHash :: string

type_synonym approle_table = "string \<rightharpoonup> AppRole"

definition hashSecretID :: "string \<Rightarrow> string \<Rightarrow> string" where
  "hashSecretID roleID secretID = sha256_hex (roleID @ [CHR 0x00] @ secretID)"

definition AppRole_Register :: "string \<Rightarrow> string \<Rightarrow> string \<Rightarrow> string list \<Rightarrow> approle_table \<Rightarrow> approle_table res" where
  "AppRole_Register roleID0 secretID0 subject pols store =
     (let roleID = TrimSpace roleID0; secretID = TrimSpace secretID0
      in if roleID = [] \<or> secretID = [] then Inl (New ErrCodeValidation ''role_id and secret_id are required'')
         else if length secretID < 16 then Inl (New ErrCodeValidation ''secret_id must be at least 16 characters'')
         else if pols = [] then Inl (New ErrCodeValidation ''policies are required'')
         else Inr (store(roleID \<mapsto>
                \<lparr>ar_RoleID = roleID, ar_Subject = (if subject = [] then ''approle:'' @ roleID else subject),
                 ar_Policies = pols, ar_secretHash = hashSecretID roleID secretID\<rparr>)))"

definition AppRole_Delete :: "string \<Rightarrow> approle_table \<Rightarrow> approle_table" where
  "AppRole_Delete roleID store = store(roleID := None)"

definition AppRole_Authenticate :: "string \<Rightarrow> string \<Rightarrow> approle_table \<Rightarrow> AppRole res" where
  "AppRole_Authenticate roleID0 secretID0 store =
     (let roleID = TrimSpace roleID0; secretID = TrimSpace secretID0
      in if roleID = [] \<or> secretID = [] then Inl (New ErrCodeValidation ''role_id and secret_id are required'')
         else (case store roleID of
                 None \<Rightarrow> Inl (New ErrCodeUnauthorized ''invalid role_id or secret_id'')
               | Some role \<Rightarrow>
                   (case hex_DecodeString (ar_secretHash role) of
                      None \<Rightarrow> Inl (New ErrCodeInternal ''approle corrupt'')
                    | Some want \<Rightarrow>
                        if want \<noteq> Sum256 (str_bytes (roleID @ [CHR 0x00] @ secretID))
                        then Inl (New ErrCodeUnauthorized ''invalid role_id or secret_id'')
                        else Inr role)))"

text \<open>The failure is counted before it is audited, and the audit event carries the error's text.\<close>

definition err_text :: "error \<Rightarrow> string" where
  "err_text err = (case as_knx err of Some (_, msg) \<Rightarrow> msg | None \<Rightarrow> [])"

definition LoginAppRole :: "'r TokenRepository option \<Rightarrow> duration \<Rightarrow> login_env \<Rightarrow> RequestContext option \<Rightarrow> approle_table
    \<Rightarrow> string \<Rightarrow> string \<Rightarrow> 'r auth_state \<Rightarrow> (string \<times> ClientToken) res \<times> 'r auth_state" where
  "LoginAppRole repo sttl env req store roleID secretID st =
     (let actx = loginAuditFromContext req ''approle''; lockKey = LoginLockoutKey ''approle'' actx
      in case check_lockout env ''approle'' actx st of
           (True, st1) \<Rightarrow> fail_audit actx ''identity locked out'' (New ErrCodeForbidden ''identity locked out'') st1
         | (False, st1) \<Rightarrow>
             (case AppRole_Authenticate roleID secretID store of
                Inl err \<Rightarrow> fail_audit actx (err_text err) err (noteLockoutFailure env lockKey actx st1)
              | Inr role \<Rightarrow>
                  (case Issue repo sttl (le_rnd env) (le_issue1 env) (le_issue2 env) (ar_Subject role) (ar_Policies role)
                          (au_tokens st1) of
                     Inl err \<Rightarrow> fail_audit actx (err_text err) err st1
                   | Inr (token, record, ts) \<Rightarrow>
                       (Inr (token, record),
                        recordLoginAudit True (actx\<lparr>la_ClientIdentity := ar_Subject role\<rparr>)
                          (clear_lockout lockKey (st1\<lparr>au_tokens := ts\<rparr>))))))"

section \<open>Certificate login\<close>

record client_cert =
  cc_CommonName :: string
  cc_DNSNames :: "string list"
  cc_NotBefore :: go_time
  cc_NotAfter :: go_time

definition cert_identity :: "client_cert \<Rightarrow> string" where
  "cert_identity leaf =
     (let cn = TrimSpace (cc_CommonName leaf)
      in if cn = [] \<and> cc_DNSNames leaf \<noteq> [] then TrimSpace (hd (cc_DNSNames leaf)) else cn)"

definition LoginWithClientCert :: "'r TokenRepository option \<Rightarrow> duration \<Rightarrow> role_table option \<Rightarrow> login_env \<Rightarrow> RequestContext option
    \<Rightarrow> client_cert list \<Rightarrow> string list \<Rightarrow> 'r auth_state \<Rightarrow> (string \<times> ClientToken) res \<times> 'r auth_state" where
  "LoginWithClientCert repo sttl roles env req certs defaultPolicies st =
     (let actx = loginAuditFromContext req ''cert''; lockKey = LoginLockoutKey ''cert'' actx
      in case check_lockout env ''cert'' actx st of
           (True, st1) \<Rightarrow> fail_audit actx ''identity locked out'' (New ErrCodeForbidden ''identity locked out'') st1
         | (False, st1) \<Rightarrow>
             (case certs of
                [] \<Rightarrow> fail_count env lockKey actx ''client certificate required''
                        (New ErrCodeUnauthorized ''client certificate required'') st1
              | leaf # _ \<Rightarrow>
                  if le_check env < cc_NotBefore leaf \<or> cc_NotAfter leaf < le_check env
                  then fail_count env lockKey actx ''client certificate not valid at this time''
                         (New ErrCodeUnauthorized ''client certificate not valid at this time'') st1
                  else (let identity = cert_identity leaf
                        in if identity = []
                           then fail_count env lockKey actx ''client certificate has no CN or DNS SAN''
                                  (New ErrCodeUnauthorized ''client certificate has no CN or DNS SAN'') st1
                           else (let actx1 = actx\<lparr>la_ClientIdentity := identity\<rparr>;
                                     pols = (case roles of
                                               None \<Rightarrow> defaultPolicies
                                             | Some rs \<Rightarrow>
                                                 (case GetStoredRole rs identity of
                                                    Inr stored \<Rightarrow> flattenRolePolicies (role_Policies stored) (role_PolicyGroups stored)
                                                  | Inl _ \<Rightarrow> defaultPolicies))
                                 in if pols = []
                                    then fail_count env lockKey actx1 ''no cert role mapping''
                                           (New ErrCodeUnauthorized ''no role mapped for client certificate identity'') st1
                                    else (case Issue repo sttl (le_rnd env) (le_issue1 env) (le_issue2 env)
                                                 (''cert:'' @ identity) pols (au_tokens st1) of
                                            Inl err \<Rightarrow> fail_count env lockKey actx1 (err_text err) err st1
                                          | Inr (token, record, ts) \<Rightarrow>
                                              (Inr (token, record),
                                               recordLoginAudit True actx1 (clear_lockout lockKey (st1\<lparr>au_tokens := ts\<rparr>))))))))"

section \<open>What a Kubernetes login requires\<close>

lemma fail_simps [simp]:
  "fst (fail_audit actx reason err st) = Inl err" "fst (fail_count env k actx reason err st) = Inl err"
  by (simp_all add: fail_audit_def fail_count_def)

lemma fail_not_Inr [simp]:
  "fail_audit actx reason err st \<noteq> (Inr x, st')" "fail_count env k actx reason err st \<noteq> (Inr x, st')"
  by (simp_all add: fail_audit_def fail_count_def)

definition bound_to :: "string list \<Rightarrow> string \<Rightarrow> bool" where
  "bound_to allowed x \<longleftrightarrow> allowed = [] \<or> x \<in> set allowed \<or> ''*'' \<in> set allowed"

lemma MatchServiceAccountBinding_None:
  "MatchServiceAccountBinding role i = None \<longleftrightarrow>
     (role_BoundServiceAccountNames role \<noteq> [] \<or> role_BoundServiceAccountNamespaces role \<noteq> []) \<and>
     sa_Namespace i \<noteq> [] \<and> sa_Name i \<noteq> [] \<and>
     bound_to (role_BoundServiceAccountNamespaces role) (sa_Namespace i) \<and>
     bound_to (role_BoundServiceAccountNames role) (sa_Name i)"
  by (auto simp: MatchServiceAccountBinding_def bound_to_def Let_def)

lemma k8s_role_policies_Inr:
  "k8s_role_policies roles role i = Inr pols \<longleftrightarrow>
     (\<exists>r. roles role = Some r \<and> role_AuthMethod r \<in> {[], ''kubernetes''} \<and> MatchServiceAccountBinding r i = None \<and>
        pols = flattenRolePolicies (role_Policies r) (role_PolicyGroups r) \<and> pols \<noteq> [])"
  by (auto simp: k8s_role_policies_def GetStoredRole_def resolver_PoliciesForRole_def Let_def split: option.splits if_splits)

lemma LoginKubernetes_InrE:
  assumes "LoginKubernetes repo sttl ko roles isRevoked env req role jwt st = (Inr (token, rec), st')"
  obtains st1 i subject rs pols ts0 ts where
    "check_lockout env ''kubernetes'' (loginAuditFromContext req ''kubernetes'') st = (False, st1)"
    "validateKubernetesJWT ko role jwt = (i, subject, None)" "roles = Some rs" "k8s_role_policies rs role i = Inr pols"
    "isRevoked = None \<or> (\<exists>f. isRevoked = Some f \<and> f (NHIKey ''k8s_sa'' (sa_Namespace i) (sa_Name i) subject) = Inr False)"
    "Issue repo sttl (le_rnd env) (le_issue1 env) (le_issue2 env) subject pols ts0 = Inr (token, rec, ts)"
  using assms
  by (auto simp: LoginKubernetes_def Let_def with_identity_def finish_login_def
      split: prod.splits if_splits option.splits sum.splits bool.splits)


section \<open>Which key a failed Kubernetes login counts against\<close>

lemma LoginKubernetes_role_failure:
  assumes "check_lockout env ''kubernetes'' (loginAuditFromContext (Some req) ''kubernetes'') st = (False, st1)"
    "jwt \<noteq> []" "role \<noteq> []" "validateKubernetesJWT ko role jwt = (i, subject, None)" "k8s_role_policies rs role i = Inl (reason, err)"
    "subject \<noteq> []"
  shows "au_lockout (snd (LoginKubernetes repo sttl ko (Some rs) isRevoked env (Some req) role jwt st)) =
    map_option (\<lambda>t. snd (RecordFailure (le_fail1 env) (le_fail2 env) (lockout_primary (LoginLockoutKey ''kubernetes''
        (loginAuditFromContext (Some req) ''kubernetes''))
        ((loginAuditFromContext (Some req) ''kubernetes'')\<lparr>la_ClientIdentity := subject, la_Namespace := sa_Namespace i,
          la_FailureReason := reason\<rparr>)) t)) (au_lockout st1)"
  using assms
  by (simp add: LoginKubernetes_def Let_def fail_count_def recordLoginFailure_def noteLockoutFailure_def recordLoginAudit_def
      recordLockoutAudit_def split: option.splits prod.splits)

lemma IsLocked_none: "map_of (lt_locked t) k = None \<Longrightarrow> IsLocked now k t = (False, t)"
  by (simp add: IsLocked_def)

text \<open>The tracker never locked the key, so the next check passes.\<close>

definition key_free :: "string \<Rightarrow> 'r auth_state \<Rightarrow> bool" where
  "key_free k st \<longleftrightarrow> (\<forall>t. au_lockout st = Some t \<longrightarrow> map_of (lt_locked t) k = None)"

lemma check_lockout_free:
  assumes "key_free (LockoutKey ''kubernetes'' (ClientIP req)) st" "ClientIP req \<noteq> []"
  shows "check_lockout env ''kubernetes'' (loginAuditFromContext (Some req) ''kubernetes'') st = (False, st)"
  using assms
  by (auto simp: check_lockout_def key_free_def LoginLockoutKeys_def loginAuditFromContext_def IsLocked_none
      split: option.splits)

text \<open>One attempt: the clock readings, the role and the JWT presented.\<close>

definition k8s_attempt :: "'r TokenRepository option \<Rightarrow> duration \<Rightarrow> k8s_options \<Rightarrow> role_table \<Rightarrow> (string \<Rightarrow> bool res) option
    \<Rightarrow> RequestContext \<Rightarrow> login_env \<times> string \<times> string \<Rightarrow> 'r auth_state \<Rightarrow> 'r auth_state" where
  "k8s_attempt repo sttl ko rs isRevoked req a st =
     snd (LoginKubernetes repo sttl ko (Some rs) isRevoked (fst a) (Some req) (fst (snd a)) (snd (snd a)) st)"

text \<open>An attempt with a JWT that is accepted, for a role the service account is not bound to.\<close>

definition wrong_role :: "k8s_options \<Rightarrow> role_table \<Rightarrow> string \<Rightarrow> login_env \<times> string \<times> string \<Rightarrow> bool" where
  "wrong_role ko rs subject a \<longleftrightarrow> fst (snd a) \<noteq> [] \<and> snd (snd a) \<noteq> [] \<and>
     (\<exists>i e. validateKubernetesJWT ko (fst (snd a)) (snd (snd a)) = (i, subject, None) \<and> k8s_role_policies rs (fst (snd a)) i = Inl e)"

lemma LockoutKey_inject [simp]: "LockoutKey m a = LockoutKey m b \<longleftrightarrow> a = b"
  by (simp add: LockoutKey_def)

lemma k8s_attempt_free:
  assumes "key_free (LockoutKey ''kubernetes'' (ClientIP req)) st" "ClientIP req \<noteq> []"
    "wrong_role ko rs subject a" "subject \<noteq> []" "subject \<noteq> ClientIP req" "subject \<noteq> ''unknown''"
  shows "key_free (LockoutKey ''kubernetes'' (ClientIP req)) (k8s_attempt repo sttl ko rs isRevoked req a st)"
proof -
  obtain i reason err where a: "fst (snd a) \<noteq> []" "snd (snd a) \<noteq> []"
    "validateKubernetesJWT ko (fst (snd a)) (snd (snd a)) = (i, subject, None)"
    "k8s_role_policies rs (fst (snd a)) i = Inl (reason, err)" using assms(3) by (auto simp: wrong_role_def)
  note l = LoginKubernetes_role_failure [OF check_lockout_free [OF assms(1,2)] a(2,1,3,4) assms(4), of repo sttl isRevoked "fst a"]
  have k: "lockout_primary (LoginLockoutKey ''kubernetes'' (loginAuditFromContext (Some req) ''kubernetes''))
      ((loginAuditFromContext (Some req) ''kubernetes'')\<lparr>la_ClientIdentity := subject, la_Namespace := sa_Namespace i,
        la_FailureReason := reason\<rparr>) = LockoutKey ''kubernetes'' subject"
    using assms(4,6) by (simp add: lockout_primary_def LoginLockoutKey_def loginAuditFromContext_def LockoutKey_def)
  have "map_of (lt_locked (snd (RecordFailure n1 n2 (LockoutKey ''kubernetes'' subject) t))) (LockoutKey ''kubernetes'' (ClientIP req)) = None"
    if "au_lockout st = Some t" for t n1 n2
    using RecordFailure_locked [of n1 n2 "LockoutKey ''kubernetes'' subject" t "LockoutKey ''kubernetes'' (ClientIP req)"]
      assms(1,5) that by (auto simp: key_free_def) (metis option.exhaust option.distinct(1))
  then show ?thesis using l k by (auto simp: key_free_def k8s_attempt_def)
qed

text \<open>
  C30. However often a service account with a valid JWT tries roles it is not bound to, it is never
  locked out: the failures are counted against its name, while the check before a login only
  looks at the address.
\<close>
theorem k8s_identity_lockout_unchecked:
  assumes "key_free (LockoutKey ''kubernetes'' (ClientIP req)) st" "ClientIP req \<noteq> []"
    "list_all (wrong_role ko rs subject) attempts" "subject \<noteq> []" "subject \<noteq> ClientIP req" "subject \<noteq> ''unknown''"
  shows "fst (check_lockout env ''kubernetes'' (loginAuditFromContext (Some req) ''kubernetes'')
    (fold (k8s_attempt repo sttl ko rs isRevoked req) attempts st)) = False"
proof -
  have "key_free (LockoutKey ''kubernetes'' (ClientIP req)) (fold (k8s_attempt repo sttl ko rs isRevoked req) attempts st)"
    using assms(1,3)
  proof (induction attempts arbitrary: st)
    case (Cons a attempts)
    then show ?case using k8s_attempt_free [OF Cons.prems(1) assms(2) _ assms(4-6)] by simp
  qed simp
  from check_lockout_free [OF this assms(2)] show ?thesis by simp
qed

section \<open>Witnesses\<close>

definition demo_role :: Role where
  "demo_role = \<lparr>role_Name = ''app'', role_Policies = [''secrets-reader''], role_PolicyGroups = [],
     role_BoundServiceAccountNames = [''web''], role_BoundServiceAccountNamespaces = [''prod''], role_AuthMethod = ''kubernetes'',
     role_OIDC = None, role_RequireMFA = False\<rparr>"

definition demo_k8s :: "string \<Rightarrow> k8s_options" where
  "demo_k8s ns = \<lparr>ko_Reviewer = Some (\<lambda>_. Inr (Some \<lparr>rv_Authenticated = True, rv_Username = ''sa'', rv_Namespace = ns,
       rv_ServiceAccountName = ''web''\<rparr>)), ko_RaftEnabled = True, ko_InsecureDev = False, ko_jwtSecret = [],
     ko_Parse = \<lambda>_ _. Inr (None, False), ko_ParseUnverified = \<lambda>_. Inr None\<rparr>"

definition demo_req :: RequestContext where
  "demo_req = \<lparr>ClientIP = ''10.0.0.1'', rc_Namespace = [], rc_Resource = [], rc_Action = [], rc_AgentID = [], rc_Now = 0,
     Cluster = [], Environment = [], RequestPath = [], RequestID = [], ResourceLabels = Map.empty\<rparr>"

definition demo_login_env :: login_env where
  "demo_login_env = \<lparr>le_check = 1, le_fail1 = 1, le_fail2 = 1, le_issue1 = 1, le_issue2 = 2, le_rnd = \<lambda>_. 1\<rparr>"

definition demo_auth_state :: "token_table auth_state" where
  "demo_auth_state = \<lparr>au_tokens = (Map.empty, []), au_lockout = Some (NewLockoutTracker 2 Hour), au_identities = [], au_audit = []\<rparr>"

lemma demo_jwt: "validateKubernetesJWT (demo_k8s ns) role jwt =
    (reviewed_identity \<lparr>rv_Authenticated = True, rv_Username = ''sa'', rv_Namespace = ns, rv_ServiceAccountName = ''web''\<rparr>, ''sa'', None)"
  by (simp add: validateKubernetesJWT_def demo_k8s_def)

theorem k8s_identity_lockout_unchecked_witness:
  "fst (check_lockout demo_login_env ''kubernetes'' (loginAuditFromContext (Some demo_req) ''kubernetes'')
     (fold (k8s_attempt (Some memory_tokens) Hour (demo_k8s ''dev'') [''app'' \<mapsto> demo_role] None demo_req)
        [(demo_login_env, ''app'', ''j''), (demo_login_env, ''app'', ''j''), (demo_login_env, ''app'', ''j'')] demo_auth_state)) = False"
proof -
  have "key_free (LockoutKey ''kubernetes'' (ClientIP demo_req)) demo_auth_state"
    by (simp add: key_free_def demo_auth_state_def NewLockoutTracker_def)
  moreover have "wrong_role (demo_k8s ''dev'') [''app'' \<mapsto> demo_role] ''sa'' (demo_login_env, ''app'', ''j'')"
    by (simp add: wrong_role_def demo_jwt reviewed_identity_def k8s_role_policies_def GetStoredRole_def demo_role_def
        MatchServiceAccountBinding_def)
  ultimately show ?thesis
    by (intro k8s_identity_lockout_unchecked [where subject = "''sa''"]) (simp_all add: demo_req_def)
qed


section \<open>AppRole credentials\<close>

lemma AppRole_roundtrip:
  assumes "AppRole_Register roleID secretID subject pols store = Inr store'"
  shows "\<exists>role. AppRole_Authenticate roleID secretID store' = Inr role \<and> ar_Policies role = pols"
  using assms
  by (auto simp: AppRole_Register_def AppRole_Authenticate_def Let_def hashSecretID_def sha256_hex_def hex_roundtrip split: if_splits)

end
