(* ===== verification/SealState.thy ===== *)
theory SealState
  imports Shamir GoEncoding GoTime
begin

text \<open>
  The operational seal of the vault, \<^verbatim>\<open>internal/app/seal.go\<close>: a flag that the full unseal key or
  enough Shamir shares of it clear, with a growing delay after failures. The state file is read and
  written through \<open>filesystem\<close>, whose two functions are arbitrary: the code ignores every error
  of the file system. Clock readings and the orders in which maps are iterated are arguments.
\<close>

section \<open>State\<close>

record SealState =
  ss_sealed :: bool
  ss_unsealKey :: bytes
  ss_stateFile :: string
  ss_failCount :: int
  ss_lastFail :: go_time
  ss_maxFailDelay :: duration
  ss_threshold :: int
  ss_pending :: "(byte \<times> bytes) list"

record 'd filesystem =
  fs_ReadFile :: "string \<Rightarrow> 'd \<Rightarrow> string option"
  fs_WriteFile :: "string \<Rightarrow> string \<Rightarrow> 'd \<Rightarrow> 'd"

type_synonym share_iter = "(byte \<times> bytes) list \<Rightarrow> (byte \<times> bytes) list"

definition NewSealState :: "bytes \<Rightarrow> SealState" where
  "NewSealState unsealKey =
     \<lparr>ss_sealed = (unsealKey \<noteq> []), ss_unsealKey = unsealKey, ss_stateFile = [], ss_failCount = 0, ss_lastFail = 0,
      ss_maxFailDelay = 0, ss_threshold = 1, ss_pending = []\<rparr>"

definition SetUnsealThreshold :: "int \<Rightarrow> SealState \<Rightarrow> SealState" where
  "SetUnsealThreshold t s = s\<lparr>ss_threshold := (if t < 1 then 1 else t), ss_pending := []\<rparr>"

definition SetStateFile :: "'d filesystem \<Rightarrow> string \<Rightarrow> SealState \<times> 'd \<Rightarrow> SealState \<times> 'd" where
  "SetStateFile fs path sd =
     (case sd of (s, d) \<Rightarrow>
        if path = [] then (s, d)
        else (let s1 = s\<lparr>ss_stateFile := path\<rparr>;
                  s2 = (if fs_ReadFile fs path d = Some ''sealed'' then s1\<lparr>ss_sealed := True\<rparr> else s1)
              in (if ss_unsealKey s2 \<noteq> [] then s2\<lparr>ss_sealed := True\<rparr> else s2, d)))"

definition seal_persistLocked :: "'d filesystem \<Rightarrow> SealState \<times> 'd \<Rightarrow> SealState \<times> 'd" where
  "seal_persistLocked fs sd =
     (case sd of (s, d) \<Rightarrow>
        if ss_stateFile s = [] then (s, d)
        else (s, fs_WriteFile fs (ss_stateFile s) (if ss_sealed s then ''sealed'' else ''unsealed'') d))"

definition SealState_Seal :: "'d filesystem \<Rightarrow> SealState \<times> 'd \<Rightarrow> SealState \<times> 'd" where
  "SealState_Seal fs sd = (case sd of (s, d) \<Rightarrow> seal_persistLocked fs (s\<lparr>ss_sealed := True\<rparr>, d))"

section \<open>Unsealing\<close>

definition unsealBackoffLocked :: "go_time \<Rightarrow> SealState \<Rightarrow> duration" where
  "unsealBackoffLocked now s =
     (if ss_failCount s \<le> 0 then 0
      else (let capDelay = (if ss_maxFailDelay s \<le> 0 then 30 * Second else ss_maxFailDelay s);
                shift = (if 5 < ss_failCount s - 1 then 5 else ss_failCount s - 1);
                delay0 = 2 ^ nat shift * Second;
                delay = (if capDelay < delay0 then capDelay else delay0);
                elapsed = time_Sub now (ss_lastFail s)
            in if delay \<le> elapsed then 0 else wrap64 (delay - elapsed)))"

definition UnsealRetryAfter :: "go_time \<Rightarrow> SealState \<Rightarrow> duration" where
  "UnsealRetryAfter now s = unsealBackoffLocked now s"

definition constantTimeKeyEqual :: "bytes \<Rightarrow> bytes \<Rightarrow> bool" where
  "constantTimeKeyEqual a b \<longleftrightarrow> Sum256 a = Sum256 b"

definition markUnsealedLocked :: "'d filesystem \<Rightarrow> SealState \<times> 'd \<Rightarrow> SealState \<times> 'd" where
  "markUnsealedLocked fs sd =
     (case sd of (s, d) \<Rightarrow>
        seal_persistLocked fs (s\<lparr>ss_failCount := 0, ss_lastFail := 0, ss_sealed := False, ss_pending := []\<rparr>, d))"

text \<open>A failed attempt: the counter and the instant of the failure.\<close>

definition seal_failed :: "go_time \<Rightarrow> SealState \<Rightarrow> SealState" where
  "seal_failed now s = s\<lparr>ss_failCount := ss_failCount s + 1, ss_lastFail := now\<rparr>"

definition Unseal :: "'d filesystem \<Rightarrow> go_time \<Rightarrow> go_time \<Rightarrow> bytes \<Rightarrow> SealState \<times> 'd \<Rightarrow> bool \<times> SealState \<times> 'd" where
  "Unseal fs now1 now2 key sd =
     (case sd of (s, d) \<Rightarrow>
        if ss_unsealKey s = [] then (False, s, d)
        else if 0 < unsealBackoffLocked now1 s then (False, s, d)
        else if \<not> constantTimeKeyEqual key (ss_unsealKey s) then (False, seal_failed now2 s, d)
        else (True, markUnsealedLocked fs (s, d)))"

definition UnsealProgress :: "SealState \<Rightarrow> int \<times> int" where
  "UnsealProgress s = (int (length (ss_pending s)), if ss_threshold s < 1 then 1 else ss_threshold s)"

text \<open>What \<^verbatim>\<open>SubmitShare\<close> answers: unsealed, the shares it has, those it needs, a message.\<close>

type_synonym share_answer = "bool \<times> int \<times> int \<times> string"

definition submit_combined :: "'d filesystem \<Rightarrow> go_time \<Rightarrow> int \<Rightarrow> bytes res \<Rightarrow> SealState \<times> 'd
    \<Rightarrow> share_answer \<times> SealState \<times> 'd" where
  "submit_combined fs now need combined sd =
     (case sd of (s, d) \<Rightarrow>
        (case combined of
           Inl _ \<Rightarrow>
             (let f = seal_failed now s;
                  s' = (if 3 \<le> ss_failCount f then f\<lparr>ss_pending := []\<rparr> else f)
              in ((False, int (length (ss_pending s')), need, ''share combine failed''), s', d))
         | Inr k \<Rightarrow>
             if \<not> constantTimeKeyEqual k (ss_unsealKey s)
             then ((False, 0, need, ''invalid shares''), (seal_failed now s)\<lparr>ss_pending := []\<rparr>, d)
             else ((True, need, need, []), markUnsealedLocked fs (s\<lparr>ss_pending := []\<rparr>, d))))"

definition SubmitShare :: "'d filesystem \<Rightarrow> go_time \<Rightarrow> go_time \<Rightarrow> share_iter \<Rightarrow> share_iter \<Rightarrow> (byte list \<Rightarrow> byte list)
    \<Rightarrow> bytes \<Rightarrow> SealState \<times> 'd \<Rightarrow> share_answer \<times> SealState \<times> 'd" where
  "SubmitShare fs now1 now2 it1 it2 order sh sd =
     (case sd of (s, d) \<Rightarrow>
        if ss_unsealKey s = [] then ((False, 0, 1, ''unseal not configured''), s, d)
        else if length sh < 2 \<or> 256 < length sh then ((False, 0, 1, ''invalid share''), s, d)
        else (let need = (if ss_threshold s < 1 then 1 else ss_threshold s); have = int (length (ss_pending s))
              in if 0 < unsealBackoffLocked now1 s then ((False, have, need, ''unseal rate limited''), s, d)
                 else if hd sh = 0 then ((False, have, need, ''invalid share index''), seal_failed now2 s, d)
                 else if ss_pending s \<noteq> [] \<and> length (snd (hd (it1 (ss_pending s)))) \<noteq> length sh
                 then (let f = seal_failed now2 s;
                           s' = (if 5 \<le> ss_failCount f then f\<lparr>ss_pending := []\<rparr> else f)
                       in ((False, int (length (ss_pending s')), need, ''share length mismatch''), s', d))
                 else (let s1 = s\<lparr>ss_pending := AList.update (hd sh) sh (ss_pending s)\<rparr>;
                           have1 = int (length (ss_pending s1))
                       in if have1 < need then ((False, have1, need, []), s1, d)
                          else submit_combined fs now2 need (Combine order (map snd (it2 (ss_pending s1)))) (s1, d))))"

section \<open>Traces\<close>

text \<open>The calls that change the state, with what each takes from outside.\<close>

datatype seal_event =
    EvSeal
  | EvThreshold int
  | EvFile string
  | EvUnseal go_time go_time bytes
  | EvShare go_time go_time share_iter share_iter "byte list \<Rightarrow> byte list" bytes

fun seal_exec :: "'d filesystem \<Rightarrow> seal_event \<Rightarrow> SealState \<times> 'd \<Rightarrow> SealState \<times> 'd" where
  "seal_exec fs EvSeal sd = SealState_Seal fs sd"
| "seal_exec fs (EvThreshold t) sd = (SetUnsealThreshold t (fst sd), snd sd)"
| "seal_exec fs (EvFile path) sd = SetStateFile fs path sd"
| "seal_exec fs (EvUnseal now1 now2 key) sd = snd (Unseal fs now1 now2 key sd)"
| "seal_exec fs (EvShare now1 now2 it1 it2 order sh) sd = snd (SubmitShare fs now1 now2 it1 it2 order sh sd)"

definition seal_run :: "'d filesystem \<Rightarrow> seal_event list \<Rightarrow> SealState \<times> 'd \<Rightarrow> SealState \<times> 'd" where
  "seal_run fs evs sd = fold (seal_exec fs) evs sd"

text \<open>An iteration of a map visits each entry once.\<close>

definition iter_ok :: "seal_event \<Rightarrow> bool" where
  "iter_ok ev \<longleftrightarrow> (\<forall>now1 now2 it1 it2 order sh. ev = EvShare now1 now2 it1 it2 order sh \<longrightarrow>
     (\<forall>xs. mset (it1 xs) = mset xs) \<and> (\<forall>xs. mset (it2 xs) = mset xs) \<and> (\<forall>xs. mset (order xs) = mset xs))"

definition submitted :: "seal_event list \<Rightarrow> bytes set" where
  "submitted evs = {sh. \<exists>now1 now2 it1 it2 order. EvShare now1 now2 it1 it2 order sh \<in> set evs}"

text \<open>The key never changes and the pending shares were all submitted, one for each index.\<close>

definition seal_inv :: "bytes \<Rightarrow> bytes set \<Rightarrow> SealState \<Rightarrow> bool" where
  "seal_inv key sub s \<longleftrightarrow> ss_unsealKey s = key \<and> distinct (map fst (ss_pending s)) \<and>
     (\<forall>(x, sh) \<in> set (ss_pending s). x = hd sh \<and> sh \<in> sub)"

lemma fst_persist [simp]: "fst (seal_persistLocked fs (s, d)) = s"
  by (simp add: seal_persistLocked_def)

lemma fst_mark [simp]: "fst (markUnsealedLocked fs (s, d)) =
    s\<lparr>ss_failCount := 0, ss_lastFail := 0, ss_sealed := False, ss_pending := []\<rparr>"
  by (simp add: markUnsealedLocked_def)

lemma seal_failed_simps [simp]:
  "ss_unsealKey (seal_failed now s) = ss_unsealKey s" "ss_pending (seal_failed now s) = ss_pending s"
  "ss_sealed (seal_failed now s) = ss_sealed s"
  by (simp_all add: seal_failed_def)

lemma seal_inv_clear: "seal_inv key sub s \<Longrightarrow> ss_unsealKey s' = key \<Longrightarrow> ss_pending s' = [] \<or> ss_pending s' = ss_pending s \<Longrightarrow>
    seal_inv key sub s'"
  by (auto simp: seal_inv_def)

lemma seal_inv_add:
  assumes "seal_inv key sub s" "sh \<in> sub"
  shows "seal_inv key sub (s\<lparr>ss_pending := AList.update (hd sh) sh (ss_pending s)\<rparr>)"
  using assms set_update_subset [of "hd sh" sh "ss_pending s"] by (fastforce simp: seal_inv_def distinct_update)

lemma seal_inv_mono: "seal_inv key sub s \<Longrightarrow> sub \<subseteq> sub' \<Longrightarrow> seal_inv key sub' s"
  by (fastforce simp: seal_inv_def)

lemma submit_combined_inv:
  "seal_inv key sub s \<Longrightarrow> seal_inv key sub (fst (snd (submit_combined fs now need c (s, d))))"
  by (rule seal_inv_clear [of key sub s])
    (auto simp: submit_combined_def Let_def seal_inv_def split: sum.splits)

lemma SubmitShare_inv:
  assumes "seal_inv key sub s" "sh \<in> sub"
  shows "seal_inv key sub (fst (snd (SubmitShare fs now1 now2 it1 it2 order sh (s, d))))"
proof -
  note add = seal_inv_add [OF assms]
  have "seal_inv key sub (seal_failed now2 s)" "seal_inv key sub ((seal_failed now2 s)\<lparr>ss_pending := []\<rparr>)"
    using assms(1) by (auto intro: seal_inv_clear simp: seal_inv_def)
  with assms(1) add submit_combined_inv [OF add] show ?thesis by (auto simp: SubmitShare_def Let_def)
qed

lemma seal_exec_inv:
  assumes "seal_inv key (submitted evs) (fst sd)" "ev \<in> set evs"
  shows "seal_inv key (submitted evs) (fst (seal_exec fs ev sd))"
proof -
  obtain s d where sd: "sd = (s, d)" by force
  show ?thesis
  proof (cases ev)
    case (EvShare now1 now2 it1 it2 order sh)
    then have "sh \<in> submitted evs" using assms(2) unfolding submitted_def by blast
    with assms(1) show ?thesis by (simp add: EvShare sd SubmitShare_inv)
  qed (use assms(1) in \<open>auto simp: sd SealState_Seal_def SetUnsealThreshold_def SetStateFile_def Unseal_def Let_def
         intro!: seal_inv_clear [of key "submitted evs" s] simp: seal_inv_def\<close>)
qed

lemma seal_run_inv:
  assumes "seal_inv key (submitted evs) (fst sd)" "set evs' \<subseteq> set evs"
  shows "seal_inv key (submitted evs) (fst (seal_run fs evs' sd))"
  using assms unfolding seal_run_def
proof (induction evs' arbitrary: sd)
  case (Cons ev evs')
  then show ?case using seal_exec_inv [OF Cons.prems(1), of ev fs] by simp
qed simp

text \<open>A call that clears the seal was given the key, or the last of enough shares of it.\<close>

lemma seal_cleared:
  assumes "seal_inv key (submitted evs) s" "ev \<in> set evs" "iter_ok ev"
    and "ss_sealed s" "\<not> ss_sealed (fst (seal_exec fs ev (s, d)))"
  shows "(\<exists>now1 now2 k. ev = EvUnseal now1 now2 k \<and> Sum256 k = Sum256 key) \<or>
    (\<exists>shares order k. set shares \<subseteq> submitted evs \<and> distinct (map hd shares) \<and> ss_threshold s \<le> int (length shares) \<and>
       (\<forall>xs. mset (order xs) = mset xs) \<and> Combine order shares = Inr k \<and> Sum256 k = Sum256 key)"
proof (cases ev)
  case (EvUnseal now1 now2 k)
  with assms show ?thesis
    by (auto simp: Unseal_def seal_inv_def constantTimeKeyEqual_def split: if_splits)
next
  case (EvShare now1 now2 it1 it2 order sh)
  let ?s1 = "s\<lparr>ss_pending := AList.update (hd sh) sh (ss_pending s)\<rparr>"
  let ?l = "it2 (ss_pending ?s1)"
  have "sh \<in> submitted evs" using EvShare assms(2) unfolding submitted_def by blast
  then have inv: "seal_inv key (submitted evs) ?s1" by (rule seal_inv_add [OF assms(1)])
  from assms(3) have it: "mset ?l = mset (ss_pending ?s1)" "\<forall>xs. mset (order xs) = mset xs"
    by (auto simp: EvShare iter_ok_def)
  from assms(4,5) obtain k where k: "Combine order (map snd ?l) = Inr k" "Sum256 k = Sum256 key"
    and need: "\<not> int (length (ss_pending ?s1)) < (if ss_threshold s < 1 then 1 else ss_threshold s)"
    using assms(1) by (auto simp: EvShare SubmitShare_def submit_combined_def Let_def constantTimeKeyEqual_def seal_inv_def
        split: if_splits sum.splits)
  have set: "set ?l = set (ss_pending ?s1)" using it(1) by (rule mset_eq_setD)
  then have "\<forall>(x, sh) \<in> set ?l. x = hd sh \<and> sh \<in> submitted evs" using inv by (simp add: seal_inv_def)
  then have "map hd (map snd ?l) = map fst ?l" "set (map snd ?l) \<subseteq> submitted evs" by auto
  moreover have "distinct (map fst ?l)"
    using inv distinct_keys_mset [OF it(1)] by (simp add: seal_inv_def)
  moreover have "ss_threshold s \<le> int (length (map snd ?l))"
    using need mset_eq_length [OF it(1)] by (auto split: if_splits)
  ultimately show ?thesis using k it(2) by metis
qed (use assms in \<open>auto simp: SealState_Seal_def SetUnsealThreshold_def SetStateFile_def Let_def split: if_splits\<close>)

lemma seal_run_snoc: "seal_run fs (evs @ [ev]) sd = seal_exec fs ev (seal_run fs evs sd)"
  by (simp add: seal_run_def)

lemma NewSealState_inv: "seal_inv key sub (NewSealState key)"
  by (simp add: seal_inv_def NewSealState_def)

text \<open>The call \<open>ev\<close> after the calls \<open>pre\<close> was given the key, or the last of enough shares of it.\<close>

definition gives_key :: "'d filesystem \<Rightarrow> bytes \<Rightarrow> 'd \<Rightarrow> seal_event list \<Rightarrow> seal_event \<Rightarrow> bool" where
  "gives_key fs key d pre ev \<longleftrightarrow>
     (\<exists>now1 now2 k. ev = EvUnseal now1 now2 k \<and> Sum256 k = Sum256 key) \<or>
     (\<exists>shares order k. set shares \<subseteq> submitted (pre @ [ev]) \<and> distinct (map hd shares) \<and>
        ss_threshold (fst (seal_run fs pre (NewSealState key, d))) \<le> int (length shares) \<and>
        (\<forall>xs. mset (order xs) = mset xs) \<and> Combine order shares = Inr k \<and> Sum256 k = Sum256 key)"

lemma cleared_gives_key:
  assumes "iter_ok ev" "ss_sealed (fst (seal_run fs evs (NewSealState key, d)))"
    "\<not> ss_sealed (fst (seal_run fs (evs @ [ev]) (NewSealState key, d)))"
  shows "gives_key fs key d evs ev"
proof -
  obtain s d' where sd: "seal_run fs evs (NewSealState key, d) = (s, d')" by force
  have "seal_inv key (submitted (evs @ [ev])) s"
    using seal_run_inv [of key "evs @ [ev]" "(NewSealState key, d)" evs fs]
    by (simp add: NewSealState_inv sd subset_insertI)
  from seal_cleared [OF this _ assms(1) _ assms(3) [unfolded seal_run_snoc sd]] assms(2)
  show ?thesis by (simp add: sd gives_key_def)
qed

text \<open>
  C31. However the calls are ordered and whatever the state file says, a vault with an unseal key that
  is found unsealed was given the key itself in full, or at least as many shares with different
  indices as the threshold then asked for, which combine to the key (in both cases: to a value with
  the digest of the key).
\<close>
theorem unseal_needs_key:
  assumes "key \<noteq> []" "list_all iter_ok evs" "\<not> ss_sealed (fst (seal_run fs evs (NewSealState key, d)))"
  shows "\<exists>pre ev post. evs = pre @ ev # post \<and> gives_key fs key d pre ev"
  using assms(2,3)
proof (induction evs rule: rev_induct)
  case Nil
  with assms(1) show ?case by (simp add: seal_run_def NewSealState_def)
next
  case (snoc ev evs)
  show ?case
  proof (cases "ss_sealed (fst (seal_run fs evs (NewSealState key, d)))")
    case True
    then have "gives_key fs key d evs ev" using cleared_gives_key snoc.prems by fastforce
    then show ?thesis by blast
  next
    case False
    with snoc obtain pre ev' post where "evs = pre @ ev' # post" "gives_key fs key d pre ev'" by auto
    then show ?thesis by (intro exI [of _ pre] exI [of _ ev'] exI [of _ "post @ [ev]"]) simp
  qed
qed

section \<open>Enough shares unseal\<close>

text \<open>The shares received so far, as they lie in the map of pending shares.\<close>

definition pending_of :: "bytes list \<Rightarrow> (byte \<times> bytes) list" where
  "pending_of shs = map (\<lambda>sh. (hd sh, sh)) shs"

definition no_failures :: "bytes \<Rightarrow> int \<Rightarrow> bytes list \<Rightarrow> SealState \<Rightarrow> bool" where
  "no_failures key t shs s \<longleftrightarrow> ss_unsealKey s = key \<and> ss_threshold s = t \<and> ss_failCount s = 0 \<and> ss_pending s = pending_of shs"

lemma pending_snoc: "hd sh \<notin> hd ` set shs \<Longrightarrow> AList.update (hd sh) sh (pending_of shs) = pending_of (shs @ [sh])"
  by (subst update_fresh) (auto simp: pending_of_def)

lemma SubmitShare_accept:
  assumes "ss_unsealKey s \<noteq> []" "\<not> (length sh < 2 \<or> 256 < length sh)" "\<not> 0 < unsealBackoffLocked now1 s" "hd sh \<noteq> 0"
    "\<not> (ss_pending s \<noteq> [] \<and> length (snd (hd (it1 (ss_pending s)))) \<noteq> length sh)" "1 \<le> ss_threshold s"
  shows "SubmitShare fs now1 now2 it1 it2 order sh (s, d) =
    (let s1 = s\<lparr>ss_pending := AList.update (hd sh) sh (ss_pending s)\<rparr>;
         have1 = int (length (ss_pending s1))
     in if have1 < ss_threshold s then ((False, have1, ss_threshold s, []), s1, d)
        else submit_combined fs now2 (ss_threshold s) (Combine order (map snd (it2 (ss_pending s1)))) (s1, d))"
proof -
  have "\<not> ss_threshold s < 1" using assms(6) by simp
  with assms(1-5) show ?thesis unfolding SubmitShare_def prod.case Let_def by (simp only: if_False)
qed

lemma SubmitShare_next:
  assumes "no_failures key t shs s" "key \<noteq> []" "length key \<le> 255" "1 \<le> t"
    and "\<forall>s \<in> set (shs @ [sh]). length s = Suc (length key) \<and> hd s \<noteq> 0" "hd sh \<notin> hd ` set shs"
    and "mset (it1 (pending_of shs)) = mset (pending_of shs)"
  shows "SubmitShare fs now1 now2 it1 it2 order sh (s, d) =
    (let s1 = s\<lparr>ss_pending := pending_of (shs @ [sh])\<rparr>
     in if int (length (shs @ [sh])) < t then ((False, int (length (shs @ [sh])), t, []), s1, d)
        else submit_combined fs now2 t (Combine order (map snd (it2 (pending_of (shs @ [sh]))))) (s1, d))"
proof -
  have "length (snd (hd (it1 (pending_of shs)))) = length sh" if "pending_of shs \<noteq> []"
  proof -
    have "hd (it1 (pending_of shs)) \<in> set (pending_of shs)"
      using that assms(7) by (metis hd_in_set mset.simps(1) mset_eq_setD mset_zero_iff_right)
    then show ?thesis using assms(5) by (auto simp: pending_of_def)
  qed
  then have "\<not> (pending_of shs \<noteq> [] \<and> length (snd (hd (it1 (pending_of shs)))) \<noteq> length sh)" by blast
  moreover have "unsealBackoffLocked now1 s = 0" "ss_unsealKey s = key" "ss_threshold s = t" "ss_pending s = pending_of shs"
    using assms(1) by (simp_all add: no_failures_def unsealBackoffLocked_def)
  moreover have "2 \<le> length sh" "length sh \<le> 256" "hd sh \<noteq> 0" using assms(2,3,5) by (cases key; simp)+
  moreover have "length (pending_of (shs @ [sh])) = length (shs @ [sh])" by (simp add: pending_of_def)
  ultimately show ?thesis using assms(2,4,6)
    by (subst SubmitShare_accept) (simp_all add: pending_snoc Let_def)
qed

definition share_event :: "seal_event \<Rightarrow> bytes \<Rightarrow> bool" where
  "share_event ev sh \<longleftrightarrow> (\<exists>now1 now2 it1 it2 order. ev = EvShare now1 now2 it1 it2 order sh)"

lemma shares_run:
  assumes split: "Split rnd key n t = Inr shares" and key: "length key \<le> 255"
    and "set subs \<subseteq> set shares" "distinct subs" "int (length subs) \<le> t" "no_failures key t [] s"
    and "list_all2 share_event evs subs" "list_all iter_ok evs"
  shows "if int (length subs) < t
    then \<exists>s' d'. seal_run fs evs (s, d) = (s', d') \<and> no_failures key t subs s' \<and> ss_sealed s' = ss_sealed s
    else \<not> ss_sealed (fst (seal_run fs evs (s, d)))"
  using assms(3-8)
proof (induction subs arbitrary: evs rule: rev_induct)
  case Nil
  then show ?case using Split_Inr(1) [OF split] by (simp add: seal_run_def)
next
  case (snoc sh subs)
  from snoc.prems(5) obtain evs0 ev where evs: "evs = evs0 @ [ev]" "list_all2 share_event evs0 subs" "share_event ev sh"
    by (auto simp: list_all2_append2 list_all2_Cons2)
  then obtain now1 now2 it1 it2 order where ev: "ev = EvShare now1 now2 it1 it2 order sh" by (auto simp: share_event_def)
  have it: "mset (it1 (pending_of subs)) = mset (pending_of subs)"
    "mset (it2 (pending_of (subs @ [sh]))) = mset (pending_of (subs @ [sh]))" "\<And>xs. mset (order xs) = mset xs"
    using snoc.prems(6) by (auto simp: evs(1) ev iter_ok_def)
  from snoc.IH [OF _ _ _ snoc.prems(4) evs(2)] snoc.prems
  obtain s1 d1 where s1: "seal_run fs evs0 (s, d) = (s1, d1)" "no_failures key t subs s1" "ss_sealed s1 = ss_sealed s"
    by (auto simp: evs(1))
  have form: "\<exists>x. x \<noteq> 0 \<and> y = share rnd key (nat t) x" if "y \<in> set (subs @ [sh])" for y
    using Split_member [OF split] snoc.prems(1) that by auto
  then have shape: "\<forall>y \<in> set (subs @ [sh]). length y = Suc (length key) \<and> hd y \<noteq> 0" by force
  have "y = sh" if "y \<in> set subs" "hd y = hd sh" for y using form [of y] form [of sh] that by auto
  then have "hd sh \<notin> hd ` set subs" using snoc.prems(2) by auto
  note step = SubmitShare_next [of key t subs s1 sh it1, OF s1(2) _ key _ shape this it(1), of fs now1 now2 it2 order d1]
  let ?l = "map snd (it2 (pending_of (subs @ [sh])))"
  have "mset ?l = mset (subs @ [sh])" by (simp only: mset_map it(2)) (simp add: pending_of_def image_mset.compositionality comp_def)
  then have "set ?l = set (subs @ [sh])" by (rule mset_eq_setD)
  then have comb: "Combine order ?l = Inr key" if "\<not> int (length (subs @ [sh])) < t"
    using form Split_Inr(1,4) [OF split] snoc.prems(2) that it(3)
    by (intro Combine_shares [where rnd = rnd and t = "nat t"]) (simp_all add: distinct_card)
  have key: "key \<noteq> []" "1 \<le> t" using Split_Inr(1,4) [OF split] by auto
  have run: "seal_run fs evs (s, d) = snd (SubmitShare fs now1 now2 it1 it2 order sh (s1, d1))"
    by (simp only: evs(1) seal_run_snoc ev s1(1) seal_exec.simps)
  show ?case
  proof (cases "int (length (subs @ [sh])) < t")
    case True
    then have "seal_run fs evs (s, d) = (s1\<lparr>ss_pending := pending_of (subs @ [sh])\<rparr>, d1)"
      unfolding run step [OF key] by (simp only: Let_def if_True snd_conv)
    with True s1(2,3) show ?thesis by (simp add: no_failures_def)
  next
    case False
    have "ss_unsealKey s1 = key" using s1(2) by (simp add: no_failures_def)
    with False have "\<not> ss_sealed (fst (seal_run fs evs (s, d)))"
      unfolding run step [OF key] by (simp only: Let_def if_False comb [OF False]) (simp add: submit_combined_def constantTimeKeyEqual_def)
    with False show ?thesis by simp
  qed
qed

text \<open>
  C32. Any \<open>t\<close> different shares of the unseal key, submitted one after the other in any order to a
  vault with threshold \<open>t\<close>, no failures and no pending shares, unseal it with the last one and
  not before.
\<close>
theorem shares_unseal:
  assumes "Split rnd key n t = Inr shares" "length key \<le> 255" "set subs \<subseteq> set shares" "distinct subs" "int (length subs) = t"
    and "ss_unsealKey s = key" "ss_threshold s = t" "ss_failCount s = 0" "ss_pending s = []" "ss_sealed s"
    and "list_all2 share_event evs subs" "list_all iter_ok evs"
  shows "\<not> ss_sealed (fst (seal_run fs evs (s, d))) \<and> (\<forall>i < length evs. ss_sealed (fst (seal_run fs (take i evs) (s, d))))"
proof -
  have nf: "no_failures key t [] s" using assms(6-9) by (simp add: no_failures_def pending_of_def)
  have "ss_sealed (fst (seal_run fs (take i evs) (s, d)))" if "i < length evs" for i
  proof -
    have "list_all2 share_event (take i evs) (take i subs)" by (rule list_all2_takeI [OF assms(11)])
    moreover have "list_all iter_ok (take i evs)" using assms(12) by (auto simp: list_all_iff dest: in_set_takeD)
    moreover have "int (length (take i subs)) < t" using that assms(5) list_all2_lengthD [OF assms(11)] by simp
    moreover have "set (take i subs) \<subseteq> set shares" using assms(3) by (auto dest: in_set_takeD)
    ultimately show ?thesis
      using shares_run [OF assms(1,2), of "take i subs" s "take i evs" fs d] nf assms(4,10) by auto
  qed
  then show ?thesis using shares_run [OF assms(1-4) _ nf assms(11,12), of fs d] assms(5) by simp
qed

section \<open>The delay after failures\<close>

lemma backoff_over:
  assumes "ss_lastFail s + (if ss_maxFailDelay s \<le> 0 then 30 * Second else ss_maxFailDelay s) \<le> now"
    "ss_maxFailDelay s < 2 ^ 63"
  shows "unsealBackoffLocked now s = 0"
  using assms by (auto simp: unsealBackoffLocked_def Let_def time_Sub_def Second_def)

text \<open>
  Failed attempts only ever delay the operator: the full key unseals the vault as soon as the
  configured delay (30 seconds by default) has passed since the last failure, whatever happened before.
\<close>
theorem key_unseals:
  assumes "key \<noteq> []" "seal_run fs evs (NewSealState key, d) = (s, d')" "ss_lastFail s + 30 * Second \<le> now"
  shows "fst (Unseal fs now now2 key (s, d')) \<and> \<not> ss_sealed (fst (snd (Unseal fs now now2 key (s, d'))))"
proof -
  have "ss_maxFailDelay (fst (seal_run fs evs sd)) = ss_maxFailDelay (fst sd)" for sd
  proof (induction evs rule: rev_induct)
    case (snoc ev evs)
    moreover have "ss_maxFailDelay (fst (seal_exec fs ev sd)) = ss_maxFailDelay (fst sd)" for sd
      by (cases ev; cases sd) (auto simp: SealState_Seal_def SetUnsealThreshold_def SetStateFile_def Unseal_def SubmitShare_def
          submit_combined_def seal_failed_def Let_def split: sum.splits)
    ultimately show ?case by (simp only: seal_run_snoc)
  qed (simp add: seal_run_def)
  from this [of "(NewSealState key, d)"] assms(2) have "ss_maxFailDelay s = 0" by (simp add: NewSealState_def)
  then have "unsealBackoffLocked now s = 0" using assms(3) by (intro backoff_over) auto
  moreover have "ss_unsealKey s = key"
    using seal_run_inv [of key evs "(NewSealState key, d)" evs fs] assms(2) NewSealState_inv [of key "submitted evs"]
    by (simp add: seal_inv_def)
  ultimately show ?thesis using assms(1) by (simp add: Unseal_def constantTimeKeyEqual_def)
qed

section \<open>Instances\<close>

definition demo_fs :: "unit filesystem" where
  "demo_fs = \<lparr>fs_ReadFile = \<lambda>_ _. Some ''unsealed'', fs_WriteFile = \<lambda>_ _ d. d\<rparr>"

lemmas demo_seal_defs = seal_run_def demo_fs_def NewSealState_def Unseal_def unsealBackoffLocked_def constantTimeKeyEqual_def
  SetStateFile_def

theorem unseal_needs_key_witness:
  "\<not> ss_sealed (fst (seal_run demo_fs [EvFile ''f'', EvUnseal 5 5 [1]] (NewSealState [1], ()))) \<and>
   (\<exists>pre ev post. [EvFile ''f'', EvUnseal 5 5 [1]] = pre @ ev # post \<and> gives_key demo_fs [1] () pre ev)"
proof -
  have "\<not> ss_sealed (fst (seal_run demo_fs [EvFile ''f'', EvUnseal 5 5 [1]] (NewSealState [1], ())))"
    by (simp add: demo_seal_defs)
  with unseal_needs_key [of "[1]" "[EvFile ''f'', EvUnseal 5 5 [1]]" demo_fs "()"] show ?thesis
    by (simp add: iter_ok_def)
qed

theorem key_unseals_witness:
  "fst (Unseal demo_fs (40 * Second) (41 * Second) [1] (seal_run demo_fs [EvUnseal 5 5 []] (NewSealState [1], ())))"
proof -
  obtain s d' where sd: "seal_run demo_fs [EvUnseal 5 5 []] (NewSealState [1], ()) = (s, d')" by (metis surj_pair)
  have "ss_lastFail (fst (seal_run demo_fs [EvUnseal 5 5 []] (NewSealState [1], ()))) \<le> 5"
    by (simp add: demo_seal_defs seal_failed_def markUnsealedLocked_def seal_persistLocked_def)
  with sd show ?thesis using key_unseals [OF _ sd, of "40 * Second" "41 * Second"] by (simp add: Second_def)
qed

theorem shares_unseal_witness:
  "\<exists>shares. Split (\<lambda>i j. 7) [1, 2] 3 2 = Inr shares \<and>
     \<not> ss_sealed (fst (seal_run demo_fs [EvShare 5 5 id rev id (shares ! 2), EvShare 6 6 rev id id (shares ! 0)]
       (SetUnsealThreshold 2 (NewSealState [1, 2]), ())))"
proof -
  let ?s = "map (\<lambda>x. share (\<lambda>i j. 7) [1, 2] 2 (word_of_nat x)) [1..<4]"
  have split: "Split (\<lambda>i j. 7) [1, 2] 3 2 = Inr ?s" by (simp add: Split_def share_def)
  have "?s ! 2 \<noteq> ?s ! 0" by (simp add: share_def numeral_eq_Suc)
  moreover have "set [?s ! 2, ?s ! 0] \<subseteq> set ?s" using nth_mem [of 2 ?s] nth_mem [of 0 ?s] by (simp del: nth_map)
  moreover have "list_all2 share_event [EvShare 5 5 id rev id (?s ! 2), EvShare 6 6 rev id id (?s ! 0)] [?s ! 2, ?s ! 0]"
    by (simp add: share_event_def)
  moreover have "list_all iter_ok [EvShare 5 5 id rev id (?s ! 2), EvShare 6 6 rev id id (?s ! 0)]"
    by (simp add: iter_ok_def)
  ultimately show ?thesis
    using shares_unseal [OF split, of "[?s ! 2, ?s ! 0]" "SetUnsealThreshold 2 (NewSealState [1, 2])"
        "[EvShare 5 5 id rev id (?s ! 2), EvShare 6 6 rev id id (?s ! 0)]" demo_fs "()"] split
    by (simp add: SetUnsealThreshold_def NewSealState_def del: nth_map)
qed

end
