(* ===== verification/AuditLog.thy ===== *)
theory AuditLog
  imports GoTime GoEncoding "HOL-Library.Product_Lexorder"
begin

text \<open>
  The audit log: entries (\<^verbatim>\<open>internal/domain/audit/entry.go\<close>), the repository interface and its
  in-memory implementation (\<^verbatim>\<open>internal/repository/memory/audit_repository.go\<close>), the redaction of
  details (\<^verbatim>\<open>internal/audit/redact.go\<close>) and the service that chains the entries by their hashes
  (\<^verbatim>\<open>internal/audit/service.go\<close>). The JSON text of the details is a parameter. The asynchronous
  forwarding of entries to an HTTP sink is left out.
\<close>

section \<open>Entries\<close>

record Entry =
  ae_ID :: int
  ae_Timestamp :: go_time
  ae_Actor :: string
  ae_Action :: string
  ae_Resource :: string
  ae_Status :: string
  ae_Details :: "any_map option"
  ae_Hash :: string
  ae_Signature :: string
  ae_AuthMethod :: string
  ae_SourceIP :: string
  ae_ClientIdentity :: string
  ae_FailureReason :: string
  ae_RequestID :: string
  ae_Namespace :: string

definition Entry_Validate :: "Entry \<Rightarrow> unit res" where
  "Entry_Validate e =
     (if ae_Action e = [] then Inl (Plain ''audit action is required'')
      else if ae_Status e = [] then Inl (Plain ''audit status is required'')
      else Inr ())"

section \<open>The repository\<close>

record AuditListOptions =
  al_Since :: "go_time option"
  al_Limit :: int
  al_Offset :: int
  al_OrderAsc :: bool

record 's AuditRepository =
  ar_Append :: "Entry \<Rightarrow> 's \<Rightarrow> 's res"
  ar_List :: "AuditListOptions \<Rightarrow> 's \<Rightarrow> Entry list res"
  ar_LatestHash :: "'s \<Rightarrow> string res"

type_synonym audit_log = "Entry list \<times> int"

definition NewAuditRepository :: audit_log where
  "NewAuditRepository = ([], 1)"

definition Append :: "Entry \<Rightarrow> audit_log \<Rightarrow> audit_log res" where
  "Append entry r =
     (case Entry_Validate entry of
        Inl err \<Rightarrow> Inl (Wrap ErrCodeValidation ''invalid audit entry'' err)
      | Inr _ \<Rightarrow> Inr (fst r @ [entry\<lparr>ae_ID := snd r\<rparr>], snd r + 1))"

text \<open>
  The two orders: by instant and then by identifier, ascending or descending. The identifiers differ,
  so the order is total. Offsets are not negative.
\<close>

definition audit_order :: "bool \<Rightarrow> Entry \<Rightarrow> int \<times> int" where
  "audit_order asc e =
     (if asc then (ae_Timestamp e, ae_ID e) else (- ae_Timestamp e, - ae_ID e))"

definition audit_List :: "AuditListOptions \<Rightarrow> audit_log \<Rightarrow> Entry list res" where
  "audit_List opts r =
     (let kept = filter (\<lambda>e. case al_Since opts of None \<Rightarrow> True | Some since \<Rightarrow> since \<le> ae_Timestamp e) (fst r);
          filtered = sort_key (audit_order (al_OrderAsc opts)) kept;
          limit = (if al_Limit opts \<le> 0 then 100 else al_Limit opts);
          start = al_Offset opts
      in if int (length filtered) < start then Inr []
         else Inr (take (nat limit) (drop (nat start) filtered)))"

definition LatestHash :: "audit_log \<Rightarrow> string res" where
  "LatestHash r = (if fst r = [] then Inr [] else Inr (ae_Hash (last (fst r))))"

definition memory_audit :: "audit_log AuditRepository" where
  "memory_audit = \<lparr>ar_Append = Append, ar_List = audit_List, ar_LatestHash = LatestHash\<rparr>"

section \<open>Redaction\<close>

definition sensitiveDetailKeys :: "string list" where
  "sensitiveDetailKeys =
     [''password'', ''passwd'', ''secret'', ''token'', ''client_token'', ''jwt'', ''access_token'', ''refresh_token'',
      ''api_key'', ''apikey'', ''credential'', ''credentials'', ''private_key'', ''private_key_pem'', ''tls_key'',
      ''access_key'', ''secret_key'', ''secret_id'', ''unseal_key'', ''master_key'', ''connection_url'',
      ''connection_string'', ''database_url'', ''dsn'']"

definition isSensitiveKey :: "string \<Rightarrow> bool" where
  "isSensitiveKey key \<longleftrightarrow> ToLower (TrimSpace key) \<in> set sensitiveDetailKeys"

definition looksLikeEmbeddedCredentials :: "string \<Rightarrow> bool" where
  "looksLikeEmbeddedCredentials value =
     (let trimmed = TrimSpace value
      in if trimmed = [] then False
         else if Contains trimmed ''://'' \<and> Contains trimmed ''@'' \<and> Contains trimmed '':''
         then CHR ''@'' \<in> set trimmed \<and>
              2 \<le> length (filter (\<lambda>c. c = CHR '':'') (takeWhile (\<lambda>c. c \<noteq> CHR ''@'') trimmed))
         else False)"

definition redacted :: any where "redacted = Str ''[REDACTED]''"

fun sanitizeValue :: "any \<Rightarrow> any"
  and sanitizeMap :: "any_map \<Rightarrow> any_map"
  and sanitizeList :: "any list \<Rightarrow> any list" where
  "sanitizeValue (Dict m) = Dict (sanitizeMap m)"
| "sanitizeValue (Anys xs) = Anys (sanitizeList xs)"
| "sanitizeValue (Str s) = (if looksLikeEmbeddedCredentials s then redacted else Str s)"
| "sanitizeValue v = v"
| "sanitizeMap [] = []"
| "sanitizeMap ((key, v) # m) =
     (key, if isSensitiveKey key then redacted else sanitizeValue v) # sanitizeMap m"
| "sanitizeList [] = []"
| "sanitizeList (v # vs) = sanitizeValue v # sanitizeList vs"

definition SanitizeDetails :: "any_map option \<Rightarrow> any_map option" where
  "SanitizeDetails details = map_option sanitizeMap details"

text \<open>The walk that rejects instead of redacting; its error names the place by the format string.\<close>

fun walkSensitive :: "any \<Rightarrow> error option"
  and walkMap :: "any_map \<Rightarrow> error option"
  and walkList :: "any list \<Rightarrow> error option" where
  "walkSensitive (Dict m) = walkMap m"
| "walkSensitive (Anys xs) = walkList xs"
| "walkSensitive (Str s) =
     (if looksLikeEmbeddedCredentials s then Some (Plain ''%s: credential-like string is not allowed in audit details'') else None)"
| "walkSensitive v = None"
| "walkMap [] = None"
| "walkMap ((key, v) # m) =
     (if isSensitiveKey key then Some (Plain ''%s: sensitive key %q is not allowed in audit details'')
      else (case walkSensitive v of Some err \<Rightarrow> Some err | None \<Rightarrow> walkMap m))"
| "walkList [] = None"
| "walkList (v # vs) = (case walkSensitive v of Some err \<Rightarrow> Some err | None \<Rightarrow> walkList vs)"

definition RejectSensitiveDetails :: "any_map option \<Rightarrow> error option" where
  "RejectSensitiveDetails details = (case details of None \<Rightarrow> None | Some d \<Rightarrow> walkSensitive (Dict d))"

section \<open>The service\<close>

record audit_service =
  as_signingKey :: bytes
  as_Marshal :: "any_map \<Rightarrow> string"

definition hash_payload :: "(any_map \<Rightarrow> string) \<Rightarrow> string \<Rightarrow> string \<Rightarrow> string \<Rightarrow> string \<Rightarrow> string \<Rightarrow> any_map option
    \<Rightarrow> go_time \<Rightarrow> string" where
  "hash_payload marshal prevHash actor action resource status details ts =
     (let detailsJSON = marshal (case details of None \<Rightarrow> [] | Some d \<Rightarrow> d)
      in prevHash @ ''|'' @ FormatRFC3339Nano ts @ ''|'' @ actor @ ''|'' @ action @ ''|'' @ resource @ ''|'' @ status @
         ''|'' @ detailsJSON)"

definition computeHash :: "(any_map \<Rightarrow> string) \<Rightarrow> string \<Rightarrow> string \<Rightarrow> string \<Rightarrow> string \<Rightarrow> string \<Rightarrow> any_map option
    \<Rightarrow> go_time \<Rightarrow> string" where
  "computeHash marshal prevHash actor action resource status details ts =
     sha256_hex (hash_payload marshal prevHash actor action resource status details ts)"

definition EntryHash :: "(any_map \<Rightarrow> string) \<Rightarrow> string \<Rightarrow> Entry \<Rightarrow> string" where
  "EntryHash marshal prevHash e =
     computeHash marshal prevHash (ae_Actor e) (ae_Action e) (ae_Resource e) (ae_Status e) (ae_Details e) (ae_Timestamp e)"

text \<open>The check of an ordered list of entries; the entries it is given are never nil.\<close>

fun validate_chain :: "(any_map \<Rightarrow> string) \<Rightarrow> string \<Rightarrow> Entry list \<Rightarrow> error option" where
  "validate_chain marshal prevHash [] = None"
| "validate_chain marshal prevHash (e # es) =
     (if ae_Hash e \<noteq> EntryHash marshal prevHash e then Some (Plain ''audit entry %d hash mismatch'')
      else validate_chain marshal (ae_Hash e) es)"

definition ValidateChain :: "(any_map \<Rightarrow> string) \<Rightarrow> Entry list \<Rightarrow> error option" where
  "ValidateChain marshal entries = validate_chain marshal [] entries"

text \<open>
  The replicated repository: the command \<^verbatim>\<open>audit.append\<close> of \<^verbatim>\<open>internal/raft/handlers.go\<close> stamps an
  entry without an instant and recomputes the hash against the log it is applied to.
\<close>

definition handleAuditAppend :: "(any_map \<Rightarrow> string) \<Rightarrow> go_time \<Rightarrow> Entry \<Rightarrow> audit_log \<Rightarrow> audit_log res" where
  "handleAuditAppend marshal now entry s =
     (let e = (if IsZero (ae_Timestamp entry) then entry\<lparr>ae_Timestamp := now\<rparr> else entry)
      in case LatestHash s of
           Inl err \<Rightarrow> Inl err
         | Inr prevHash \<Rightarrow> Append (e\<lparr>ae_Hash := EntryHash marshal prevHash e\<rparr>) s)"

definition raft_audit :: "(any_map \<Rightarrow> string) \<Rightarrow> go_time \<Rightarrow> audit_log AuditRepository" where
  "raft_audit marshal now =
     \<lparr>ar_Append = handleAuditAppend marshal now, ar_List = audit_List, ar_LatestHash = LatestHash\<rparr>"

definition signEntry :: "bytes \<Rightarrow> string \<Rightarrow> string" where
  "signEntry key entryHash = hex_EncodeToString (hmac_sha256 key (str_bytes entryHash))"

definition signHead :: "bytes \<Rightarrow> string \<Rightarrow> go_time \<Rightarrow> string" where
  "signHead key headHash signedAt =
     hex_EncodeToString (hmac_sha256 key (str_bytes headHash @ str_bytes ''|'' @ str_bytes (FormatRFC3339Nano signedAt)))"

definition detail_string :: "any_map \<Rightarrow> string \<Rightarrow> string \<Rightarrow> string" where
  "detail_string details key old = (case map_of details key of Some (Str v) \<Rightarrow> v | _ \<Rightarrow> old)"

definition applyAuthFields :: "Entry \<Rightarrow> any_map option \<Rightarrow> Entry" where
  "applyAuthFields e details =
     (case details of
        None \<Rightarrow> e
      | Some d \<Rightarrow>
          e\<lparr>ae_AuthMethod := detail_string d ''auth_method'' (ae_AuthMethod e),
            ae_SourceIP := detail_string d ''source_ip'' (ae_SourceIP e),
            ae_ClientIdentity := detail_string d ''client_identity'' (ae_ClientIdentity e),
            ae_FailureReason := detail_string d ''failure_reason'' (ae_FailureReason e),
            ae_RequestID := detail_string d ''request_id'' (ae_RequestID e),
            ae_Namespace := detail_string d ''namespace'' (ae_Namespace e)\<rparr>)"

definition audit_entry :: "audit_service \<Rightarrow> go_time \<Rightarrow> string \<Rightarrow> string \<Rightarrow> string \<Rightarrow> string \<Rightarrow> string \<Rightarrow> any_map option \<Rightarrow> Entry" where
  "audit_entry svc now prevHash actor action resource status details =
     (let safeDetails = SanitizeDetails details;
          e = applyAuthFields
                \<lparr>ae_ID = 0, ae_Timestamp = now, ae_Actor = actor, ae_Action = action, ae_Resource = resource,
                 ae_Status = status, ae_Details = safeDetails,
                 ae_Hash = computeHash (as_Marshal svc) prevHash actor action resource status safeDetails now,
                 ae_Signature = [], ae_AuthMethod = [], ae_SourceIP = [], ae_ClientIdentity = [],
                 ae_FailureReason = [], ae_RequestID = [], ae_Namespace = []\<rparr> safeDetails
      in if as_signingKey svc \<noteq> [] then e\<lparr>ae_Signature := signEntry (as_signingKey svc) (ae_Hash e)\<rparr> else e)"

definition Record :: "'s AuditRepository option \<Rightarrow> audit_service \<Rightarrow> go_time \<Rightarrow> string \<Rightarrow> string \<Rightarrow> string \<Rightarrow> string
    \<Rightarrow> any_map option \<Rightarrow> 's \<Rightarrow> 's res" where
  "Record repo svc now actor action resource status details s =
     (case repo of
        None \<Rightarrow> Inl (Plain ''audit repository not configured'')
      | Some R \<Rightarrow>
          (case ar_LatestHash R s of
             Inl err \<Rightarrow> Inl err
           | Inr prevHash \<Rightarrow> ar_Append R (audit_entry svc now prevHash actor action resource status details) s))"

record ExportResult =
  ex_Entries :: "Entry list"
  ex_HeadHash :: string
  ex_Signature :: string
  ex_SignedAt :: go_time

definition Export :: "'s AuditRepository option \<Rightarrow> audit_service \<Rightarrow> go_time \<Rightarrow> AuditListOptions \<Rightarrow> 's \<Rightarrow> ExportResult res" where
  "Export repo svc now opts s =
     (case repo of
        None \<Rightarrow> Inl (Plain ''audit repository not configured'')
      | Some R \<Rightarrow>
          (case ar_List R (opts\<lparr>al_OrderAsc := True\<rparr>) s of
             Inl err \<Rightarrow> Inl err
           | Inr entries \<Rightarrow>
               (case ar_LatestHash R s of
                  Inl err \<Rightarrow> Inl err
                | Inr headHash \<Rightarrow>
                    Inr \<lparr>ex_Entries = entries, ex_HeadHash = headHash,
                         ex_Signature = (if as_signingKey svc \<noteq> [] \<and> headHash \<noteq> []
                                         then signHead (as_signingKey svc) headHash now else []),
                         ex_SignedAt = now\<rparr>)))"

record VerifyResult =
  vr_Valid :: bool
  vr_HeadHash :: string
  vr_Signature :: string
  vr_Message :: string

definition invalid_at :: "string \<Rightarrow> string \<Rightarrow> VerifyResult" where
  "invalid_at h message = \<lparr>vr_Valid = False, vr_HeadHash = h, vr_Signature = [], vr_Message = message\<rparr>"

text \<open>The loop over the entries: the first fault, or the last hash.\<close>

fun verify_entries :: "audit_service \<Rightarrow> string \<Rightarrow> Entry list \<Rightarrow> VerifyResult + string" where
  "verify_entries svc prevHash [] = Inr prevHash"
| "verify_entries svc prevHash (e # es) =
     (if ae_Hash e \<noteq> computeHash (as_Marshal svc) prevHash (ae_Actor e) (ae_Action e) (ae_Resource e) (ae_Status e)
                      (ae_Details e) (ae_Timestamp e)
      then Inl (invalid_at (ae_Hash e) ''hash mismatch at entry id %d'')
      else if as_signingKey svc \<noteq> [] \<and> ae_Signature e = []
      then Inl (invalid_at (ae_Hash e) ''missing signature at entry id %d'')
      else if as_signingKey svc \<noteq> [] \<and> ae_Signature e \<noteq> signEntry (as_signingKey svc) (ae_Hash e)
      then Inl (invalid_at (ae_Hash e) ''signature mismatch at entry id %d'')
      else verify_entries svc (ae_Hash e) es)"

definition verify_head :: "audit_service \<Rightarrow> string \<Rightarrow> go_time \<Rightarrow> string \<Rightarrow> VerifyResult" where
  "verify_head svc signature signedAt headHash =
     (if as_signingKey svc = []
      then \<lparr>vr_Valid = True, vr_HeadHash = headHash, vr_Signature = [], vr_Message = []\<rparr>
      else if signature = []
      then invalid_at headHash ''signature required when signing key is configured''
      else if signature \<noteq> signHead (as_signingKey svc) headHash signedAt
      then \<lparr>vr_Valid = False, vr_HeadHash = headHash, vr_Signature = signature, vr_Message = ''signature mismatch''\<rparr>
      else \<lparr>vr_Valid = True, vr_HeadHash = headHash, vr_Signature = signature, vr_Message = []\<rparr>)"

definition verify_options :: AuditListOptions where
  "verify_options = \<lparr>al_Since = None, al_Limit = 1000000, al_Offset = 0, al_OrderAsc = True\<rparr>"

definition audit_Verify :: "'s AuditRepository option \<Rightarrow> audit_service \<Rightarrow> string \<Rightarrow> go_time \<Rightarrow> 's \<Rightarrow> VerifyResult res" where
  "audit_Verify repo svc signature signedAt s =
     (case repo of
        None \<Rightarrow> Inl (Plain ''audit repository not configured'')
      | Some R \<Rightarrow>
          (case ar_List R verify_options s of
             Inl err \<Rightarrow> Inl err
           | Inr entries \<Rightarrow>
               (case verify_entries svc [] entries of
                  Inl invalid \<Rightarrow> Inr invalid
                | Inr prevHash \<Rightarrow>
                    (case ar_LatestHash R s of
                       Inl err \<Rightarrow> Inl err
                     | Inr headHash \<Rightarrow>
                         if headHash \<noteq> prevHash
                         then Inr (invalid_at headHash ''head hash does not match recomputed chain'')
                         else Inr (verify_head svc signature signedAt headHash)))))"

section \<open>What the chain binds\<close>

definition entry_payload :: "audit_service \<Rightarrow> string \<Rightarrow> Entry \<Rightarrow> string" where
  "entry_payload svc prevHash e =
     hash_payload (as_Marshal svc) prevHash (ae_Actor e) (ae_Action e) (ae_Resource e) (ae_Status e) (ae_Details e) (ae_Timestamp e)"

text \<open>The hashed content of an entry, with the instant and the details as the text that is hashed.\<close>

definition hashed_content :: "audit_service \<Rightarrow> Entry \<Rightarrow> string list" where
  "hashed_content svc e =
     [FormatRFC3339Nano (ae_Timestamp e), ae_Actor e, ae_Action e, ae_Resource e, ae_Status e,
      as_Marshal svc (case ae_Details e of None \<Rightarrow> [] | Some d \<Rightarrow> d)]"

definition no_bars :: "Entry \<Rightarrow> bool" where
  "no_bars e \<longleftrightarrow> CHR ''|'' \<notin> set (ae_Actor e) \<union> set (ae_Action e) \<union> set (ae_Resource e) \<union> set (ae_Status e)"

fun payloads :: "audit_service \<Rightarrow> string \<Rightarrow> Entry list \<Rightarrow> string list" where
  "payloads svc prevHash [] = []"
| "payloads svc prevHash (e # es) = entry_payload svc prevHash e # payloads svc (ae_Hash e) es"

fun chained :: "audit_service \<Rightarrow> string \<Rightarrow> Entry list \<Rightarrow> bool" where
  "chained svc prevHash [] \<longleftrightarrow> True"
| "chained svc prevHash (e # es) \<longleftrightarrow> ae_Hash e = sha256_hex (entry_payload svc prevHash e) \<and> chained svc (ae_Hash e) es"

definition last_hash :: "string \<Rightarrow> Entry list \<Rightarrow> string" where
  "last_hash prevHash es = (if es = [] then prevHash else ae_Hash (last es))"

lemma verify_entries_Inr:
  "verify_entries svc prevHash es = Inr h \<longleftrightarrow> chained svc prevHash es \<and> h = last_hash prevHash es \<and>
     (as_signingKey svc \<noteq> [] \<longrightarrow> (\<forall>e \<in> set es. ae_Signature e \<noteq> [] \<and> ae_Signature e = signEntry (as_signingKey svc) (ae_Hash e)))"
  by (induction es arbitrary: prevHash) (auto simp: last_hash_def computeHash_def entry_payload_def)

lemma chained_snoc: "chained svc prevHash (es @ [e]) \<longleftrightarrow>
    chained svc prevHash es \<and> ae_Hash e = sha256_hex (entry_payload svc (last_hash prevHash es) e)"
  by (induction es arbitrary: prevHash) (auto simp: last_hash_def)

lemma payloads_snoc: "payloads svc prevHash (es @ [e]) = payloads svc prevHash es @ [entry_payload svc (last_hash prevHash es) e]"
  by (induction es arbitrary: prevHash) (auto simp: last_hash_def)

lemma payload_split:
  "hash_payload m prevHash actor action resource status details ts =
     prevHash @ CHR ''|'' # FormatRFC3339Nano ts @ CHR ''|'' # actor @ CHR ''|'' # action @ CHR ''|'' # resource @
     CHR ''|'' # status @ CHR ''|'' # m (case details of None \<Rightarrow> [] | Some d \<Rightarrow> d)"
  by (simp add: hash_payload_def Let_def)

lemma payload_inject:
  assumes "entry_payload svc h e = entry_payload svc h' e'" "no_bars e" "no_bars e'"
    "CHR ''|'' \<notin> set h" "CHR ''|'' \<notin> set h'"
  shows "h = h'" "hashed_content svc e = hashed_content svc e'"
proof -
  note eq = assms(1) [unfolded entry_payload_def payload_split]
  note 1 = sep_unique [OF assms(4,5) eq]
  then show "h = h'" by simp
  note bars = assms(2,3) [unfolded no_bars_def Un_iff de_Morgan_disj]
  note 2 = sep_unique [OF FormatRFC3339Nano_no_bar FormatRFC3339Nano_no_bar 1 [THEN conjunct2]]
  note 3 = sep_unique [OF _ _ 2 [THEN conjunct2]]
  have 3: "ae_Actor e = ae_Actor e'" and 4: "ae_Action e @ CHR ''|'' # ae_Resource e @
     CHR ''|'' # ae_Status e @ CHR ''|'' # as_Marshal svc (case ae_Details e of None \<Rightarrow> [] | Some d \<Rightarrow> d) =
    ae_Action e' @ CHR ''|'' # ae_Resource e' @
     CHR ''|'' # ae_Status e' @ CHR ''|'' # as_Marshal svc (case ae_Details e' of None \<Rightarrow> [] | Some d \<Rightarrow> d)"
    using 3 bars by blast+
  have 5: "ae_Action e = ae_Action e'" and 6: "ae_Resource e @
     CHR ''|'' # ae_Status e @ CHR ''|'' # as_Marshal svc (case ae_Details e of None \<Rightarrow> [] | Some d \<Rightarrow> d) = ae_Resource e' @
     CHR ''|'' # ae_Status e' @ CHR ''|'' # as_Marshal svc (case ae_Details e' of None \<Rightarrow> [] | Some d \<Rightarrow> d)"
    using sep_unique [OF _ _ 4] bars by blast+
  have 7: "ae_Resource e = ae_Resource e'" and 8: "ae_Status e @ CHR ''|'' # as_Marshal svc (case ae_Details e of None \<Rightarrow> [] | Some d \<Rightarrow> d) =
     ae_Status e' @ CHR ''|'' # as_Marshal svc (case ae_Details e' of None \<Rightarrow> [] | Some d \<Rightarrow> d)"
    using sep_unique [OF _ _ 6] bars by blast+
  show "hashed_content svc e = hashed_content svc e'"
    using 2 3 5 7 sep_unique [OF _ _ 8] bars by (simp add: hashed_content_def)
qed

lemma sha256_hex_no_bar [simp]: "CHR ''|'' \<notin> set (sha256_hex x)"
  by (simp add: sha256_hex_def hex_no_bar)

lemma last_hash_no_bar: "chained svc [] es \<Longrightarrow> CHR ''|'' \<notin> set (last_hash [] es)"
proof (cases es rule: rev_exhaust)
  case (snoc es' e)
  assume "chained svc [] es"
  then have "ae_Hash e = sha256_hex (entry_payload svc (last_hash [] es') e)" by (simp add: snoc chained_snoc)
  then show ?thesis by (simp add: snoc last_hash_def)
qed (simp add: last_hash_def)

lemma last_hash_Nil: "chained svc [] es \<Longrightarrow> last_hash [] es = [] \<longleftrightarrow> es = []"
  by (cases es rule: rev_exhaust) (auto simp: last_hash_def chained_snoc)

text \<open>Two chains with the same head hash that differ contain two payloads with the same digest.\<close>

lemma chains_agree:
  assumes "chained svc [] es" "chained svc [] es'" "last_hash [] es = last_hash [] es'"
    and "\<forall>e \<in> set es \<union> set es'. no_bars e"
    and "\<forall>p \<in> set (payloads svc [] es). \<forall>q \<in> set (payloads svc [] es'). sha256_hex p = sha256_hex q \<longrightarrow> p = q"
  shows "map (hashed_content svc) es = map (hashed_content svc) es'"
  using assms
proof (induction es arbitrary: es' rule: rev_induct)
  case Nil
  then show ?case using last_hash_Nil [of svc es'] by (simp add: last_hash_def)
next
  case (snoc e es)
  have "es' \<noteq> []" using snoc.prems(1-3) last_hash_Nil [of svc "es @ [e]"] by (auto simp: last_hash_def)
  then obtain es1 e' where es': "es' = es1 @ [e']" by (metis rev_exhaust)
  from snoc.prems have ch: "chained svc [] es" "chained svc [] es1"
    and "sha256_hex (entry_payload svc (last_hash [] es) e) = sha256_hex (entry_payload svc (last_hash [] es1) e')"
    by (auto simp: es' chained_snoc last_hash_def)
  with snoc.prems(5) have "entry_payload svc (last_hash [] es) e = entry_payload svc (last_hash [] es1) e'"
    by (auto simp: es' payloads_snoc)
  note inj = payload_inject [OF this _ _ last_hash_no_bar [OF ch(1)] last_hash_no_bar [OF ch(2)]]
  have "map (hashed_content svc) es = map (hashed_content svc) es1"
    using snoc.prems(4,5) inj(1) by (intro snoc.IH ch) (auto simp: es' payloads_snoc)
  then show ?case using inj(2) snoc.prems(4) by (simp add: es')
qed

section \<open>The contract of the repository\<close>

text \<open>
  What the service relies on: an entry whose hash continues the chain is stored as it is, and the
  ascending listing of a log with ordered instants is the log.
\<close>

locale audit_repository =
  fixes repo :: "'s AuditRepository"
    and inv :: "'s \<Rightarrow> bool"
    and log :: "'s \<Rightarrow> Entry list"
    and svc :: audit_service
  assumes latest: "inv s \<Longrightarrow> ar_LatestHash repo s = Inr (last_hash [] (log s))"
    and append: "inv s \<Longrightarrow> is_ok (Entry_Validate e) \<Longrightarrow> ae_Timestamp e \<noteq> 0 \<Longrightarrow>
      ae_Hash e = sha256_hex (entry_payload svc (last_hash [] (log s)) e) \<Longrightarrow>
      \<exists>s' i. ar_Append repo e s = Inr s' \<and> inv s' \<and> log s' = log s @ [e\<lparr>ae_ID := i\<rparr>]"
    and list_asc: "inv s \<Longrightarrow> sorted (map ae_Timestamp (log s)) \<Longrightarrow> 0 < limit \<Longrightarrow>
      ar_List repo \<lparr>al_Since = None, al_Limit = limit, al_Offset = 0, al_OrderAsc = True\<rparr> s = Inr (take (nat limit) (log s))"

definition ids_wf :: "audit_log \<Rightarrow> bool" where
  "ids_wf r \<longleftrightarrow> sorted_wrt (<) (map ae_ID (fst r)) \<and> (\<forall>e \<in> set (fst r). ae_ID e < snd r)"

lemma ids_sorted:
  "sorted (map ae_Timestamp es) \<Longrightarrow> sorted_wrt (<) (map ae_ID es) \<Longrightarrow> sorted (map (audit_order True) es)"
  by (induction es) (fastforce simp: audit_order_def less_eq_prod_def)+

lemma LatestHash_last: "LatestHash r = Inr (last_hash [] (fst r))"
  by (simp add: LatestHash_def last_hash_def)

lemma Append_ok: "ids_wf r \<Longrightarrow> is_ok (Entry_Validate e) \<Longrightarrow>
    Append e r = Inr (fst r @ [e\<lparr>ae_ID := snd r\<rparr>], snd r + 1) \<and> ids_wf (fst r @ [e\<lparr>ae_ID := snd r\<rparr>], snd r + 1)"
  by (auto simp: Append_def ids_wf_def is_ok_def sorted_wrt_append split: sum.splits)

lemma audit_List_asc:
  assumes "ids_wf r" "sorted (map ae_Timestamp (fst r))" "0 < limit"
  shows "audit_List \<lparr>al_Since = None, al_Limit = limit, al_Offset = 0, al_OrderAsc = True\<rparr> r = Inr (take (nat limit) (fst r))"
proof -
  have "sorted (map (audit_order True) (fst r))" using assms by (intro ids_sorted) (auto simp: ids_wf_def)
  then have "sort_key (audit_order True) (fst r) = fst r" by (rule sort_key_id_if_sorted)
  with assms(3) show ?thesis by (simp add: audit_List_def)
qed

interpretation mem_audit: audit_repository memory_audit ids_wf fst svc for svc
  by unfold_locales (use Append_ok in \<open>auto simp: memory_audit_def LatestHash_last audit_List_asc\<close>)

lemma EntryHash_payload: "EntryHash (as_Marshal svc) h e = sha256_hex (entry_payload svc h e)"
  by (simp add: EntryHash_def computeHash_def entry_payload_def)

lemma handleAuditAppend_chained:
  "ae_Timestamp e \<noteq> 0 \<Longrightarrow> ae_Hash e = sha256_hex (entry_payload svc (last_hash [] (fst s)) e) \<Longrightarrow>
   handleAuditAppend (as_Marshal svc) now e s = Append e s"
  by (cases e) (simp add: handleAuditAppend_def IsZero_def LatestHash_last EntryHash_payload)

interpretation raft_audit: audit_repository "raft_audit (as_Marshal svc) now" ids_wf fst svc for svc now
proof (unfold_locales, goal_cases)
  case (2 s e)
  then have "handleAuditAppend (as_Marshal svc) now e s = Append e s"
    by (intro handleAuditAppend_chained) auto
  with Append_ok [OF 2(1,2)] show ?case by (auto simp: raft_audit_def)
qed (auto simp: raft_audit_def LatestHash_last audit_List_asc)

section \<open>Recording keeps the chain\<close>

type_synonym audit_request = "go_time \<times> string \<times> string \<times> string \<times> string \<times> any_map option"

fun record_all :: "'s AuditRepository \<Rightarrow> audit_service \<Rightarrow> audit_request list \<Rightarrow> 's \<Rightarrow> 's res" where
  "record_all repo svc [] s = Inr s"
| "record_all repo svc ((now, actor, action, resource, status, details) # rs) s =
     (case Record (Some repo) svc now actor action resource status details s of
        Inl err \<Rightarrow> Inl err
      | Inr s' \<Rightarrow> record_all repo svc rs s')"

definition request_ok :: "audit_request \<Rightarrow> bool" where
  "request_ok r \<longleftrightarrow> (case r of (now, actor, action, resource, status, details) \<Rightarrow> 0 < now \<and> action \<noteq> [] \<and> status \<noteq> [])"

definition signed :: "audit_service \<Rightarrow> Entry \<Rightarrow> bool" where
  "signed svc e \<longleftrightarrow> as_signingKey svc = [] \<or> ae_Signature e = signEntry (as_signingKey svc) (ae_Hash e)"

definition log_ok :: "audit_service \<Rightarrow> go_time \<Rightarrow> Entry list \<Rightarrow> bool" where
  "log_ok svc now es \<longleftrightarrow> chained svc [] es \<and> (\<forall>e \<in> set es. signed svc e \<and> ae_Timestamp e \<le> now) \<and> sorted (map ae_Timestamp es)"

lemma audit_entry_simps [simp]:
  "ae_Timestamp (audit_entry svc now h actor action resource status d) = now"
  "ae_Action (audit_entry svc now h actor action resource status d) = action"
  "ae_Status (audit_entry svc now h actor action resource status d) = status"
  "ae_Hash (audit_entry svc now h actor action resource status d) =
     sha256_hex (entry_payload svc h (audit_entry svc now h actor action resource status d))"
  "signed svc (audit_entry svc now h actor action resource status d)"
  by (simp_all add: audit_entry_def applyAuthFields_def Let_def computeHash_def entry_payload_def signed_def split: option.splits)

lemma signEntry_not_Nil [simp]: "signEntry key h \<noteq> []"
proof -
  have "length (signEntry key h) \<noteq> 0" by (simp add: signEntry_def length_hex hmac_sha256_def length_Sum256)
  then show ?thesis by auto
qed

lemma entry_payload_ID [simp]: "entry_payload svc h (e\<lparr>ae_ID := i\<rparr>) = entry_payload svc h e"
  by (simp add: entry_payload_def)

lemma signed_ID [simp]: "signed svc (e\<lparr>ae_ID := i\<rparr>) = signed svc e"
  by (simp add: signed_def)

context audit_repository
begin

lemma record_step:
  assumes "inv s" "log_ok svc t (log s)" "t \<le> now" "request_ok (now, actor, action, resource, status, details)"
  shows "\<exists>s' e. Record (Some repo) svc now actor action resource status details s = Inr s' \<and> inv s' \<and>
    log s' = log s @ [e] \<and> log_ok svc now (log s')"
proof -
  let ?e = "audit_entry svc now (last_hash [] (log s)) actor action resource status details"
  have "is_ok (Entry_Validate ?e)" using assms(4) by (simp add: Entry_Validate_def request_ok_def)
  moreover have "ae_Timestamp ?e \<noteq> 0" using assms(4) by (simp add: request_ok_def)
  ultimately obtain s' i where s': "ar_Append repo ?e s = Inr s'" "inv s'" "log s' = log s @ [?e\<lparr>ae_ID := i\<rparr>]"
    using append [OF assms(1), of ?e] by auto
  then have "Record (Some repo) svc now actor action resource status details s = Inr s'"
    by (simp add: Record_def latest assms(1))
  moreover have "log_ok svc now (log s')"
    using assms(2,3) by (fastforce simp: s'(3) log_ok_def chained_snoc sorted_append)
  ultimately show ?thesis using s' by blast
qed

lemma record_all_ok:
  assumes "inv s" "log_ok svc t (log s)" "sorted (t # map fst rs)" "list_all request_ok rs"
  shows "\<exists>s'. record_all repo svc rs s = Inr s' \<and> inv s' \<and> length (log s') = length (log s) + length rs \<and>
    (\<exists>t'. log_ok svc t' (log s'))"
  using assms
proof (induction rs arbitrary: s t)
  case Nil
  then show ?case by auto
next
  case (Cons r rs)
  obtain now actor action resource status details where r: "r = (now, actor, action, resource, status, details)"
    by (metis prod_cases6)
  obtain s1 e where s1: "Record (Some repo) svc now actor action resource status details s = Inr s1" "inv s1"
    "log s1 = log s @ [e]" "log_ok svc now (log s1)"
    using record_step [OF Cons.prems(1,2), of now actor action resource status details] Cons.prems(3,4) by (auto simp: r)
  with Cons.IH [OF s1(2,4)] Cons.prems(3,4) show ?case by (auto simp: r)
qed

lemma log_ok_verifies:
  assumes "inv s" "log_ok svc t (log s)" "length (log s) \<le> 1000000" "log s \<noteq> []" "0 < (limit :: int)"
  shows "\<exists>ex r. Export (Some repo) svc now \<lparr>al_Since = None, al_Limit = limit, al_Offset = 0, al_OrderAsc = asc\<rparr> s = Inr ex \<and>
    audit_Verify (Some repo) svc (ex_Signature ex) (ex_SignedAt ex) s = Inr r \<and> vr_Valid r \<and> vr_HeadHash r = ae_Hash (last (log s))"
proof -
  have ok: "chained svc [] (log s)" "\<forall>e \<in> set (log s). signed svc e" "sorted (map ae_Timestamp (log s))"
    using assms(2) by (auto simp: log_ok_def)
  have "verify_entries svc [] (log s) = Inr (last_hash [] (log s))"
    unfolding verify_entries_Inr using ok by (auto simp: signed_def)
  moreover have "ar_List repo verify_options s = Inr (log s)"
    unfolding verify_options_def using list_asc [OF assms(1) ok(3), of 1000000] assms(3) by simp
  moreover have "last_hash [] (log s) \<noteq> []" using last_hash_Nil [OF ok(1)] assms(4) by simp
  moreover have "signHead k h n \<noteq> []" for k h n
  proof -
    have "length (signHead k h n) \<noteq> 0" by (simp add: signHead_def length_hex hmac_sha256_def length_Sum256)
    then show ?thesis by auto
  qed
  ultimately show ?thesis
    using assms(4) by (simp add: Export_def list_asc [OF assms(1) ok(3) assms(5)] latest [OF assms(1)] audit_Verify_def
        verify_head_def last_hash_def)
qed

end



section \<open>Tampering\<close>

lemma verify_entries_append: "verify_entries svc x (es @ es') =
    (case verify_entries svc x es of Inl i \<Rightarrow> Inl i | Inr y \<Rightarrow> verify_entries svc y es')"
  by (induction es arbitrary: x) auto

lemma verify_entries_Inl: "verify_entries svc h es = Inl r \<Longrightarrow> \<not> vr_Valid r"
  by (induction es arbitrary: h) (auto simp: invalid_at_def split: if_splits)

lemma valid_Verify:
  assumes "audit_Verify (Some memory_audit) svc sg sat s = Inr r" "vr_Valid r" "audit_List verify_options s = Inr es"
  shows "chained svc [] es" "vr_HeadHash r = last_hash [] es"
  using assms
  by (auto simp: audit_Verify_def memory_audit_def verify_entries_Inr invalid_at_def verify_head_def LatestHash_last
      split: sum.splits if_splits dest: verify_entries_Inl)

text \<open>
  C34. Tamper evidence: two logs that both verify and have the same head hash list the same actors,
  actions, resources, statuses, instants and details, entry by entry, unless two of the hashed texts
  collide under SHA-256. The fields of the entries must not contain the separator.
\<close>
theorem Verify_tamper_evident:
  assumes "audit_Verify (Some memory_audit) svc sg sat s = Inr r" "vr_Valid r" "audit_List verify_options s = Inr es"
    and "audit_Verify (Some memory_audit) svc sg' sat' s' = Inr r'" "vr_Valid r'" "audit_List verify_options s' = Inr es'"
    and "vr_HeadHash r = vr_HeadHash r'" "list_all no_bars es" "list_all no_bars es'"
  shows "map (hashed_content svc) es = map (hashed_content svc) es' \<or>
    (\<exists>p \<in> set (payloads svc [] es). \<exists>q \<in> set (payloads svc [] es'). p \<noteq> q \<and> sha256_hex p = sha256_hex q)"
  using chains_agree [of svc es es'] valid_Verify [OF assms(1-3)] valid_Verify [OF assms(4-6)] assms(7-9)
  by (auto simp: list_all_iff)

text \<open>
  C35. What the chain does not bind: moving a separator from one field to the next, and every change of
  the copied login fields (method, address, identity, reason, request, namespace), leave the outcome of
  the verification as it was.
\<close>
theorem Verify_blind_spots:
  "verify_entries svc h (pre @ e\<lparr>ae_Actor := a @ ''|'' @ b, ae_Action := c\<rparr> # post) =
     verify_entries svc h (pre @ e\<lparr>ae_Actor := a, ae_Action := b @ ''|'' @ c\<rparr> # post) \<and>
   verify_entries svc h (pre @ e\<lparr>ae_AuthMethod := m, ae_SourceIP := ip, ae_ClientIdentity := i, ae_FailureReason := f,
       ae_RequestID := q, ae_Namespace := ns\<rparr> # post) = verify_entries svc h (pre @ e # post)"
proof
  have "verify_entries svc h (pre @ e1 # post) = verify_entries svc h (pre @ e2 # post)"
    if "\<And>h. verify_entries svc h (e1 # post) = verify_entries svc h (e2 # post)" for e1 e2
    using that by (induction pre arbitrary: h) auto
  note prefix = this
  show "verify_entries svc h (pre @ e\<lparr>ae_Actor := a @ ''|'' @ b, ae_Action := c\<rparr> # post) =
     verify_entries svc h (pre @ e\<lparr>ae_Actor := a, ae_Action := b @ ''|'' @ c\<rparr> # post)"
    by (rule prefix) (simp add: computeHash_def hash_payload_def Let_def)
  show "verify_entries svc h (pre @ e\<lparr>ae_AuthMethod := m, ae_SourceIP := ip, ae_ClientIdentity := i, ae_FailureReason := f,
       ae_RequestID := q, ae_Namespace := ns\<rparr> # post) = verify_entries svc h (pre @ e # post)"
    by (rule prefix) simp
qed

text \<open>
  Two calls of \<^verbatim>\<open>Record\<close> that read the latest hash before either appends: on the replicated
  repository the second entry gets another hash than the one it was signed for, so that the log no
  longer verifies (unless the two hashes have the same signature).
\<close>
theorem concurrent_records_break_signatures:
  assumes "ids_wf s" "log_ok svc t (fst s)" "t \<le> now1" "now1 \<le> now2" "as_signingKey svc \<noteq> []" "length (fst s) < 999998"
    and "request_ok (now1, actor1, action1, resource1, status1, d1)" "request_ok (now2, actor2, action2, resource2, status2, d2)"
    and "LatestHash s = Inr h" "e1 = audit_entry svc now1 h actor1 action1 resource1 status1 d1"
      "e2 = audit_entry svc now2 h actor2 action2 resource2 status2 d2"
  shows "\<exists>s1 s2 r. handleAuditAppend (as_Marshal svc) applied e1 s = Inr s1 \<and> handleAuditAppend (as_Marshal svc) applied e2 s1 = Inr s2 \<and>
    audit_Verify (Some (raft_audit (as_Marshal svc) applied)) svc sg sat s2 = Inr r \<and>
    (vr_Message r = ''signature mismatch at entry id %d'' \<or>
     signEntry (as_signingKey svc) (ae_Hash e2) = signEntry (as_signingKey svc) (EntryHash (as_Marshal svc) (ae_Hash e1) e2))"
proof -
  have h: "h = last_hash [] (fst s)" using assms(9) by (simp add: LatestHash_last)
  have v: "is_ok (Entry_Validate e1)" "is_ok (Entry_Validate e2)" "now1 \<noteq> 0" "now2 \<noteq> 0"
    using assms(7,8) by (simp_all add: assms(10,11) request_ok_def Entry_Validate_def)
  let ?e1 = "e1\<lparr>ae_ID := snd s\<rparr>"
  let ?s1 = "(fst s @ [?e1], snd s + 1)"
  have s1: "handleAuditAppend (as_Marshal svc) applied e1 s = Inr ?s1" "ids_wf ?s1"
    using Append_ok [OF assms(1) v(1)] v(3) by (auto simp: handleAuditAppend_chained h assms(10))
  let ?h2 = "EntryHash (as_Marshal svc) (ae_Hash e1) e2"
  let ?e2 = "e2\<lparr>ae_Hash := ?h2\<rparr>"
  let ?s2 = "(fst ?s1 @ [?e2\<lparr>ae_ID := snd s + 1\<rparr>], snd s + 1 + 1)"
  have "handleAuditAppend (as_Marshal svc) applied e2 ?s1 = Append ?e2 ?s1"
    using v(4) by (simp add: handleAuditAppend_def LatestHash_last last_hash_def IsZero_def assms(11) Let_def)
  moreover have "is_ok (Entry_Validate ?e2)" using v(2) by (simp add: Entry_Validate_def split: if_splits)
  ultimately have s2: "handleAuditAppend (as_Marshal svc) applied e2 ?s1 = Inr ?s2" "ids_wf ?s2"
    using Append_ok [OF s1(2)] by auto
  have ok: "log_ok svc now1 (fst ?s1)"
    using assms(2,3) by (fastforce simp: log_ok_def chained_snoc sorted_append h assms(10))
  have "sorted (map ae_Timestamp (fst ?s2))"
    using ok assms(4) by (fastforce simp: log_ok_def sorted_append assms(10,11))
  then have list: "ar_List (raft_audit (as_Marshal svc) applied) verify_options ?s2 = Inr (fst ?s2)"
    unfolding verify_options_def raft_audit_def using audit_List_asc [OF s2(2), of 1000000] assms(6) by simp
  have chain1: "verify_entries svc [] (fst ?s1) = Inr (ae_Hash e1)"
    unfolding verify_entries_Inr using ok by (auto simp: log_ok_def signed_def last_hash_def signEntry_not_Nil [symmetric])
  have sig: "ae_Signature e2 = signEntry (as_signingKey svc) (ae_Hash e2)"
    using audit_entry_simps(5) assms(5,11) unfolding signed_def by metis
  have fin: "verify_entries svc [] (fst ?s2) =
    (if ae_Signature e2 \<noteq> signEntry (as_signingKey svc) ?h2 then Inl (invalid_at ?h2 ''signature mismatch at entry id %d'') else Inr ?h2)"
    using assms(5) sig by (simp only: fst_conv verify_entries_append [of _ _ "fst s @ [?e1]"] chain1 [unfolded fst_conv] sum.case)
      (simp add: EntryHash_def)
  show ?thesis
    using s1(1) s2(1) list fin sig
    by (cases "ae_Signature e2 = signEntry (as_signingKey svc) ?h2")
      (auto simp: audit_Verify_def invalid_at_def raft_audit_def LatestHash_last)
qed

text \<open>
  A clock that goes back between two records leaves a log that does not verify: the listing orders the
  entries by their instants, not by their places in the chain (unless the two hashed texts collide).
\<close>
theorem clock_back_breaks_chain:
  assumes "request_ok (now1, actor1, action1, resource1, status1, d1)" "request_ok (now2, actor2, action2, resource2, status2, d2)"
    and "now2 < now1" "e1 = audit_entry svc now1 [] actor1 action1 resource1 status1 d1"
    and "e2 = audit_entry svc now2 (ae_Hash e1) actor2 action2 resource2 status2 d2"
  shows "\<exists>s r. record_all memory_audit svc [(now1, actor1, action1, resource1, status1, d1), (now2, actor2, action2, resource2, status2, d2)]
      NewAuditRepository = Inr s \<and> audit_Verify (Some memory_audit) svc sg sat s = Inr r \<and>
    (vr_Message r = ''hash mismatch at entry id %d'' \<or>
     sha256_hex (entry_payload svc (ae_Hash e1) e2) = sha256_hex (entry_payload svc [] e2))"
proof -
  let ?s = "([e1\<lparr>ae_ID := 1\<rparr>, e2\<lparr>ae_ID := 2\<rparr>], 3)"
  have "Entry_Validate e1 = Inr ()" "Entry_Validate e2 = Inr ()"
    using assms(1,2) by (simp_all add: assms(4,5) request_ok_def Entry_Validate_def)
  then have rec: "record_all memory_audit svc [(now1, actor1, action1, resource1, status1, d1),
      (now2, actor2, action2, resource2, status2, d2)] NewAuditRepository = Inr ?s"
    by (simp add: Record_def memory_audit_def LatestHash_def NewAuditRepository_def Append_def assms(4,5))
  have "audit_order True (e2\<lparr>ae_ID := 2\<rparr>) < audit_order True (e1\<lparr>ae_ID := 1\<rparr>)"
    using assms(3) by (simp add: audit_order_def assms(4,5) less_prod_def)
  then have list: "audit_List verify_options ?s = Inr [e2\<lparr>ae_ID := 2\<rparr>, e1\<lparr>ae_ID := 1\<rparr>]"
    by (simp add: audit_List_def verify_options_def)
  have "ae_Hash e2 = sha256_hex (entry_payload svc (ae_Hash e1) e2)" by (simp add: assms(5))
  with list have "\<exists>r. audit_Verify (Some memory_audit) svc sg sat ?s = Inr r \<and>
    (vr_Message r = ''hash mismatch at entry id %d'' \<or>
     sha256_hex (entry_payload svc (ae_Hash e1) e2) = sha256_hex (entry_payload svc [] e2))"
    by (cases "sha256_hex (entry_payload svc (ae_Hash e1) e2) = sha256_hex (entry_payload svc [] e2)")
      (auto simp: audit_Verify_def memory_audit_def invalid_at_def computeHash_def entry_payload_def LatestHash_def split: sum.splits)
  with rec show ?thesis by blast
qed

section \<open>Redaction\<close>

text \<open>Nothing sensitive: under a sensitive key only the mark, and no string with embedded credentials.\<close>

fun clean :: "any \<Rightarrow> bool"
  and cleanMap :: "any_map \<Rightarrow> bool"
  and cleanList :: "any list \<Rightarrow> bool" where
  "clean (Dict m) = cleanMap m"
| "clean (Anys xs) = cleanList xs"
| "clean (Str s) = (\<not> looksLikeEmbeddedCredentials s)"
| "clean v = True"
| "cleanMap [] = True"
| "cleanMap ((key, v) # m) = ((if isSensitiveKey key then v = redacted else clean v) \<and> cleanMap m)"
| "cleanList [] = True"
| "cleanList (v # vs) = (clean v \<and> cleanList vs)"

lemma clean_redacted [simp]: "clean redacted"
  unfolding redacted_def by code_simp

lemma sanitize_clean: "clean (sanitizeValue v)" "cleanMap (sanitizeMap m)" "cleanList (sanitizeList vs)"
  by (induction v and m and vs rule: sanitizeValue_sanitizeMap_sanitizeList.induct) auto

lemma sanitize_harmless:
  "walkSensitive v = None \<Longrightarrow> sanitizeValue v = v" "walkMap m = None \<Longrightarrow> sanitizeMap m = m"
  "walkList vs = None \<Longrightarrow> sanitizeList vs = vs"
  by (induction v and m and vs rule: sanitizeValue_sanitizeMap_sanitizeList.induct) (auto split: if_splits option.splits)

lemma sanitize_keys: "map fst (sanitizeMap m) = map fst m"
  by (induction m) auto

lemma Details_audit_entry: "ae_Details (audit_entry svc now h actor action resource status d) = SanitizeDetails d"
  by (simp add: audit_entry_def applyAuthFields_def Let_def split: option.splits)


text \<open>A slice of strings, unlike a slice of arbitrary values, is recorded as it is.\<close>

theorem string_slices_unredacted:
  "looksLikeEmbeddedCredentials ''postgres://u:p@h/db'' \<and>
   SanitizeDetails (Some [(''urls'', Strs [''postgres://u:p@h/db''])]) = Some [(''urls'', Strs [''postgres://u:p@h/db''])] \<and>
   SanitizeDetails (Some [(''urls'', Anys [Str ''postgres://u:p@h/db''])]) = Some [(''urls'', Anys [redacted])]"
  by code_simp

section \<open>Instances\<close>

definition demo_audit :: audit_service where
  "demo_audit = \<lparr>as_signingKey = [1], as_Marshal = \<lambda>_. ''{}''\<rparr>"

theorem concurrent_records_break_signatures_witness:
  "\<exists>e1 e2 s1 s2 r. handleAuditAppend (as_Marshal demo_audit) 0 e1 NewAuditRepository = Inr s1 \<and>
     handleAuditAppend (as_Marshal demo_audit) 0 e2 s1 = Inr s2 \<and>
     audit_Verify (Some (raft_audit (as_Marshal demo_audit) 0)) demo_audit [] 0 s2 = Inr r \<and>
     (vr_Message r = ''signature mismatch at entry id %d'' \<or>
      signEntry (as_signingKey demo_audit) (ae_Hash e2) = signEntry (as_signingKey demo_audit) (EntryHash (as_Marshal demo_audit) (ae_Hash e1) e2))"
proof -
  have 1: "ids_wf NewAuditRepository" "log_ok demo_audit 0 (fst NewAuditRepository)" "LatestHash NewAuditRepository = Inr []"
    "length (fst NewAuditRepository) < 999998" "as_signingKey demo_audit \<noteq> []"
    by (simp_all add: ids_wf_def NewAuditRepository_def log_ok_def LatestHash_def demo_audit_def)
  have 2: "request_ok (5, ''a'', ''kv.read'', ''x'', ''success'', None)" "request_ok (6, ''b'', ''kv.read'', ''x'', ''success'', None)"
    by (simp_all add: request_ok_def)
  show ?thesis
    using concurrent_records_break_signatures [OF 1(1,2) _ _ 1(5,4) 2 1(3) refl refl, of 0 "[]" 0] by fastforce
qed

theorem clock_back_breaks_chain_witness:
  "\<exists>s r (e1 :: Entry) e2. record_all memory_audit demo_audit [(9, ''a'', ''kv.read'', ''x'', ''success'', None), (6, ''b'', ''kv.read'', ''x'', ''success'', None)]
      NewAuditRepository = Inr s \<and> audit_Verify (Some memory_audit) demo_audit [] 0 s = Inr r \<and>
    (vr_Message r = ''hash mismatch at entry id %d'' \<or>
     sha256_hex (entry_payload demo_audit (ae_Hash e1) e2) = sha256_hex (entry_payload demo_audit [] e2))"
proof -
  have "request_ok (9, ''a'', ''kv.read'', ''x'', ''success'', None)" "request_ok (6, ''b'', ''kv.read'', ''x'', ''success'', None)"
    by (simp_all add: request_ok_def)
  moreover have "(6 :: int) < 9" by simp
  ultimately show ?thesis using clock_back_breaks_chain [OF _ _ _ refl refl, of 9 "''a''" "''kv.read''" "''x''" "''success''" None 6] by blast
qed


lemma demo_verified: "\<exists>s r e. record_all memory_audit \<lparr>as_signingKey = [], as_Marshal = \<lambda>_. ''{}''\<rparr>
    [(5, ''a'', ''kv.read'', ''x'', ''success'', None)] NewAuditRepository = Inr s \<and> audit_List verify_options s = Inr [e] \<and>
    no_bars e \<and> audit_Verify (Some memory_audit) \<lparr>as_signingKey = [], as_Marshal = \<lambda>_. ''{}''\<rparr> [] 0 s = Inr r \<and> vr_Valid r"
proof -
  let ?svc = "\<lparr>as_signingKey = [], as_Marshal = \<lambda>_. ''{}''\<rparr>"
  let ?e = "audit_entry ?svc 5 [] ''a'' ''kv.read'' ''x'' ''success'' None"
  have e: "Entry_Validate ?e = Inr ()" "no_bars (?e\<lparr>ae_ID := 1\<rparr>)"
    by (simp_all add: Entry_Validate_def no_bars_def audit_entry_def applyAuthFields_def SanitizeDetails_def Let_def)
  then have rec: "record_all memory_audit ?svc [(5, ''a'', ''kv.read'', ''x'', ''success'', None)] NewAuditRepository = Inr ([?e\<lparr>ae_ID := 1\<rparr>], 2)"
    by (simp add: Record_def memory_audit_def LatestHash_def NewAuditRepository_def Append_def)
  have list: "audit_List verify_options ([?e\<lparr>ae_ID := 1\<rparr>], 2) = Inr [?e\<lparr>ae_ID := 1\<rparr>]"
    by (simp add: audit_List_def verify_options_def)
  then have "\<exists>r. audit_Verify (Some memory_audit) ?svc [] 0 ([?e\<lparr>ae_ID := 1\<rparr>], 2) = Inr r \<and> vr_Valid r"
    by (auto simp: audit_Verify_def memory_audit_def LatestHash_def verify_head_def computeHash_def entry_payload_def)
  with rec list e(2) show ?thesis by blast
qed

theorem Verify_tamper_evident_witness:
  "\<exists>s es r. audit_List verify_options s = Inr es \<and> es \<noteq> [] \<and> vr_Valid r \<and>
     (map (hashed_content \<lparr>as_signingKey = [], as_Marshal = \<lambda>_. ''{}''\<rparr>) es =
        map (hashed_content \<lparr>as_signingKey = [], as_Marshal = \<lambda>_. ''{}''\<rparr>) es \<or>
      (\<exists>p \<in> set (payloads \<lparr>as_signingKey = [], as_Marshal = \<lambda>_. ''{}''\<rparr> [] es).
         \<exists>q \<in> set (payloads \<lparr>as_signingKey = [], as_Marshal = \<lambda>_. ''{}''\<rparr> [] es). p \<noteq> q \<and> sha256_hex p = sha256_hex q)) \<and>
     audit_Verify (Some memory_audit) \<lparr>as_signingKey = [], as_Marshal = \<lambda>_. ''{}''\<rparr> [] 0 s = Inr r"
proof -
  let ?svc = "\<lparr>as_signingKey = [], as_Marshal = \<lambda>_. ''{}''\<rparr>"
  obtain s r e where s: "audit_List verify_options s = Inr [e]" "no_bars e" "audit_Verify (Some memory_audit) ?svc [] 0 s = Inr r" "vr_Valid r"
    using demo_verified by blast
  show ?thesis using Verify_tamper_evident [OF s(3,4,1) s(3,4,1) refl] s by fastforce
qed

end
