(* ===== verification/Sql.thy ===== *)
theory Sql
  imports GoStrings
begin

text \<open>
  The allow list for the SQL statements of managed database roles,
  \<^verbatim>\<open>internal/domain/secrets/sql_allow.go\<close>. A loop over an index is a recursion over the rest of
  the text.
\<close>

section \<open>The validator\<close>

definition managedSQLAllowPrefixes :: "string list" where
  "managedSQLAllowPrefixes =
     [''create role'', ''create user'', ''alter role'', ''alter user'', ''alter default privileges'', ''drop role'',
      ''drop user'', ''grant '', ''revoke '', ''create table'', ''drop table'', ''create temporary table'']"

definition managedSQLDenySubstrings :: "string list" where
  "managedSQLDenySubstrings =
     [''drop database'', ''drop schema'', ''truncate '', ''alter system'', ''copy '', ''pg_read_file'', ''pg_write_file'',
      ''lo_import'', ''lo_export'', '';--'', '' union '', '' into outfile'', ''load_file'', ''superuser'', ''createdb'',
      ''createrole'', ''replication'', ''bypassrls'', ''with admin option'', ''grant all'', ''grant all privileges'',
      ''set role'', ''grant create'', ''with grant option'', ''security invoker'', ''security definer'']"

definition managedSQLDenyRoles :: "string list" where
  "managedSQLDenyRoles =
     [''pg_read_server_files'', ''pg_write_server_files'', ''pg_execute_server_program'', ''pg_checkpoint'', ''pg_monitor'',
      ''pg_read_all_data'', ''pg_write_all_data'']"

text \<open>The text after a block comment; a comment that is not closed swallows the rest.\<close>

fun after_block :: "string \<Rightarrow> string" where
  "after_block (x # y # s) = (if x = CHR ''*'' \<and> y = CHR ''/'' then s else after_block (y # s))"
| "after_block s = []"

lemma length_after_block: "length (after_block s) \<le> length s"
  by (induction s rule: after_block.induct) auto

definition newline :: char where "newline = CHR 0x0A"

function stripSQLComments :: "string \<Rightarrow> string" where
  "stripSQLComments [] = []"
| "stripSQLComments [c] = [c]"
| "stripSQLComments (c # d # s) =
     (if c = CHR ''-'' \<and> d = CHR ''-''
      then (case dropWhile (\<lambda>x. x \<noteq> newline) s of [] \<Rightarrow> [] | _ # rest \<Rightarrow> CHR '' '' # stripSQLComments rest)
      else if c = CHR ''/'' \<and> d = CHR ''*'' then CHR '' '' # stripSQLComments (after_block s)
      else c # stripSQLComments (d # s))"
  by pat_completeness auto
termination
proof (relation "measure length", goal_cases)
  case (2 c d s x rest)
  then have "length (x # rest) \<le> length s" by (metis length_dropWhile_le)
  then show ?case by simp
next
  case (3 c d s)
  then show ?case using length_after_block [of s] by simp
qed simp_all

fun collapse_spaces :: "bool \<Rightarrow> string \<Rightarrow> string" where
  "collapse_spaces prevSpace [] = []"
| "collapse_spaces prevSpace (r # s) =
     (if is_space r then (if prevSpace then collapse_spaces True s else CHR '' '' # collapse_spaces True s)
      else r # collapse_spaces False s)"

definition normalizeManagedSQL :: "string \<Rightarrow> string" where
  "normalizeManagedSQL s = TrimSpace (collapse_spaces False (ToLower (stripSQLComments s)))"

definition isBareRoleMembershipGrant :: "string \<Rightarrow> bool" where
  "isBareRoleMembershipGrant nrm =
     (if \<not> HasPrefix nrm ''grant '' then False
      else if Contains nrm '' on '' then False
      else Contains nrm '' to '')"

definition role_verbs :: "string list" where
  "role_verbs = [''create role '', ''alter role '', ''drop role '', ''create user '', ''alter user '', ''drop user '']"

definition hasRoleMembershipEscalation :: "string \<Rightarrow> bool" where
  "hasRoleMembershipEscalation nrm =
     (let rest = (case find (HasPrefix nrm) role_verbs of None \<Rightarrow> nrm | Some p \<Rightarrow> TrimPrefix nrm p)
      in list_ex (Contains rest) ['' in role '', '' in group '', '' role '', '' admin ''] \<or>
         Contains rest '' role '' \<or> HasSuffix rest '' role'')"

definition validateOneManagedSQL :: "string \<Rightarrow> error option" where
  "validateOneManagedSQL stmt =
     (let s = TrimSpace stmt
      in if s = [] then Some (Plain ''empty statement'')
         else (let body = TrimSuffix (TrimSpace s) '';''; nrm = normalizeManagedSQL body
               in if Contains body '';'' then Some (Plain ''stacked SQL statements are not allowed'')
                  else if list_ex (Contains nrm) managedSQLDenySubstrings then Some (Plain ''disallowed SQL construct %q'')
                  else if hasRoleMembershipEscalation nrm then Some (Plain ''disallowed SQL construct %q'')
                  else if isBareRoleMembershipGrant nrm then Some (Plain ''disallowed SQL construct %q'')
                  else if list_ex (Contains nrm) managedSQLDenyRoles then Some (Plain ''disallowed SQL construct %q'')
                  else if \<not> list_ex (HasPrefix nrm) managedSQLAllowPrefixes
                  then Some (Plain ''statement must start with an allowed verb (CREATE/ALTER/DROP ROLE|USER, GRANT, REVOKE, CREATE/DROP TABLE)'')
                  else if Contains nrm ''password'' \<and> \<not> Contains s ''{{''
                  then Some (Plain ''password clauses must use template placeholders (e.g. {{password}})'')
                  else None))"

fun ValidateManagedSQLStatements :: "string list \<Rightarrow> error option" where
  "ValidateManagedSQLStatements [] = None"
| "ValidateManagedSQLStatements (stmt # stmts) =
     (case validateOneManagedSQL stmt of
        Some err \<Rightarrow> Some (Errorf ''statement[%d]: %w'' err)
      | None \<Rightarrow> ValidateManagedSQLStatements stmts)"

section \<open>What the server executes\<close>

text \<open>
  A statement as a SQL server reads it: in lower case, every quoted string replaced by a space. Neither
  form of comment exists inside a quoted string.
\<close>

fun sql_words :: "bool \<Rightarrow> string \<Rightarrow> string" where
  "sql_words quoted [] = []"
| "sql_words quoted (c # s) =
     (if c = CHR 0x27 then (if quoted then sql_words False s else CHR '' '' # sql_words True s)
      else if quoted then sql_words quoted s
      else to_lower_char c # sql_words quoted s)"

text \<open>A word the validator looks for: not empty, and without spaces and semicolons.\<close>

definition is_word :: "string \<Rightarrow> bool" where
  "is_word w \<longleftrightarrow> w \<noteq> [] \<and> (\<forall>c\<in>set w. \<not> is_space c \<and> c \<noteq> CHR '';'')"

lemma is_space_blank [simp]: "is_space (CHR '' '')"
  by (simp add: is_space_def)

lemma sql_words_prefix: "HasPrefix (sql_words False s) w \<Longrightarrow> \<forall>c\<in>set w. \<not> is_space c \<Longrightarrow> HasPrefix (ToLower s) w"
proof (induction w arbitrary: s)
  case (Cons x w)
  then show ?case by (cases s) (auto simp: ToLower_def split: if_splits)
qed simp

lemma sql_words_Contains: "Contains (sql_words q s) w \<Longrightarrow> is_word w \<Longrightarrow> Contains (ToLower s) w"
proof (induction s arbitrary: q)
  case (Cons c s)
  then show ?case
    using sql_words_prefix [of "c # s" w] by (cases w) (auto simp: is_word_def ToLower_def split: if_splits)
qed (simp add: is_word_def)

lemma collapse_prefix: "HasPrefix t w \<Longrightarrow> \<forall>c\<in>set w. \<not> is_space c \<Longrightarrow> HasPrefix (collapse_spaces b t) w"
proof (induction w arbitrary: t b)
  case (Cons x w)
  then show ?case by (cases t) auto
qed simp

lemma collapse_Contains: "Contains t w \<Longrightarrow> is_word w \<Longrightarrow> Contains (collapse_spaces b t) w"
proof (induction t arbitrary: b)
  case (Cons c t)
  show ?case
  proof (cases "HasPrefix (c # t) w")
    case True
    then have "HasPrefix (collapse_spaces b (c # t)) w"
      using Cons.prems(2) by (intro collapse_prefix) (auto simp: is_word_def)
    then show ?thesis by (cases "collapse_spaces b (c # t)") (auto simp: HasPrefix_iff)
  next
    case False
    then show ?thesis using Cons by (auto simp: is_word_def)
  qed
qed (simp add: is_word_def)

lemma dropWhile_word:
  assumes "is_word w" shows "\<exists>u'. dropWhile is_space (u @ w @ v) = u' @ w @ v"
proof (cases "\<forall>x\<in>set u. is_space x")
  case True
  then have "dropWhile is_space (u @ w @ v) = dropWhile is_space (w @ v)" by (intro dropWhile_append2) auto
  also have "\<dots> = w @ v" using assms by (cases w) (auto simp: is_word_def)
  finally show ?thesis by (intro exI [of _ "[]"]) simp
next
  case False
  then obtain x where "x \<in> set u" "\<not> is_space x" by blast
  then show ?thesis by (intro exI [of _ "dropWhile is_space u"]) (rule dropWhile_append1)
qed

lemma TrimSpace_Contains:
  assumes "Contains t w" "is_word w" shows "Contains (TrimSpace t) w"
proof -
  obtain u v where t: "t = u @ w @ v" using assms(1) by (auto simp: Contains_iff)
  obtain u' where u': "dropWhile is_space (u @ w @ v) = u' @ w @ v" using dropWhile_word [OF assms(2)] by blast
  have "is_word (rev w)" using assms(2) by (simp add: is_word_def)
  then obtain v' where v': "dropWhile is_space (rev v @ rev w @ rev u') = v' @ rev w @ rev u'"
    using dropWhile_word by blast
  have "TrimSpace t = u' @ w @ rev v'" unfolding TrimSpace_def t u' using v' by simp
  then show ?thesis by (auto simp: Contains_iff)
qed

lemma TrimSuffix_semicolon_Contains:
  assumes "Contains t w" "is_word w" shows "Contains (TrimSuffix t '';'') w"
proof (cases "HasSuffix t '';''")
  case True
  then obtain r where r: "t = r @ '';''" by (auto simp: HasSuffix_iff)
  obtain u v where t: "t = u @ w @ v" using assms(1) by (auto simp: Contains_iff)
  have "last w \<noteq> CHR '';''" "w \<noteq> []" using assms(2) by (auto simp: is_word_def)
  then have "v \<noteq> []" using r t by (metis append_Nil2 last_appendR last_snoc)
  then have "r = u @ w @ butlast v" using r t by (metis append_assoc butlast_append butlast_snoc append_is_Nil_conv)
  moreover have "TrimSuffix t '';'' = r" using r by simp
  ultimately show ?thesis by (auto simp: Contains_iff)
qed (simp add: TrimSuffix_def assms)

lemma strip_no_comment:
  "\<not> Contains s ''--'' \<Longrightarrow> \<not> Contains s ''/*'' \<Longrightarrow> stripSQLComments s = s"
  by (induction s rule: stripSQLComments.induct) (auto simp: HasPrefix_def)

lemma Contains_ToLower: "Contains (ToLower s) w \<longleftrightarrow> (\<exists>w'. Contains s w' \<and> ToLower w' = w)"
proof
  assume "Contains (ToLower s) w"
  then obtain u v where "map to_lower_char s = u @ w @ v" by (auto simp: Contains_iff ToLower_def)
  then obtain u' w' v' where "s = u' @ w' @ v'" "map to_lower_char w' = w" by (metis map_eq_append_conv)
  then show "\<exists>w'. Contains s w' \<and> ToLower w' = w" by (auto simp: Contains_iff ToLower_def)
next
  assume "\<exists>w'. Contains s w' \<and> ToLower w' = w"
  then obtain u w' v where "s = u @ w' @ v" "ToLower w' = w" by (auto simp: Contains_iff)
  then have "ToLower s = ToLower u @ w @ ToLower v" by simp
  then show "Contains (ToLower s) w" unfolding Contains_iff by blast
qed

lemma to_lower_char_fixed: "is_space c \<or> c = CHR '';'' \<Longrightarrow> to_lower_char c = c"
  by (auto simp: is_space_def to_lower_char_def)

lemma is_word_ToLower: "is_word (ToLower w) \<Longrightarrow> is_word w"
  by (auto simp: is_word_def ToLower_def) (metis to_lower_char_fixed)+

lemma Contains_trans: "Contains s t \<Longrightarrow> Contains t w \<Longrightarrow> Contains s w"
  by (auto simp: Contains_iff) (metis append_assoc)

lemma TrimSpace_sub: "Contains s (TrimSpace s)"
proof -
  have "s = takeWhile is_space s @ dropWhile is_space s" by simp
  moreover have "dropWhile is_space s =
      TrimSpace s @ rev (takeWhile is_space (rev (dropWhile is_space s)))"
    unfolding TrimSpace_def by (metis rev_append rev_rev_ident takeWhile_dropWhile_id)
  ultimately show ?thesis unfolding Contains_iff by metis
qed

lemma TrimSuffix_sub: "Contains s (TrimSuffix s p)"
  by (cases "HasSuffix s p") (auto simp: HasSuffix_iff Contains_iff TrimSuffix_def intro: exI [of _ "[]"])

section \<open>Soundness, and the gap\<close>

text \<open>
  C40. An accepted statement without comment openers, quoted strings included, contains none of the denied
  words and predefined roles outside its quoted strings, whatever its case and white space.
\<close>
theorem validateOneManagedSQL_sound:
  assumes ok: "validateOneManagedSQL stmt = None"
    and nc: "\<not> Contains stmt ''--''" "\<not> Contains stmt ''/*''"
    and w: "w \<in> set managedSQLDenySubstrings \<union> set managedSQLDenyRoles" "is_word w"
  shows "\<not> Contains (sql_words False stmt) w"
proof
  assume "Contains (sql_words False stmt) w"
  then obtain w' where w': "Contains stmt w'" "ToLower w' = w"
    using w(2) sql_words_Contains Contains_ToLower by blast
  define body where "body = TrimSuffix (TrimSpace (TrimSpace stmt)) '';''"
  have "is_word w'" using w(2) w'(2) is_word_ToLower by blast
  then have "Contains body w'"
    unfolding body_def using w'(1) by (intro TrimSuffix_semicolon_Contains TrimSpace_Contains)
  then have "Contains (ToLower body) w" using w'(2) Contains_ToLower by blast
  moreover have "Contains stmt body"
    unfolding body_def using TrimSuffix_sub TrimSpace_sub Contains_trans by meson
  then have "stripSQLComments body = body" using nc Contains_trans strip_no_comment by meson
  ultimately have "Contains (normalizeManagedSQL body) w"
    unfolding normalizeManagedSQL_def using w(2) by (simp add: TrimSpace_Contains collapse_Contains)
  then have "list_ex (Contains (normalizeManagedSQL body)) managedSQLDenySubstrings \<or>
    list_ex (Contains (normalizeManagedSQL body)) managedSQLDenyRoles"
    using w(1) by (auto simp: list_ex_iff)
  then show False using ok unfolding validateOneManagedSQL_def body_def [symmetric] Let_def by (auto split: if_splits)
qed

theorem validateOneManagedSQL_sound_witness:
  "\<not> Contains (sql_words False ''GRANT SELECT ON t TO {{name}};'') ''superuser''"
proof (rule validateOneManagedSQL_sound)
  show "validateOneManagedSQL ''GRANT SELECT ON t TO {{name}};'' = None" by code_simp
  show "\<not> Contains ''GRANT SELECT ON t TO {{name}};'' ''--''" by simp
  show "\<not> Contains ''GRANT SELECT ON t TO {{name}};'' ''/*''" by simp
  show "''superuser'' \<in> set managedSQLDenySubstrings \<union> set managedSQLDenyRoles"
    unfolding managedSQLDenySubstrings_def by simp
  show "is_word ''superuser''" by (simp add: is_word_def is_space_def)
qed

definition hidden_superuser :: string where
  "hidden_superuser = ''CREATE ROLE app PASSWORD '' @ [CHR 0x27] @ ''{{password}}--'' @ [CHR 0x27] @ '' SUPERUSER''"

text \<open>
  The absence of comment openers is needed also inside quotes: two dashes in a string hide the rest of
  the statement from the validator, and a statement which the server runs as CREATE ROLE with SUPERUSER,
  refused when written plainly, is accepted.
\<close>
theorem sql_comment_bypass:
  "validateOneManagedSQL hidden_superuser = None \<and> Contains (sql_words False hidden_superuser) '' superuser''"
  by code_simp

end
