(* ===== verification/Domain.thy ===== *)
theory Domain
  imports Sql Bytes GoTime
begin

text \<open>
  The domain records that the vault stores besides secrets, tokens and policies, with their
  validation and the decisions they carry: certificate authorities, issued certificates and PKI roles
  (\<^verbatim>\<open>internal/domain/pki\<close>), leases, database and SSH roles and rotation policies
  (\<^verbatim>\<open>internal/domain/secrets\<close>). A validation that also fills in defaults returns the record it leaves
  behind. Of \<^verbatim>\<open>net/url\<close> the validation of a database role asks one question, whether a text is a URL
  with a password; that function is an argument.
\<close>

section \<open>Certificate authorities and certificates\<close>

record CA =
  ca_ID :: uuid
  ca_ParentID :: "uuid option"
  ca_Name :: string
  ca_Type :: string
  ca_CommonName :: string
  ca_Organization :: string
  ca_OrganizationalUnit :: string
  ca_Country :: string
  ca_Serial :: string
  ca_CertPEM :: string
  ca_PrivateKeyEnc :: bytes
  ca_DEKEnc :: bytes
  ca_Status :: string
  ca_CreatedAt :: go_time
  ca_ExpiresAt :: go_time
  ca_CRLNextUpdate :: "go_time option"

definition CATypeRoot :: string where "CATypeRoot = ''root''"
definition CATypeIntermediate :: string where "CATypeIntermediate = ''intermediate''"

definition CA_Validate :: "CA \<Rightarrow> error option" where
  "CA_Validate c =
     (if ca_ID c = uuid_Nil then Some (Plain ''ca id is required'')
      else if ca_Name c = [] then Some (Plain ''ca name is required'')
      else if ca_Type c \<noteq> CATypeRoot \<and> ca_Type c \<noteq> CATypeIntermediate then Some (Plain ''invalid ca type %q'')
      else if ca_Type c = CATypeRoot \<and> ca_ParentID c \<noteq> None
      then Some (Plain ''root ca must not have parent_id'')
      else if ca_Type c = CATypeIntermediate \<and> (ca_ParentID c = None \<or> ca_ParentID c = Some uuid_Nil)
      then Some (Plain ''intermediate ca requires parent_id'')
      else if ca_CertPEM c = [] then Some (Plain ''cert_pem is required'')
      else if ca_PrivateKeyEnc c = [] \<or> ca_DEKEnc c = []
      then Some (Plain ''encrypted key material is required'')
      else None)"

record IssuedCertificate =
  ic_ID :: uuid
  ic_CAID :: uuid
  ic_Role :: string
  ic_Serial :: string
  ic_CommonName :: string
  ic_DNSNames :: "string list"
  ic_TTLSeconds :: int
  ic_IssuedAt :: go_time
  ic_ExpiresAt :: go_time
  ic_AutoRenew :: bool
  ic_RenewedFromSerial :: "string option"

definition IssuedCertificate_Validate :: "IssuedCertificate \<Rightarrow> error option" where
  "IssuedCertificate_Validate c =
     (if ic_ID c = uuid_Nil then Some (Plain ''issued certificate id is required'')
      else if ic_CAID c = uuid_Nil then Some (Plain ''ca id is required'')
      else if ic_Role c = [] \<or> ic_Serial c = [] \<or> ic_CommonName c = []
      then Some (Plain ''role, serial, and common_name are required'')
      else if ic_TTLSeconds c \<le> 0 then Some (Plain ''ttl must be positive'')
      else if IsZero (ic_ExpiresAt c) then Some (Plain ''expires_at is required'')
      else None)"

definition NeedsRenewal :: "IssuedCertificate \<Rightarrow> go_time \<Rightarrow> duration \<Rightarrow> bool" where
  "NeedsRenewal c now grace =
     (if \<not> ic_AutoRenew c then False else \<not> now < ic_ExpiresAt c - grace)"

section \<open>PKI roles\<close>

record PKIRole =
  pkr_Name :: string
  pkr_CAName :: string
  pkr_AllowedDomains :: "string list"
  pkr_MaxTTLSeconds :: int
  pkr_KeyUsage :: string
  pkr_AllowSubdomains :: bool

definition normalizeAllowedDomains :: "string list \<Rightarrow> string list" where
  "normalizeAllowedDomains ds = filter (\<lambda>d. d \<noteq> []) (map TrimSpace ds)"

definition PKIRole_Validate :: "PKIRole \<Rightarrow> PKIRole res" where
  "PKIRole_Validate r =
     (if pkr_Name r = [] then Inl (Plain ''pki role name is required'')
      else if pkr_CAName r = [] then Inl (Plain ''pki role ca_name is required'')
      else if \<not> List.member [[], ''server'', ''client'', ''code_signing''] (pkr_KeyUsage r)
      then Inl (Plain ''invalid pki role key_usage %q'')
      else (let r' = (if pkr_KeyUsage r = [] then r\<lparr>pkr_KeyUsage := ''server''\<rparr> else r)
            in if normalizeAllowedDomains (pkr_AllowedDomains r') = []
               then Inl (Plain ''pki role allowed_domains is required (use \"*\" only when unconstrained issuance is intentional)'')
               else Inr r'))"

definition AllowsAnyDomain :: "PKIRole \<Rightarrow> bool" where
  "AllowsAnyDomain r = list_ex (\<lambda>allowed. TrimSpace allowed = ''*'') (pkr_AllowedDomains r)"

definition domain_matches :: "bool \<Rightarrow> string \<Rightarrow> string \<Rightarrow> bool" where
  "domain_matches subdomains name allowed0 =
     (let allowed = ToLower (TrimSpace allowed0)
      in if allowed = [] \<or> allowed = ''*'' then False
         else if allowed = name then True
         else subdomains \<and> HasSuffix name (''.'' @ allowed))"

definition AllowedDomain :: "PKIRole \<Rightarrow> string \<Rightarrow> bool" where
  "AllowedDomain r name0 =
     (let name = ToLower (TrimSpace name0)
      in if name = [] then False
         else if AllowsAnyDomain r then True
         else list_ex (domain_matches (pkr_AllowSubdomains r) name) (pkr_AllowedDomains r))"

section \<open>Leases\<close>

record Lease =
  le_ID :: string
  le_Path :: string
  le_RoleName :: string
  le_Engine :: string
  le_TTLSeconds :: int
  le_CreatedAt :: go_time
  le_ExpiresAt :: go_time
  le_RevokedAt :: "go_time option"
  le_Renewable :: bool
  le_TokenID :: string
  le_Metadata :: "(string \<times> string) list"

definition Lease_Validate :: "Lease \<Rightarrow> error option" where
  "Lease_Validate l =
     (if le_ID l = [] then Some (Plain ''lease id is required'')
      else if le_Path l = [] then Some (Plain ''lease path is required'')
      else if le_RoleName l = [] then Some (Plain ''lease role is required'')
      else if le_Engine l = [] then Some (Plain ''lease engine is required'')
      else if le_TTLSeconds l \<le> 0 then Some (Plain ''lease ttl must be positive'')
      else if IsZero (le_ExpiresAt l) then Some (Plain ''lease expires_at is required'')
      else None)"

definition Lease_Active :: "Lease \<Rightarrow> go_time \<Rightarrow> bool" where
  "Lease_Active l now = (if le_RevokedAt l \<noteq> None then False else now < le_ExpiresAt l)"

section \<open>Database roles\<close>

record DatabaseRole =
  db_Name :: string
  db_TTLSeconds :: int
  db_DefaultTTL :: int
  db_MaxTTL :: int
  db_Period :: int
  db_Renewable :: bool
  db_MaxLeases :: int
  db_UsernamePrefix :: string
  db_DefaultUsername :: string
  db_CreationStatements :: "string list"
  db_RevocationStatements :: "string list"
  db_ExecutionMode :: string
  db_AdminCredentialsPath :: string
  db_Config :: "any_map option"
  db_CreatedAt :: go_time
  db_UpdatedAt :: go_time

definition ExecutionModeClient :: string where "ExecutionModeClient = ''client''"
definition ExecutionModeManaged :: string where "ExecutionModeManaged = ''managed''"

definition bannedConfigKeys :: "string list" where
  "bannedConfigKeys =
     [''password'', ''passwd'', ''secret'', ''token'', ''api_key'', ''apikey'', ''credential'', ''credentials'',
      ''connection_url'', ''connection_string'', ''connectionuri'', ''database_url'', ''dsn'', ''uri'', ''url'',
      ''private_key'', ''access_key'', ''secret_key'', ''admin_password'', ''admin_credentials'',
      ''admin_credentials_path'']"

definition NormalizeDatabaseLeaseTuning :: "DatabaseRole \<Rightarrow> DatabaseRole" where
  "NormalizeDatabaseLeaseTuning r0 =
     (let r1 = (if db_DefaultTTL r0 \<le> 0 then r0\<lparr>db_DefaultTTL := db_TTLSeconds r0\<rparr> else r0);
          r2 = (if db_MaxTTL r1 \<le> 0 then r1\<lparr>db_MaxTTL := db_DefaultTTL r1\<rparr> else r1)
      in if db_TTLSeconds r2 \<le> 0 then r2\<lparr>db_TTLSeconds := db_DefaultTTL r2\<rparr> else r2)"

definition NormalizeDatabaseRole :: "DatabaseRole \<Rightarrow> DatabaseRole" where
  "NormalizeDatabaseRole r0 =
     (let r1 = (if TrimSpace (db_ExecutionMode r0) = [] then r0\<lparr>db_ExecutionMode := ExecutionModeClient\<rparr> else r0);
          r2 = (if db_Config r1 = None then r1\<lparr>db_Config := Some []\<rparr> else r1)
      in NormalizeDatabaseLeaseTuning (r2\<lparr>db_AdminCredentialsPath := TrimSpace (db_AdminCredentialsPath r2)\<rparr>))"

definition is_alpha :: "char \<Rightarrow> bool" where
  "is_alpha c \<longleftrightarrow> (let n = (of_char c :: nat) in (65 \<le> n \<and> n \<le> 90) \<or> (97 \<le> n \<and> n \<le> 122))"

text \<open>The class \<^verbatim>\<open>\s\<close> of package \<^verbatim>\<open>regexp\<close>, which has no vertical tab.\<close>

definition re_space :: "char \<Rightarrow> bool" where
  "re_space c \<longleftrightarrow> List.member [CHR '' '', CHR 0x09, CHR 0x0A, CHR 0x0C, CHR 0x0D] c"

text \<open>
  The two regular expressions. In each of them the class that is repeated does not contain the
  character that ends it, so that the longest run is the only candidate.
\<close>

definition embeddedCredsPattern :: "string \<Rightarrow> bool" where
  "embeddedCredsPattern s =
     (case s of
        [] \<Rightarrow> False
      | c # t \<Rightarrow>
          is_alpha c \<and>
          (let rest = dropWhile (\<lambda>x. is_alpha x \<or> is_digit x \<or> List.member ''+.-'' x) t
           in HasPrefix rest ''://'' \<and>
              (let auth = drop 3 rest;
                   user = takeWhile (\<lambda>x. x \<noteq> CHR '':'' \<and> x \<noteq> CHR ''@'' \<and> \<not> re_space x) auth;
                   after = drop (length user) auth
               in user \<noteq> [] \<and> HasPrefix after '':'' \<and>
                  (let pass = takeWhile (\<lambda>x. x \<noteq> CHR ''@'' \<and> \<not> re_space x) (drop 1 after)
                   in pass \<noteq> [] \<and> HasPrefix (drop (Suc (length pass)) after) ''@''))))"

definition kvPathPattern :: "string \<Rightarrow> bool" where
  "kvPathPattern s =
     (case s of
        [] \<Rightarrow> False
      | c # t \<Rightarrow> (is_alpha c \<or> is_digit c) \<and> list_all (\<lambda>x. is_alpha x \<or> is_digit x \<or> List.member ''/_-'' x) t)"

definition validateConfigKey :: "string \<Rightarrow> error option" where
  "validateConfigKey key =
     (if List.member bannedConfigKeys (ToLower (TrimSpace key))
      then Some (Plain ''%s: key %q is not allowed in database role config; store credentials in KV and reference via admin_credentials_path'')
      else None)"

definition validateConfigString :: "(string \<Rightarrow> bool) \<Rightarrow> string \<Rightarrow> error option" where
  "validateConfigString url_password value =
     (let trimmed = TrimSpace value
      in if trimmed = [] then None
         else if embeddedCredsPattern trimmed
         then Some (Plain ''%s: value resembles a connection string with embedded credentials'')
         else if url_password trimmed then Some (Plain ''%s: URL contains embedded credentials'')
         else None)"

fun validateConfigValue :: "(string \<Rightarrow> bool) \<Rightarrow> any \<Rightarrow> error option"
  and validate_config_map :: "(string \<Rightarrow> bool) \<Rightarrow> any_map \<Rightarrow> error option"
  and validate_config_list :: "(string \<Rightarrow> bool) \<Rightarrow> any list \<Rightarrow> error option" where
  "validateConfigValue up (Dict m) = validate_config_map up m"
| "validateConfigValue up (Anys xs) = validate_config_list up xs"
| "validateConfigValue up (Str s) = validateConfigString up s"
| "validateConfigValue up v = None"
| "validate_config_map up [] = None"
| "validate_config_map up ((key, nested) # m) =
     (case validateConfigKey key of
        Some err \<Rightarrow> Some err
      | None \<Rightarrow> (case validateConfigValue up nested of Some err \<Rightarrow> Some err | None \<Rightarrow> validate_config_map up m))"
| "validate_config_list up [] = None"
| "validate_config_list up (v # vs) =
     (case validateConfigValue up v of Some err \<Rightarrow> Some err | None \<Rightarrow> validate_config_list up vs)"

definition ValidateDatabaseRoleConfig :: "(string \<Rightarrow> bool) \<Rightarrow> any_map option \<Rightarrow> error option" where
  "ValidateDatabaseRoleConfig up config = validateConfigValue up (Dict (case config of None \<Rightarrow> [] | Some m \<Rightarrow> m))"

definition ValidateExecutionMode :: "string \<Rightarrow> error option" where
  "ValidateExecutionMode mode =
     (if mode = ExecutionModeClient \<or> mode = ExecutionModeManaged then None
      else Some (Plain ''unsupported execution mode %q (use %q)''))"

definition ValidateAdminCredentialsPath :: "string \<Rightarrow> error option" where
  "ValidateAdminCredentialsPath path0 =
     (let path = TrimSpace path0
      in if path = [] then None
         else if Contains path ''..'' \<or> HasPrefix path ''/''
         then Some (Plain ''admin_credentials_path must be a relative KV path without .. segments'')
         else if \<not> kvPathPattern path then Some (Plain ''admin_credentials_path %q has invalid characters'')
         else None)"

definition sql_strict :: "any_map option \<Rightarrow> bool" where
  "sql_strict config =
     (case config of
        None \<Rightarrow> True
      | Some m \<Rightarrow>
          (case map_of m ''sql_strict'' of
             Some (BoolAny t) \<Rightarrow> t
           | Some (Str t) \<Rightarrow> t \<noteq> ''false'' \<and> t \<noteq> ''0''
           | _ \<Rightarrow> True))"

definition validate_managed :: "DatabaseRole \<Rightarrow> error option" where
  "validate_managed r =
     (if db_AdminCredentialsPath r = []
      then Some (Plain ''admin_credentials_path is required for managed execution mode'')
      else if db_CreationStatements r = []
      then Some (Plain ''creation_statements are required for managed execution mode'')
      else if \<not> sql_strict (db_Config r)
      then Some (Plain ''sql_strict=false is not allowed; managed roles must use template-only SQL'')
      else (case ValidateManagedSQLStatements (db_CreationStatements r) of
              Some err \<Rightarrow> Some (Errorf ''creation_statements: %w'' err)
            | None \<Rightarrow>
                if db_RevocationStatements r = [] then None
                else (case ValidateManagedSQLStatements (db_RevocationStatements r) of
                        Some err \<Rightarrow> Some (Errorf ''revocation_statements: %w'' err)
                      | None \<Rightarrow> None)))"

definition DatabaseRole_Validate :: "(string \<Rightarrow> bool) \<Rightarrow> DatabaseRole \<Rightarrow> DatabaseRole res" where
  "DatabaseRole_Validate up r0 =
     (let r = NormalizeDatabaseRole r0
      in if db_Name r = [] then Inl (Plain ''database role name is required'')
         else if db_TTLSeconds r \<le> 0 then Inl (Plain ''database role ttl must be positive'')
         else if db_UsernamePrefix r = [] then Inl (Plain ''database role username prefix is required'')
         else (case ValidateExecutionMode (db_ExecutionMode r) of
                 Some err \<Rightarrow> Inl err
               | None \<Rightarrow>
                   (case ValidateAdminCredentialsPath (db_AdminCredentialsPath r) of
                      Some err \<Rightarrow> Inl err
                    | None \<Rightarrow>
                        (case ValidateDatabaseRoleConfig up (db_Config r) of
                           Some err \<Rightarrow> Inl err
                         | None \<Rightarrow>
                             if db_ExecutionMode r = ExecutionModeManaged
                             then (case validate_managed r of Some err \<Rightarrow> Inl err | None \<Rightarrow> Inr r)
                             else Inr r))))"

section \<open>SSH roles\<close>

record SSHRole =
  sh_Name :: string
  sh_TTLSeconds :: int
  sh_DefaultTTL :: int
  sh_MaxTTL :: int
  sh_Period :: int
  sh_Renewable :: bool
  sh_MaxLeases :: int
  sh_CAKeyPath :: string
  sh_AllowedUsers :: "string list"
  sh_DefaultUser :: string
  sh_KeyType :: string
  sh_Extensions :: "(string \<times> string) list option"
  sh_CreatedAt :: go_time
  sh_UpdatedAt :: go_time

definition SSHKeyTypeED25519 :: string where "SSHKeyTypeED25519 = ''ed25519''"
definition SSHKeyTypeRSA :: string where "SSHKeyTypeRSA = ''rsa''"

definition NormalizeSSHRole :: "SSHRole \<Rightarrow> SSHRole" where
  "NormalizeSSHRole r0 =
     (let r1 = (if sh_TTLSeconds r0 \<le> 0 then r0\<lparr>sh_TTLSeconds := 3600\<rparr> else r0);
          r2 = (if sh_DefaultTTL r1 \<le> 0 then r1\<lparr>sh_DefaultTTL := sh_TTLSeconds r1\<rparr> else r1);
          r3 = (if sh_MaxTTL r2 \<le> 0 then r2\<lparr>sh_MaxTTL := sh_DefaultTTL r2\<rparr> else r2);
          r4 = (if sh_KeyType r3 = [] then r3\<lparr>sh_KeyType := SSHKeyTypeED25519\<rparr> else r3)
      in if sh_Extensions r4 = None then r4\<lparr>sh_Extensions := Some [(''permit-pty'', [])]\<rparr> else r4)"

definition SSHRole_Validate :: "SSHRole \<Rightarrow> SSHRole res" where
  "SSHRole_Validate r0 =
     (let r = NormalizeSSHRole r0
      in if sh_Name r = [] then Inl (Plain ''ssh role name is required'')
         else if sh_TTLSeconds r \<le> 0 then Inl (Plain ''ssh role ttl must be positive'')
         else if TrimSpace (sh_CAKeyPath r) = [] then Inl (Plain ''ca_key_path is required'')
         else if sh_KeyType r \<noteq> SSHKeyTypeED25519 \<and> sh_KeyType r \<noteq> SSHKeyTypeRSA
         then Inl (Plain ''invalid ssh key_type %q'')
         else if sh_DefaultUser r = [] \<and> sh_AllowedUsers r = []
         then Inl (Plain ''default_user or allowed_users is required'')
         else Inr r)"

definition AllowedUser :: "SSHRole \<Rightarrow> string \<Rightarrow> bool" where
  "AllowedUser r username0 =
     (let username = TrimSpace username0
      in if username = [] then False
         else if sh_AllowedUsers r = [] then sh_DefaultUser r = [] \<or> sh_DefaultUser r = username
         else list_ex (\<lambda>allowed. TrimSpace allowed = username) (sh_AllowedUsers r))"

section \<open>Lease tuning\<close>

record LeaseTuning =
  lt_DefaultTTL :: int
  lt_MaxTTL :: int
  lt_Period :: int
  lt_Renewable :: bool
  lt_MaxLeases :: int

definition tuning_defaults :: "int \<Rightarrow> LeaseTuning \<Rightarrow> LeaseTuning" where
  "tuning_defaults ttlSeconds t0 =
     (let t1 = (if lt_DefaultTTL t0 \<le> 0 then t0\<lparr>lt_DefaultTTL := ttlSeconds\<rparr> else t0);
          t2 = (if lt_MaxTTL t1 \<le> 0 then t1\<lparr>lt_MaxTTL := lt_DefaultTTL t1\<rparr> else t1);
          t3 = (if lt_DefaultTTL t2 \<le> 0 then t2\<lparr>lt_DefaultTTL := 3600\<rparr> else t2)
      in if lt_MaxTTL t3 \<le> 0 then t3\<lparr>lt_MaxTTL := lt_DefaultTTL t3\<rparr> else t3)"

definition LeaseTuningFromDatabaseRole :: "DatabaseRole \<Rightarrow> LeaseTuning" where
  "LeaseTuningFromDatabaseRole r =
     tuning_defaults (db_TTLSeconds r)
       \<lparr>lt_DefaultTTL = db_DefaultTTL r, lt_MaxTTL = db_MaxTTL r, lt_Period = db_Period r,
        lt_Renewable = db_Renewable r, lt_MaxLeases = db_MaxLeases r\<rparr>"

definition LeaseTuningFromSSHRole :: "SSHRole \<Rightarrow> LeaseTuning" where
  "LeaseTuningFromSSHRole r =
     tuning_defaults (sh_TTLSeconds r)
       \<lparr>lt_DefaultTTL = sh_DefaultTTL r, lt_MaxTTL = sh_MaxTTL r, lt_Period = sh_Period r,
        lt_Renewable = sh_Renewable r, lt_MaxLeases = sh_MaxLeases r\<rparr>"

definition ResolveIssueTTL :: "LeaseTuning \<Rightarrow> int \<Rightarrow> int res" where
  "ResolveIssueTTL t requested =
     (let ttl0 = (if requested > 0 then requested else lt_DefaultTTL t);
          ttl = (if lt_Period t > 0 then lt_Period t else ttl0)
      in if ttl \<le> 0 then Inl (Plain ''ttl must be positive'')
         else if ttl > lt_MaxTTL t then Inl (Plain ''requested ttl %ds exceeds role max_ttl %ds'')
         else Inr ttl)"

text \<open>
  The products are int64 and wrap. The division to whole seconds goes through a float64 in the code,
  which is exact on a whole number of seconds.
\<close>

definition ResolveRenewTTL :: "LeaseTuning \<Rightarrow> int \<Rightarrow> int \<Rightarrow> go_time \<Rightarrow> int" where
  "ResolveRenewTTL t requested0 currentTTL now =
     (let requested1 = (if requested0 \<le> 0 then currentTTL else requested0);
          requested = (if lt_Period t > 0 then lt_Period t else requested1);
          maxUntil = now + wrap64 (lt_MaxTTL t * Second);
          candidate = now + wrap64 (requested * Second)
      in if maxUntil < candidate
         then (let d = time_Sub maxUntil now in if d < 0 then - ((- d) div Second) else d div Second)
         else requested)"

section \<open>Rotation policies\<close>

record RotationPolicy =
  rot_Path :: string
  rot_Interval :: int
  rot_Generator :: string
  rot_ScriptRef :: string
  rot_LastRotatedAt :: go_time
  rot_Enabled :: bool

definition GeneratorRandomPassword :: string where "GeneratorRandomPassword = ''random_password''"
definition GeneratorScriptRef :: string where "GeneratorScriptRef = ''script_ref''"

definition RotationPolicy_Validate :: "RotationPolicy \<Rightarrow> error option" where
  "RotationPolicy_Validate p =
     (if rot_Path p = [] then Some (Plain ''rotation path is required'')
      else if rot_Interval p \<le> 0 then Some (Plain ''rotation interval must be positive'')
      else if rot_Generator p \<noteq> GeneratorRandomPassword \<and> rot_Generator p \<noteq> GeneratorScriptRef
      then Some (Plain ''invalid rotation generator %q'')
      else if rot_Generator p = GeneratorScriptRef \<and> rot_ScriptRef p = []
      then Some (Plain ''script_ref required for script_ref generator'')
      else None)"

definition Due :: "RotationPolicy \<Rightarrow> go_time \<Rightarrow> bool" where
  "Due p now =
     (if \<not> rot_Enabled p then False
      else if IsZero (rot_LastRotatedAt p) then True
      else wrap64 (rot_Interval p * Second) \<le> time_Sub now (rot_LastRotatedAt p))"

section \<open>What the records promise\<close>

text \<open>Validating a record that a validation left behind changes nothing.\<close>

lemma PKIRole_Validate_idem: "PKIRole_Validate r = Inr r' \<Longrightarrow> PKIRole_Validate r' = Inr r' \<and> pkr_Name r' = pkr_Name r"
  by (auto simp: PKIRole_Validate_def Let_def split: if_splits)

lemma NormalizeDatabaseRole_name [simp]: "db_Name (NormalizeDatabaseRole r) = db_Name r"
  by (simp add: NormalizeDatabaseRole_def NormalizeDatabaseLeaseTuning_def Let_def)

definition db_normal :: "DatabaseRole \<Rightarrow> bool" where
  "db_normal r \<longleftrightarrow> 0 < db_TTLSeconds r \<and> 0 < db_DefaultTTL r \<and> 0 < db_MaxTTL r \<and> TrimSpace (db_ExecutionMode r) \<noteq> [] \<and>
     db_Config r \<noteq> None \<and> TrimSpace (db_AdminCredentialsPath r) = db_AdminCredentialsPath r"

lemma NormalizeDatabaseRole_fixed: "db_normal r \<Longrightarrow> NormalizeDatabaseRole r = r"
  by (simp add: db_normal_def NormalizeDatabaseRole_def NormalizeDatabaseLeaseTuning_def Let_def)

lemma NormalizeDatabaseRole_normal: "0 < db_TTLSeconds (NormalizeDatabaseRole r) \<Longrightarrow> db_normal (NormalizeDatabaseRole r)"
proof -
  define x where "x = (if TrimSpace (db_ExecutionMode r) = [] then r\<lparr>db_ExecutionMode := ExecutionModeClient\<rparr> else r)"
  define y where "y = (if db_Config x = None then x\<lparr>db_Config := Some []\<rparr> else x)"
  define z where "z = y\<lparr>db_AdminCredentialsPath := TrimSpace (db_AdminCredentialsPath y)\<rparr>"
  have n: "NormalizeDatabaseRole r = NormalizeDatabaseLeaseTuning z"
    by (simp only: NormalizeDatabaseRole_def Let_def x_def y_def z_def)
  have x: "TrimSpace (db_ExecutionMode x) \<noteq> []"
    by (cases "TrimSpace (db_ExecutionMode r) = []") (simp_all add: x_def ExecutionModeClient_def TrimSpace_def is_space_def)
  have y: "db_Config y \<noteq> None" "db_ExecutionMode y = db_ExecutionMode x" by (simp_all add: y_def)
  have t: "db_Config (NormalizeDatabaseLeaseTuning z) = db_Config z"
    "db_ExecutionMode (NormalizeDatabaseLeaseTuning z) = db_ExecutionMode z"
    "db_AdminCredentialsPath (NormalizeDatabaseLeaseTuning z) = db_AdminCredentialsPath z"
    by (simp_all add: NormalizeDatabaseLeaseTuning_def Let_def)
  have p: "0 < db_TTLSeconds (NormalizeDatabaseLeaseTuning z) \<Longrightarrow>
      0 < db_DefaultTTL (NormalizeDatabaseLeaseTuning z) \<and> 0 < db_MaxTTL (NormalizeDatabaseLeaseTuning z)"
    by (auto simp: NormalizeDatabaseLeaseTuning_def Let_def split: if_splits)
  assume "0 < db_TTLSeconds (NormalizeDatabaseRole r)"
  then show ?thesis using p x y unfolding n db_normal_def t by (simp add: z_def)
qed

lemma DatabaseRole_Validate_normal:
  "DatabaseRole_Validate up r = Inr r' \<Longrightarrow> r' = NormalizeDatabaseRole r \<and> 0 < db_TTLSeconds r'"
  by (auto simp: DatabaseRole_Validate_def Let_def split: if_splits option.splits)

lemma DatabaseRole_Validate_idem:
  assumes "DatabaseRole_Validate up r = Inr r'"
  shows "DatabaseRole_Validate up r' = Inr r' \<and> db_Name r' = db_Name r"
proof -
  have n: "r' = NormalizeDatabaseRole r" "db_normal r'"
    using DatabaseRole_Validate_normal [OF assms] NormalizeDatabaseRole_normal by auto
  then have "DatabaseRole_Validate up r' = DatabaseRole_Validate up r"
    unfolding DatabaseRole_Validate_def NormalizeDatabaseRole_fixed [OF n(2)] Let_def by (simp only: n(1))
  then show ?thesis using n(1) assms by simp
qed

lemma NormalizeSSHRole_name [simp]: "sh_Name (NormalizeSSHRole r) = sh_Name r"
  by (simp add: NormalizeSSHRole_def Let_def)

definition ssh_normal :: "SSHRole \<Rightarrow> bool" where
  "ssh_normal r \<longleftrightarrow> 0 < sh_TTLSeconds r \<and> 0 < sh_DefaultTTL r \<and> 0 < sh_MaxTTL r \<and> sh_KeyType r \<noteq> [] \<and> sh_Extensions r \<noteq> None"

lemma NormalizeSSHRole_fixed: "ssh_normal r \<Longrightarrow> NormalizeSSHRole r = r"
  by (simp add: ssh_normal_def NormalizeSSHRole_def Let_def)

lemma NormalizeSSHRole_normal: "ssh_normal (NormalizeSSHRole r)"
proof -
  define r1 where "r1 = (if sh_TTLSeconds r \<le> 0 then r\<lparr>sh_TTLSeconds := 3600\<rparr> else r)"
  define r2 where "r2 = (if sh_DefaultTTL r1 \<le> 0 then r1\<lparr>sh_DefaultTTL := sh_TTLSeconds r1\<rparr> else r1)"
  define r3 where "r3 = (if sh_MaxTTL r2 \<le> 0 then r2\<lparr>sh_MaxTTL := sh_DefaultTTL r2\<rparr> else r2)"
  define r4 where "r4 = (if sh_KeyType r3 = [] then r3\<lparr>sh_KeyType := SSHKeyTypeED25519\<rparr> else r3)"
  define r5 where "r5 = (if sh_Extensions r4 = None then r4\<lparr>sh_Extensions := Some [(''permit-pty'', [])]\<rparr> else r4)"
  have "NormalizeSSHRole r = r5" by (simp only: NormalizeSSHRole_def Let_def r1_def r2_def r3_def r4_def r5_def)
  moreover have 1: "0 < sh_TTLSeconds r1" by (simp add: r1_def)
  moreover have 2: "sh_TTLSeconds r2 = sh_TTLSeconds r1" "0 < sh_DefaultTTL r2" using 1 by (simp_all add: r2_def)
  moreover have 3: "sh_TTLSeconds r3 = sh_TTLSeconds r2" "sh_DefaultTTL r3 = sh_DefaultTTL r2" "0 < sh_MaxTTL r3"
    using 2 by (simp_all add: r3_def)
  moreover have 4: "sh_TTLSeconds r4 = sh_TTLSeconds r3" "sh_DefaultTTL r4 = sh_DefaultTTL r3" "sh_MaxTTL r4 = sh_MaxTTL r3"
    "sh_KeyType r4 \<noteq> []" by (simp_all add: r4_def SSHKeyTypeED25519_def)
  moreover have "sh_TTLSeconds r5 = sh_TTLSeconds r4" "sh_DefaultTTL r5 = sh_DefaultTTL r4" "sh_MaxTTL r5 = sh_MaxTTL r4"
    "sh_KeyType r5 = sh_KeyType r4" "sh_Extensions r5 \<noteq> None" by (simp_all add: r5_def)
  ultimately show ?thesis by (simp add: ssh_normal_def)
qed

lemma SSHRole_Validate_normal: "SSHRole_Validate r = Inr r' \<Longrightarrow> r' = NormalizeSSHRole r"
  by (auto simp: SSHRole_Validate_def Let_def split: if_splits)

lemma SSHRole_Validate_idem:
  assumes "SSHRole_Validate r = Inr r'"
  shows "SSHRole_Validate r' = Inr r' \<and> sh_Name r' = sh_Name r"
proof -
  have n: "r' = NormalizeSSHRole r" using SSHRole_Validate_normal [OF assms] .
  then have "NormalizeSSHRole r' = r'" using NormalizeSSHRole_fixed NormalizeSSHRole_normal by blast
  then have "SSHRole_Validate r' = SSHRole_Validate r"
    unfolding SSHRole_Validate_def Let_def by (simp only: n)
  then show ?thesis using n assms by simp
qed

text \<open>The domains of a PKI role.\<close>

lemma ToLower_eq_Nil [simp]: "ToLower s = [] \<longleftrightarrow> s = []"
  by (simp add: ToLower_def)

text \<open>
  A PKI role accepts exactly the names that are, up to case and surrounding white space, one of its
  domains or, for a role with subdomains, end in a dot and one of its domains; every name when one of
  its domains is a star; never the empty name.
\<close>
theorem AllowedDomain_iff:
  "AllowedDomain r name \<longleftrightarrow>
     TrimSpace name \<noteq> [] \<and>
     ((\<exists>d \<in> set (pkr_AllowedDomains r). TrimSpace d = ''*'') \<or>
      (\<exists>d \<in> set (normalizeAllowedDomains (pkr_AllowedDomains r)).
         ToLower (TrimSpace name) = ToLower d \<or>
         (pkr_AllowSubdomains r \<and> (\<exists>label. ToLower (TrimSpace name) = label @ ''.'' @ ToLower d))))"
proof (cases "AllowsAnyDomain r")
  case True
  then show ?thesis by (auto simp: AllowedDomain_def AllowsAnyDomain_def list_ex_iff)
next
  case False
  then have star: "\<forall>d \<in> set (pkr_AllowedDomains r). TrimSpace d \<noteq> ''*''" by (auto simp: AllowsAnyDomain_def list_ex_iff)
  have one: "domain_matches (pkr_AllowSubdomains r) n d \<longleftrightarrow> TrimSpace d \<noteq> [] \<and>
     (n = ToLower (TrimSpace d) \<or> (pkr_AllowSubdomains r \<and> (\<exists>label. n = label @ ''.'' @ ToLower (TrimSpace d))))"
    if "d \<in> set (pkr_AllowedDomains r)" for n d
  proof -
    have "ToLower (TrimSpace d) \<noteq> ''*''"
      using star that lower_star by blast
    then show ?thesis by (auto simp: domain_matches_def Let_def HasSuffix_iff)
  qed
  show ?thesis using False star
    by (auto simp: AllowedDomain_def normalizeAllowedDomains_def list_ex_iff one)
qed

section \<open>Time limits of leases\<close>

lemma tuning_defaults_positive:
  "0 < lt_DefaultTTL (tuning_defaults ttl t) \<and> 0 < lt_MaxTTL (tuning_defaults ttl t)"
  by (simp add: tuning_defaults_def Let_def)

lemma wrap64_seconds: "0 \<le> n \<Longrightarrow> n \<le> 9223372036 \<Longrightarrow> wrap64 (n * Second) = n * Second"
  by (rule wrap64_id) (simp_all add: Second_def)

lemma time_Sub_seconds: "0 \<le> n \<Longrightarrow> n \<le> 9223372036 \<Longrightarrow> time_Sub (now + n * Second) now = n * Second"
  by (simp add: time_Sub_def Second_def)

lemma ResolveRenewTTL_min:
  assumes "0 < lt_MaxTTL t" "lt_MaxTTL t \<le> 9223372036" "0 < c" "c \<le> 9223372036" "r \<le> 9223372036" "lt_Period t \<le> 9223372036"
  shows "ResolveRenewTTL t r c now =
    min (lt_MaxTTL t) (if 0 < lt_Period t then lt_Period t else if 0 < r then r else c)"
proof -
  define q where "q = (if 0 < lt_Period t then lt_Period t else if r \<le> 0 then c else r)"
  have q: "0 < q" "q \<le> 9223372036" using assms by (auto simp: q_def)
  have "ResolveRenewTTL t r c now =
    (if now + lt_MaxTTL t * Second < now + q * Second then lt_MaxTTL t * Second div Second else q)"
    unfolding ResolveRenewTTL_def Let_def q_def [symmetric]
    using assms q by (simp add: wrap64_seconds time_Sub_seconds) (simp add: Second_def)
  also have "\<dots> = min (lt_MaxTTL t) q" by (simp add: Second_def)
  finally show ?thesis by (auto simp: q_def)
qed

end
