(* ===== verification/Repos.thy ===== *)
theory Repos
  imports Domain Login AuditLog SecretRepo
begin

text \<open>
  The other in-memory repositories of \<^verbatim>\<open>internal/repository/memory\<close>: certificate authorities,
  revocations, issued certificates, leases, policies, roles, PKI, database and SSH roles, machine
  identities and rotation policies, and the operation \<^verbatim>\<open>Clear\<close> of each of them. A repository is an association
  list from the key of a record to the record; the code iterates over a map, so records that its sort
  does not order are in the order of the list here. A method runs under the repository's mutex and is
  one function. The locale \<open>keyed_repository\<close> states what the repositories that are keyed by a field
  have in common, and is interpreted on each of them.
\<close>

section \<open>Tables\<close>

type_synonym 'v table = "(string \<times> 'v) list"

definition table_get :: "error \<Rightarrow> string \<Rightarrow> 'v table \<Rightarrow> 'v res" where
  "table_get err k t = (case map_of t k of None \<Rightarrow> Inl err | Some v \<Rightarrow> Inr v)"

definition table_delete :: "error \<Rightarrow> string \<Rightarrow> 'v table \<Rightarrow> 'v table res" where
  "table_delete err k t = (if map_of t k = None then Inl err else Inr (AList.delete k t))"

text \<open>\<^verbatim>\<open>if limit <= 0 { limit = 100 } ... if len(out) > limit { out = out[:limit] }\<close>\<close>

definition limited :: "int \<Rightarrow> 'v list \<Rightarrow> 'v list" where
  "limited limit0 out =
     (let limit = (if limit0 \<le> 0 then 100 else limit0)
      in if limit < int (length out) then take (nat limit) out else out)"

section \<open>Certificate authorities\<close>

definition ca_not_found :: error where "ca_not_found = New ErrCodeNotFound ''ca not found''"

definition CARepository_Save :: "CA \<Rightarrow> CA table \<Rightarrow> CA table res" where
  "CARepository_Save ca r =
     (case CA_Validate ca of
        Some err \<Rightarrow> Inl (Wrap ErrCodeValidation ''invalid ca'' err)
      | None \<Rightarrow>
          if list_ex (\<lambda>(_, existing). ca_ID existing \<noteq> ca_ID ca \<and> ca_Name existing = ca_Name ca) r
          then Inl (New ErrCodeValidation ''ca name already exists'')
          else Inr (AList.update (ca_ID ca) ca r))"

definition CARepository_GetByID :: "uuid \<Rightarrow> CA table \<Rightarrow> CA res" where
  "CARepository_GetByID i r = table_get ca_not_found i r"

definition CARepository_GetByName :: "string \<Rightarrow> CA table \<Rightarrow> CA res" where
  "CARepository_GetByName name r =
     (case find (\<lambda>ca. ca_Name ca = name) (map snd r) of None \<Rightarrow> Inl ca_not_found | Some ca \<Rightarrow> Inr ca)"

definition CARepository_List :: "CA table \<Rightarrow> CA list" where
  "CARepository_List r = sort_key ca_CreatedAt (map snd r)"

definition CARepository_Clear :: "CA table \<Rightarrow> CA table" where
  "CARepository_Clear r = []"

section \<open>Policies and roles\<close>

definition policy_not_found :: error where "policy_not_found = New ErrCodeNotFound ''policy not found''"

text \<open>The identifier drawn for a policy without one is an argument.\<close>

definition with_id :: "uuid \<Rightarrow> Policy \<Rightarrow> Policy" where
  "with_id new pol = (if pol_ID pol = uuid_Nil then pol\<lparr>pol_ID := new\<rparr> else pol)"

definition PolicyRepository_Save :: "uuid \<Rightarrow> Policy \<Rightarrow> Policy table \<Rightarrow> Policy table res" where
  "PolicyRepository_Save new pol r =
     (case Policy_Validate pol of
        Inl err \<Rightarrow> Inl (Wrap ErrCodeValidation ''invalid policy'' err)
      | Inr _ \<Rightarrow> Inr (AList.update (pol_Name pol) (with_id new pol) r))"

definition PolicyRepository_GetByName :: "string \<Rightarrow> Policy table \<Rightarrow> Policy res" where
  "PolicyRepository_GetByName name r = table_get policy_not_found name r"

definition PolicyRepository_List :: "Policy table \<Rightarrow> Policy list" where
  "PolicyRepository_List r = sort_key pol_Name (map snd r)"

definition PolicyRepository_Delete :: "string \<Rightarrow> Policy table \<Rightarrow> Policy table res" where
  "PolicyRepository_Delete name r = table_delete policy_not_found name r"

definition PolicyRepository_Clear :: "Policy table \<Rightarrow> Policy table" where
  "PolicyRepository_Clear r = []"

definition role_not_found :: error where "role_not_found = New ErrCodeNotFound ''role not found''"

definition RoleRepository_Save :: "Role \<Rightarrow> Role table \<Rightarrow> Role table res" where
  "RoleRepository_Save role r =
     (case Role_Validate role of
        Some err \<Rightarrow> Inl (Wrap ErrCodeValidation ''invalid role'' (Plain err))
      | None \<Rightarrow> Inr (AList.update (role_Name role) role r))"

definition RoleRepository_Get :: "string \<Rightarrow> Role table \<Rightarrow> Role res" where
  "RoleRepository_Get name r = table_get role_not_found name r"

definition RoleRepository_List :: "Role table \<Rightarrow> Role list" where
  "RoleRepository_List r = sort_key role_Name (map snd r)"

definition RoleRepository_Delete :: "string \<Rightarrow> Role table \<Rightarrow> Role table res" where
  "RoleRepository_Delete name r = table_delete role_not_found name r"

definition RoleRepository_Clear :: "Role table \<Rightarrow> Role table" where
  "RoleRepository_Clear r = []"

section \<open>PKI, database and SSH roles\<close>

definition PKIRoleRepository_Save :: "PKIRole \<Rightarrow> PKIRole table \<Rightarrow> PKIRole table res" where
  "PKIRoleRepository_Save role r =
     (case PKIRole_Validate role of
        Inl err \<Rightarrow> Inl (Wrap ErrCodeValidation ''invalid pki role'' err)
      | Inr stored \<Rightarrow> Inr (AList.update (pkr_Name stored) stored r))"

definition PKIRoleRepository_Get :: "string \<Rightarrow> PKIRole table \<Rightarrow> PKIRole res" where
  "PKIRoleRepository_Get name r = table_get (New ErrCodeNotFound ''pki role not found'') name r"

definition PKIRoleRepository_List :: "PKIRole table \<Rightarrow> PKIRole list" where
  "PKIRoleRepository_List r = sort_key pkr_Name (map snd r)"

definition PKIRoleRepository_Clear :: "PKIRole table \<Rightarrow> PKIRole table" where
  "PKIRoleRepository_Clear r = []"

definition db_role_not_found :: error where "db_role_not_found = New ErrCodeNotFound ''database role not found''"

definition DatabaseRoleRepository_Save :: "(string \<Rightarrow> bool) \<Rightarrow> DatabaseRole \<Rightarrow> DatabaseRole table \<Rightarrow> DatabaseRole table res" where
  "DatabaseRoleRepository_Save up role r =
     (case DatabaseRole_Validate up role of
        Inl err \<Rightarrow> Inl (Wrap ErrCodeValidation ''invalid database role'' err)
      | Inr stored \<Rightarrow> Inr (AList.update (db_Name stored) stored r))"

definition DatabaseRoleRepository_Get :: "string \<Rightarrow> DatabaseRole table \<Rightarrow> DatabaseRole res" where
  "DatabaseRoleRepository_Get name r = table_get db_role_not_found name r"

definition DatabaseRoleRepository_List :: "DatabaseRole table \<Rightarrow> DatabaseRole list" where
  "DatabaseRoleRepository_List r = sort_key db_Name (map snd r)"

definition DatabaseRoleRepository_Delete :: "string \<Rightarrow> DatabaseRole table \<Rightarrow> DatabaseRole table res" where
  "DatabaseRoleRepository_Delete name r = table_delete db_role_not_found name r"

definition DatabaseRoleRepository_Clear :: "DatabaseRole table \<Rightarrow> DatabaseRole table" where
  "DatabaseRoleRepository_Clear r = []"

definition ssh_role_not_found :: error where "ssh_role_not_found = New ErrCodeNotFound ''ssh role not found''"

definition SSHRoleRepository_Save :: "SSHRole \<Rightarrow> SSHRole table \<Rightarrow> SSHRole table res" where
  "SSHRoleRepository_Save role r =
     (case SSHRole_Validate role of
        Inl err \<Rightarrow> Inl (Wrap ErrCodeValidation ''invalid ssh role'' err)
      | Inr stored \<Rightarrow> Inr (AList.update (sh_Name stored) stored r))"

definition SSHRoleRepository_Get :: "string \<Rightarrow> SSHRole table \<Rightarrow> SSHRole res" where
  "SSHRoleRepository_Get name r = table_get ssh_role_not_found name r"

definition SSHRoleRepository_List :: "SSHRole table \<Rightarrow> SSHRole list" where
  "SSHRoleRepository_List r = sort_key sh_Name (map snd r)"

definition SSHRoleRepository_Delete :: "string \<Rightarrow> SSHRole table \<Rightarrow> SSHRole table res" where
  "SSHRoleRepository_Delete name r = table_delete ssh_role_not_found name r"

definition SSHRoleRepository_Clear :: "SSHRole table \<Rightarrow> SSHRole table" where
  "SSHRoleRepository_Clear r = []"

section \<open>Issued certificates and revocations\<close>

definition certKey :: "uuid \<Rightarrow> string \<Rightarrow> string" where
  "certKey caID serial = caID @ '':'' @ serial"

definition cert_key_of :: "IssuedCertificate \<Rightarrow> string" where
  "cert_key_of c = certKey (ic_CAID c) (ic_Serial c)"

definition IssuedCertRepository_Save :: "IssuedCertificate \<Rightarrow> IssuedCertificate table \<Rightarrow> IssuedCertificate table res" where
  "IssuedCertRepository_Save cert r =
     (case IssuedCertificate_Validate cert of
        Some err \<Rightarrow> Inl (Wrap ErrCodeValidation ''invalid issued certificate'' err)
      | None \<Rightarrow> Inr (AList.update (certKey (ic_CAID cert) (ic_Serial cert)) cert r))"

definition IssuedCertRepository_GetBySerial :: "uuid \<Rightarrow> string \<Rightarrow> IssuedCertificate table \<Rightarrow> IssuedCertificate res" where
  "IssuedCertRepository_GetBySerial caID serial r =
     table_get (New ErrCodeNotFound ''issued certificate not found'') (certKey caID serial) r"

definition IssuedCertRepository_List :: "IssuedCertificate table \<Rightarrow> IssuedCertificate list" where
  "IssuedCertRepository_List r = sort_key (\<lambda>c. (ic_CAID c, ic_Serial c)) (map snd r)"

definition IssuedCertRepository_ListExpiring :: "go_time \<Rightarrow> int \<Rightarrow> IssuedCertificate table \<Rightarrow> IssuedCertificate list" where
  "IssuedCertRepository_ListExpiring before limit r =
     limited limit (sort_key ic_ExpiresAt (filter (\<lambda>c. ic_AutoRenew c \<and> \<not> before < ic_ExpiresAt c) (map snd r)))"

definition IssuedCertRepository_Clear :: "IssuedCertificate table \<Rightarrow> IssuedCertificate table" where
  "IssuedCertRepository_Clear r = []"

record RevokedCertificate =
  rcert_Serial :: string
  rcert_CAID :: uuid
  rcert_RevokedAt :: go_time
  rcert_Reason :: string

text \<open>The serials and the lists per authority.\<close>

record revocations =
  rv_serial :: "RevokedCertificate table"
  rv_byCA :: "RevokedCertificate list table"

definition NewRevocationRepository :: revocations where
  "NewRevocationRepository = \<lparr>rv_serial = [], rv_byCA = []\<rparr>"

definition revoked_of :: "uuid \<Rightarrow> revocations \<Rightarrow> RevokedCertificate list" where
  "revoked_of caID r = (case map_of (rv_byCA r) caID of None \<Rightarrow> [] | Some l \<Rightarrow> l)"

definition RevocationRepository_Revoke :: "RevokedCertificate \<Rightarrow> revocations \<Rightarrow> revocations res" where
  "RevocationRepository_Revoke cert r =
     (if map_of (rv_serial r) (rcert_Serial cert) \<noteq> None then Inr r
      else Inr \<lparr>rv_serial = AList.update (rcert_Serial cert) cert (rv_serial r),
                rv_byCA = AList.update (rcert_CAID cert) (revoked_of (rcert_CAID cert) r @ [cert]) (rv_byCA r)\<rparr>)"

definition RevocationRepository_IsRevoked :: "string \<Rightarrow> revocations \<Rightarrow> bool res" where
  "RevocationRepository_IsRevoked serial r = Inr (map_of (rv_serial r) serial \<noteq> None)"

definition RevocationRepository_ListByCA :: "uuid \<Rightarrow> revocations \<Rightarrow> RevokedCertificate list" where
  "RevocationRepository_ListByCA caID r = revoked_of caID r"

definition RevocationRepository_Clear :: "revocations \<Rightarrow> revocations" where
  "RevocationRepository_Clear r = \<lparr>rv_serial = [], rv_byCA = []\<rparr>"

section \<open>Leases\<close>

definition lease_not_found :: error where "lease_not_found = New ErrCodeNotFound ''lease not found''"

definition LeaseRepository_Save :: "Lease \<Rightarrow> Lease table \<Rightarrow> Lease table res" where
  "LeaseRepository_Save lease r =
     (case Lease_Validate lease of
        Some err \<Rightarrow> Inl (Wrap ErrCodeValidation ''invalid lease'' err)
      | None \<Rightarrow> Inr (AList.update (le_ID lease) lease r))"

definition LeaseRepository_Get :: "string \<Rightarrow> Lease table \<Rightarrow> Lease res" where
  "LeaseRepository_Get i r = table_get lease_not_found i r"

definition LeaseRepository_List :: "Lease table \<Rightarrow> Lease list" where
  "LeaseRepository_List r = sort_key le_ID (map snd r)"

definition LeaseRepository_ListExpired :: "go_time \<Rightarrow> int \<Rightarrow> Lease table \<Rightarrow> Lease list" where
  "LeaseRepository_ListExpired before limit r =
     limited limit (sort_key le_ExpiresAt (filter (\<lambda>l. le_RevokedAt l = None \<and> \<not> before < le_ExpiresAt l) (map snd r)))"

definition LeaseRepository_CountActive :: "go_time \<Rightarrow> Lease table \<Rightarrow> int res" where
  "LeaseRepository_CountActive now r = Inr (int (length (filter (\<lambda>l. Lease_Active l now) (map snd r))))"

definition LeaseRepository_Revoke :: "string \<Rightarrow> go_time \<Rightarrow> Lease table \<Rightarrow> Lease table res" where
  "LeaseRepository_Revoke i revokedAt r =
     (case map_of r i of
        None \<Rightarrow> Inl lease_not_found
      | Some lease \<Rightarrow> Inr (AList.update i (lease\<lparr>le_RevokedAt := Some revokedAt\<rparr>) r))"

definition LeaseRepository_Clear :: "Lease table \<Rightarrow> Lease table" where
  "LeaseRepository_Clear r = []"

section \<open>Machine identities and rotation policies\<close>

definition identity_not_found :: error where "identity_not_found = New ErrCodeNotFound ''machine identity not found''"

definition MachineIdentity_Validate :: "MachineIdentity \<Rightarrow> error option" where
  "MachineIdentity_Validate m =
     (if mi_ID m = [] then Some (Plain ''machine identity id is required'')
      else if mi_Type m = [] then Some (Plain ''machine identity type is required'')
      else if \<not> List.member [''k8s_sa'', ''oidc'', ''api_key'', ''agent''] (mi_Type m)
      then Some (Plain ''invalid machine identity type %q'')
      else None)"

definition MachineIdentityRepository_Save :: "MachineIdentity \<Rightarrow> MachineIdentity table \<Rightarrow> MachineIdentity table res" where
  "MachineIdentityRepository_Save m r =
     (case MachineIdentity_Validate m of
        Some err \<Rightarrow> Inl (Wrap ErrCodeValidation ''invalid machine identity'' err)
      | None \<Rightarrow> Inr (AList.update (mi_ID m) m r))"

definition MachineIdentityRepository_Get :: "string \<Rightarrow> MachineIdentity table \<Rightarrow> MachineIdentity res" where
  "MachineIdentityRepository_Get i r = table_get identity_not_found i r"

definition MachineIdentityRepository_List :: "MachineIdentity table \<Rightarrow> MachineIdentity list" where
  "MachineIdentityRepository_List r = sort_key mi_ID (map snd r)"

definition MachineIdentityRepository_Revoke :: "string \<Rightarrow> MachineIdentity table \<Rightarrow> MachineIdentity table res" where
  "MachineIdentityRepository_Revoke i r =
     (case map_of r i of
        None \<Rightarrow> Inl identity_not_found
      | Some rec \<Rightarrow> Inr (AList.update i (rec\<lparr>mi_Revoked := True\<rparr>) r))"

definition rotation_not_found :: error where "rotation_not_found = New ErrCodeNotFound ''rotation policy not found''"

definition RotationPolicyRepository_Save :: "RotationPolicy \<Rightarrow> RotationPolicy table \<Rightarrow> RotationPolicy table res" where
  "RotationPolicyRepository_Save pol r =
     (case RotationPolicy_Validate pol of
        Some err \<Rightarrow> Inl (Wrap ErrCodeValidation ''invalid rotation policy'' err)
      | None \<Rightarrow> Inr (AList.update (rot_Path pol) pol r))"

definition RotationPolicyRepository_Get :: "string \<Rightarrow> RotationPolicy table \<Rightarrow> RotationPolicy res" where
  "RotationPolicyRepository_Get path r = table_get rotation_not_found path r"

definition RotationPolicyRepository_List :: "RotationPolicy table \<Rightarrow> RotationPolicy list" where
  "RotationPolicyRepository_List r = sort_key rot_Path (map snd r)"

definition RotationPolicyRepository_Delete :: "string \<Rightarrow> RotationPolicy table \<Rightarrow> RotationPolicy table res" where
  "RotationPolicyRepository_Delete path r = table_delete rotation_not_found path r"

section \<open>Clearing the earlier repositories\<close>

definition SecretRepository_Clear :: "secret_store \<Rightarrow> secret_store" where
  "SecretRepository_Clear r = []"

definition AuditRepository_Clear :: "audit_log \<Rightarrow> audit_log" where
  "AuditRepository_Clear r = ([], 1)"

section \<open>The common contract\<close>

text \<open>
  A repository keyed by a field: \<open>prep\<close> is the validation with its defaults, the record it returns
  is what is stored; \<open>valid\<close> is what holds of every stored record.
\<close>

definition table_ok :: "('v \<Rightarrow> string) \<Rightarrow> ('v \<Rightarrow> bool) \<Rightarrow> 'v table \<Rightarrow> bool" where
  "table_ok key valid t \<longleftrightarrow> distinct (map fst t) \<and> (\<forall>(k, v) \<in> set t. k = key v \<and> valid v)"

text \<open>Saving the records of a list in turn, up to the first error.\<close>

fun save_all :: "('v \<Rightarrow> 't \<Rightarrow> 't res) \<Rightarrow> 'v list \<Rightarrow> 't \<Rightarrow> error option \<times> 't" where
  "save_all save [] t = (None, t)"
| "save_all save (v # vs) t = (case save v t of Inl err \<Rightarrow> (Some err, t) | Inr t' \<Rightarrow> save_all save vs t')"

lemma save_all_append:
  "save_all save (xs @ ys) t =
     (case save_all save xs t of (Some err, t') \<Rightarrow> (Some err, t') | (None, t') \<Rightarrow> save_all save ys t')"
  by (induction xs arbitrary: t) (auto split: sum.splits)

locale keyed_repository =
  fixes key :: "'v \<Rightarrow> string"
    and valid :: "'v \<Rightarrow> bool"
    and prep :: "'v \<Rightarrow> 'v res"
    and Save :: "'v \<Rightarrow> 'v table \<Rightarrow> 'v table res"
    and Lst :: "'v table \<Rightarrow> 'v list"
  assumes prep_valid: "prep v = Inr w \<Longrightarrow> valid w \<and> key w = key v"
    and Save_ok: "prep v = Inr w \<Longrightarrow> Save v t = Inr (AList.update (key w) w t)"
    and Save_err: "prep v = Inl e \<Longrightarrow> \<exists>e'. Save v t = Inl e'"
    and Lst_mset: "mset (Lst t) = mset (map snd t)"
begin

lemma table_ok_update: "table_ok key valid t \<Longrightarrow> valid v \<Longrightarrow> table_ok key valid (AList.update (key v) v t)"
  using set_update_subset [of "key v" v t] by (fastforce simp: table_ok_def distinct_update)

lemma table_ok_delete: "table_ok key valid t \<Longrightarrow> table_ok key valid (AList.delete k t)"
  unfolding table_ok_def by (intro conjI distinct_delete) (auto simp: AList.delete_eq)

lemma table_ok_lookup: "table_ok key valid t \<Longrightarrow> map_of t k = Some v \<Longrightarrow> key v = k \<and> valid v"
  by (auto simp: table_ok_def dest!: map_of_SomeD)

lemma table_ok_key: "table_ok key valid t \<Longrightarrow> (k, v) \<in> set t \<Longrightarrow> k = key v"
  by (auto simp: table_ok_def)

lemma Save_Inr: "Save v t = Inr t' \<longleftrightarrow> (\<exists>w. prep v = Inr w \<and> t' = AList.update (key w) w t)"
proof (cases "prep v")
  case (Inl e)
  then obtain e' where "Save v t = Inl e'" using Save_err by blast
  then show ?thesis using Inl by simp
next
  case (Inr w)
  then show ?thesis using Save_ok [OF Inr] by auto
qed

lemma Save_table_ok: "table_ok key valid t \<Longrightarrow> Save v t = Inr t' \<Longrightarrow> table_ok key valid t'"
  using prep_valid table_ok_update by (auto simp: Save_Inr)

lemma Save_lookup: "Save v t = Inr t' \<Longrightarrow> map_of t' k = (if k = key v then (case prep v of Inr w \<Rightarrow> Some w | Inl _ \<Rightarrow> None) else map_of t k)"
  using prep_valid by (auto simp: Save_Inr update_conv)

lemma Lst_set: "set (Lst t) = snd ` set t"
  by (metis Lst_mset set_map set_mset_mset)

lemma Lst_distinct: "table_ok key valid t \<Longrightarrow> distinct (map key (Lst t))"
proof -
  assume ok: "table_ok key valid t"
  then have m: "map key (map snd t) = map fst t" by (auto simp: table_ok_def)
  then have "distinct (map key (map snd t))" unfolding m using ok by (simp add: table_ok_def)
  moreover have "mset (map key (Lst t)) = mset (map key (map snd t))" using Lst_mset [of t] by (metis mset_map)
  ultimately show ?thesis by (metis mset_eq_imp_distinct_iff)
qed

text \<open>Restoring converted records into a table: the result holds what the validation makes of them.\<close>

lemma save_all_lookup:
  assumes "\<forall>v \<in> set vs. prep (conv v) = Inr (proj v) \<and> key (conv v) = key v" "distinct (map key vs)" "table_ok key valid t"
  shows "\<exists>t'. save_all Save (map conv vs) t = (None, t') \<and> table_ok key valid t' \<and>
    map_of t' = map_of t ++ map_of (map (\<lambda>v. (key v, proj v)) vs)"
  using assms
proof (induction vs arbitrary: t)
  case (Cons v vs)
  then have p: "prep (conv v) = Inr (proj v)" "key (conv v) = key v" by auto
  then have k: "key (proj v) = key v" using prep_valid [OF p(1)] by simp
  let ?t = "AList.update (key (proj v)) (proj v) t"
  have s: "Save (conv v) t = Inr ?t" using Save_ok [OF p(1)] .
  then have "table_ok key valid ?t" using Save_table_ok Cons.prems(3) by blast
  then obtain t' where t': "save_all Save (map conv vs) ?t = (None, t')" "table_ok key valid t'"
    "map_of t' = map_of ?t ++ map_of (map (\<lambda>v. (key v, proj v)) vs)"
    using Cons.IH [of ?t] Cons.prems by auto
  have "key v \<notin> dom (map_of (map (\<lambda>v. (key v, proj v)) vs))"
    using Cons.prems(2) by (simp add: dom_map_of_conv_image_fst image_image)
  then have "map_of t' = map_of t ++ map_of (map (\<lambda>v. (key v, proj v)) (v # vs))"
    unfolding t'(3) k update_conv' by (simp add: map_add_upd_left)
  moreover have "save_all Save (map conv (v # vs)) t = (None, t')" using s t'(1) by simp
  ultimately show ?case using t'(2) by blast
qed simp

theorem restore_table:
  assumes "table_ok key valid t"
    and "\<And>v. v \<in> snd ` set t \<Longrightarrow> prep (conv v) = Inr (proj v) \<and> key (conv v) = key v"
  shows "\<exists>t'. save_all Save (map conv (Lst t)) [] = (None, t') \<and> table_ok key valid t' \<and> map_of t' = map_option proj \<circ> map_of t"
proof -
  have e: "table_ok key valid []" by (simp add: table_ok_def)
  have c: "\<forall>v \<in> set (Lst t). prep (conv v) = Inr (proj v) \<and> key (conv v) = key v"
    using assms(2) unfolding Lst_set by blast
  obtain t' where t': "save_all Save (map conv (Lst t)) [] = (None, t')" "table_ok key valid t'"
    "map_of t' = Map.empty ++ map_of (map (\<lambda>v. (key v, proj v)) (Lst t))"
    using save_all_lookup [OF c Lst_distinct [OF assms(1)] e] by (auto simp only: map_of.simps)
  have d: "distinct (map fst (map (\<lambda>v. (key v, proj v)) (Lst t)))"
    using Lst_distinct [OF assms(1)] by (simp add: comp_def)
  have "map_of (map (\<lambda>v. (key v, proj v)) (Lst t)) k = map_option proj (map_of t k)" for k
  proof (cases "map_of t k")
    case None
    have "k \<noteq> key v" if "v \<in> set (Lst t)" for v
      using that None table_ok_key [OF assms(1)] unfolding Lst_set map_of_eq_None_iff by force
    then have "map_of (map (\<lambda>v. (key v, proj v)) (Lst t)) k = None" unfolding map_of_eq_None_iff by fastforce
    then show ?thesis using None by simp
  next
    case (Some v)
    then have "(k, v) \<in> set t" "key v = k" using table_ok_lookup [OF assms(1)] map_of_SomeD by fast+
    then have "(k, proj v) \<in> set (map (\<lambda>v. (key v, proj v)) (Lst t))" using Lst_set by force
    then show ?thesis unfolding Some using map_of_is_SomeI [OF d] by simp
  qed
  then have "map_of t' = map_option proj \<circ> map_of t" unfolding t'(3) by (intro ext) simp
  then show ?thesis using t'(1,2) by blast
qed

end

section \<open>The repositories keep the contract\<close>

definition optional :: "('v \<Rightarrow> error option) \<Rightarrow> 'v \<Rightarrow> 'v res" where
  "optional validate v = (case validate v of None \<Rightarrow> Inr v | Some e \<Rightarrow> Inl e)"

lemma optional_Inr [simp]: "optional validate v = Inr w \<longleftrightarrow> validate v = None \<and> w = v"
  by (auto simp: optional_def split: option.splits)

lemma optional_Inl [simp]: "optional validate v = Inl e \<longleftrightarrow> validate v = Some e"
  by (auto simp: optional_def split: option.splits)

definition Policy_prep :: "uuid \<Rightarrow> Policy \<Rightarrow> Policy res" where
  "Policy_prep new p = (case Policy_Validate p of Inl e \<Rightarrow> Inl e | Inr _ \<Rightarrow> Inr (with_id new p))"

lemma Policy_Validate_with_id [simp]: "Policy_Validate (with_id new p) = Policy_Validate p"
  by (simp add: Policy_Validate_def with_id_def)

lemma pol_Name_with_id [simp]: "pol_Name (with_id new p) = pol_Name p"
  by (simp add: with_id_def)

interpretation policy_table: keyed_repository pol_Name "\<lambda>p. Policy_Validate p = Inr ()" "Policy_prep new"
  "PolicyRepository_Save new" PolicyRepository_List
  by unfold_locales (auto simp: Policy_prep_def PolicyRepository_Save_def PolicyRepository_List_def split: sum.splits)

interpretation role_tbl: keyed_repository role_Name "\<lambda>r. Role_Validate r = None" "optional (map_option Plain \<circ> Role_Validate)"
  RoleRepository_Save RoleRepository_List
  by unfold_locales (auto simp: RoleRepository_Save_def RoleRepository_List_def)

interpretation pki_role_table: keyed_repository pkr_Name "\<lambda>r. PKIRole_Validate r = Inr r" PKIRole_Validate
  PKIRoleRepository_Save PKIRoleRepository_List
  using PKIRole_Validate_idem
  by unfold_locales (auto simp: PKIRoleRepository_Save_def PKIRoleRepository_List_def)

interpretation db_role_table: keyed_repository db_Name "\<lambda>r. DatabaseRole_Validate up r = Inr r" "DatabaseRole_Validate up"
  "DatabaseRoleRepository_Save up" DatabaseRoleRepository_List
  using DatabaseRole_Validate_idem
  by unfold_locales (auto simp: DatabaseRoleRepository_Save_def DatabaseRoleRepository_List_def)

interpretation ssh_role_table: keyed_repository sh_Name "\<lambda>r. SSHRole_Validate r = Inr r" SSHRole_Validate
  SSHRoleRepository_Save SSHRoleRepository_List
  using SSHRole_Validate_idem
  by unfold_locales (auto simp: SSHRoleRepository_Save_def SSHRoleRepository_List_def)

interpretation issued_table: keyed_repository cert_key_of "\<lambda>c. IssuedCertificate_Validate c = None"
  "optional IssuedCertificate_Validate" IssuedCertRepository_Save IssuedCertRepository_List
  by unfold_locales (auto simp: IssuedCertRepository_Save_def IssuedCertRepository_List_def cert_key_of_def)

interpretation lease_table: keyed_repository le_ID "\<lambda>l. Lease_Validate l = None" "optional Lease_Validate"
  LeaseRepository_Save LeaseRepository_List
  by unfold_locales (auto simp: LeaseRepository_Save_def LeaseRepository_List_def)

interpretation token_tbl: keyed_repository ct_ID "\<lambda>t. ct_ID t \<noteq> []"
  "\<lambda>t. if ct_ID t = [] then Inl (Plain ''token id is required'') else Inr t" TokenRepository_Save TokenRepository_List
  by unfold_locales (auto simp: TokenRepository_Save_def TokenRepository_List_def split: if_splits)

interpretation machine_table: keyed_repository mi_ID "\<lambda>m. MachineIdentity_Validate m = None" "optional MachineIdentity_Validate"
  MachineIdentityRepository_Save MachineIdentityRepository_List
  by unfold_locales (auto simp: MachineIdentityRepository_Save_def MachineIdentityRepository_List_def)

interpretation rotation_table: keyed_repository rot_Path "\<lambda>p. RotationPolicy_Validate p = None" "optional RotationPolicy_Validate"
  RotationPolicyRepository_Save RotationPolicyRepository_List
  by unfold_locales (auto simp: RotationPolicyRepository_Save_def RotationPolicyRepository_List_def)

end
