(* ===== verification/Backup.thy ===== *)
theory Backup
  imports Repos Crypto
begin

text \<open>
  Snapshots of the vault state, \<^verbatim>\<open>internal/backup\<close>: the portable records (snapshot.go), their
  conversion from and to the domain records (convert.go), export, validation, restore and clearing
  (export.go, import.go, clear.go) and the sealed archive (archive.go). The repositories are the
  in-memory ones, whose lists do not fail; \<open>None\<close> is a nil repository. The encoding of the snapshot as
  JSON is an argument where bytes are needed.
\<close>

section \<open>Portable records\<close>

record TokenRecord =
  tor_ID :: string
  tor_Subject :: string
  tor_Policies :: "string list"
  tor_ExpiresAt :: go_time
  tor_Renewable :: bool
  tor_Revoked :: bool

record CARecord =
  car_ID :: uuid
  car_ParentID :: "uuid option"
  car_Name :: string
  car_Type :: string
  car_CommonName :: string
  car_Serial :: string
  car_CertPEM :: string
  car_PrivateKeyEnc :: bytes
  car_DEKEnc :: bytes
  car_Status :: string
  car_CreatedAt :: go_time
  car_ExpiresAt :: go_time
  car_CRLNextUpdate :: "go_time option"

record SecretRecord =
  ser_ID :: uuid
  ser_Path :: string
  ser_Version :: int
  ser_DataEnc :: bytes
  ser_DEKEnc :: bytes
  ser_LeaseID :: "string option"
  ser_TTLSeconds :: "int option"
  ser_CreatedAt :: go_time
  ser_ExpiresAt :: "go_time option"
  ser_Destroyed :: bool

record RevokedRecord =
  rvr_Serial :: string
  rvr_CAID :: uuid
  rvr_RevokedAt :: go_time
  rvr_Reason :: string

record PolicyRecord =
  por_Name :: string
  por_Effect :: string
  por_Resources :: "string list"
  por_Actions :: "string list"
  por_Conditions :: "string \<rightharpoonup> any"

record RoleRecord =
  ror_Name :: string
  ror_Policies :: "string list"
  ror_BoundServiceAccountNames :: "string list"
  ror_BoundServiceAccountNamespaces :: "string list"

record PKIRoleRecord =
  pkrr_Name :: string
  pkrr_CAName :: string
  pkrr_AllowedDomains :: "string list"
  pkrr_MaxTTLSeconds :: int
  pkrr_KeyUsage :: string
  pkrr_AllowSubdomains :: bool

record SSHRoleRecord =
  shr_Name :: string
  shr_TTLSeconds :: int
  shr_CAKeyPath :: string
  shr_AllowedUsers :: "string list"
  shr_DefaultUser :: string
  shr_KeyType :: string
  shr_Extensions :: "(string \<times> string) list option"

record DatabaseRoleRecord =
  dbr_Name :: string
  dbr_TTLSeconds :: int
  dbr_UsernamePrefix :: string
  dbr_DefaultUsername :: string
  dbr_CreationStatements :: "string list"
  dbr_RevocationStatements :: "string list"
  dbr_ExecutionMode :: string
  dbr_AdminCredentialsPath :: string
  dbr_Config :: "any_map option"

record LeaseRecord =
  ler_ID :: string
  ler_Path :: string
  ler_RoleName :: string
  ler_Engine :: string
  ler_TTLSeconds :: int
  ler_CreatedAt :: go_time
  ler_ExpiresAt :: go_time
  ler_RevokedAt :: "go_time option"
  ler_Renewable :: bool

record IssuedCertRecord =
  icr_ID :: uuid
  icr_CAID :: uuid
  icr_Role :: string
  icr_Serial :: string
  icr_CommonName :: string
  icr_DNSNames :: "string list"
  icr_TTLSeconds :: int
  icr_IssuedAt :: go_time
  icr_ExpiresAt :: go_time
  icr_AutoRenew :: bool
  icr_RenewedFromSerial :: "string option"

record AuditRecord =
  aur_Timestamp :: go_time
  aur_Actor :: string
  aur_Action :: string
  aur_Resource :: string
  aur_Status :: string
  aur_Details :: "any_map option"
  aur_Hash :: string

record Snapshot =
  sn_Version :: int
  sn_CreatedAt :: go_time
  sn_CAs :: "CARecord list"
  sn_Secrets :: "SecretRecord list"
  sn_Revoked :: "RevokedRecord list"
  sn_Policies :: "PolicyRecord list"
  sn_Roles :: "RoleRecord list"
  sn_PKIRoles :: "PKIRoleRecord list"
  sn_DBRoles :: "DatabaseRoleRecord list"
  sn_SSHRoles :: "SSHRoleRecord list"
  sn_Leases :: "LeaseRecord list"
  sn_Issued :: "IssuedCertRecord list"
  sn_Audit :: "AuditRecord list"
  sn_Tokens :: "TokenRecord list"

definition formatVersion :: int where "formatVersion = 1"

record Repos =
  rp_CA :: "CA table option"
  rp_Secret :: "secret_store option"
  rp_Audit :: "audit_log option"
  rp_Revoke :: "revocations option"
  rp_Lease :: "Lease table option"
  rp_Policy :: "Policy table option"
  rp_Role :: "Role table option"
  rp_PKIRole :: "PKIRole table option"
  rp_DBRole :: "DatabaseRole table option"
  rp_SSHRole :: "SSHRole table option"
  rp_IssuedCert :: "IssuedCertificate table option"
  rp_Token :: "token_table option"

section \<open>Conversions\<close>

definition caFromDomain :: "CA \<Rightarrow> CARecord" where
  "caFromDomain ca = \<lparr>
     car_ID = ca_ID ca, car_ParentID = ca_ParentID ca, car_Name = ca_Name ca, car_Type = ca_Type ca,
     car_CommonName = ca_CommonName ca, car_Serial = ca_Serial ca, car_CertPEM = ca_CertPEM ca,
     car_PrivateKeyEnc = ca_PrivateKeyEnc ca, car_DEKEnc = ca_DEKEnc ca, car_Status = ca_Status ca,
     car_CreatedAt = ca_CreatedAt ca, car_ExpiresAt = ca_ExpiresAt ca, car_CRLNextUpdate = ca_CRLNextUpdate ca\<rparr>"

definition caToDomain :: "CARecord \<Rightarrow> CA" where
  "caToDomain r = \<lparr>
     ca_ID = car_ID r, ca_ParentID = car_ParentID r, ca_Name = car_Name r, ca_Type = car_Type r,
     ca_CommonName = car_CommonName r, ca_Organization = [], ca_OrganizationalUnit = [], ca_Country = [],
     ca_Serial = car_Serial r, ca_CertPEM = car_CertPEM r, ca_PrivateKeyEnc = car_PrivateKeyEnc r,
     ca_DEKEnc = car_DEKEnc r, ca_Status = car_Status r, ca_CreatedAt = car_CreatedAt r,
     ca_ExpiresAt = car_ExpiresAt r, ca_CRLNextUpdate = car_CRLNextUpdate r\<rparr>"

definition secretFromDomain :: "SecretVersion \<Rightarrow> SecretRecord" where
  "secretFromDomain sv = \<lparr>
     ser_ID = sv_ID sv, ser_Path = sv_Path sv, ser_Version = sv_Version sv, ser_DataEnc = sv_DataEnc sv,
     ser_DEKEnc = sv_DEKEnc sv, ser_LeaseID = sv_LeaseID sv, ser_TTLSeconds = sv_TTLSeconds sv,
     ser_CreatedAt = sv_CreatedAt sv, ser_ExpiresAt = sv_ExpiresAt sv, ser_Destroyed = sv_Destroyed sv\<rparr>"

definition secretToDomain :: "SecretRecord \<Rightarrow> SecretVersion" where
  "secretToDomain r = \<lparr>
     sv_ID = ser_ID r, sv_Path = ser_Path r, sv_Version = ser_Version r, sv_DataEnc = ser_DataEnc r,
     sv_DEKEnc = ser_DEKEnc r, sv_LeaseID = ser_LeaseID r, sv_TTLSeconds = ser_TTLSeconds r,
     sv_CreatedAt = ser_CreatedAt r, sv_ExpiresAt = ser_ExpiresAt r, sv_Destroyed = ser_Destroyed r,
     sv_Labels = Map.empty\<rparr>"

definition pkiRoleFromDomain :: "PKIRole \<Rightarrow> PKIRoleRecord" where
  "pkiRoleFromDomain role = \<lparr>
     pkrr_Name = pkr_Name role, pkrr_CAName = pkr_CAName role, pkrr_AllowedDomains = pkr_AllowedDomains role,
     pkrr_MaxTTLSeconds = pkr_MaxTTLSeconds role, pkrr_KeyUsage = pkr_KeyUsage role,
     pkrr_AllowSubdomains = pkr_AllowSubdomains role\<rparr>"

definition pkiRoleToDomain :: "PKIRoleRecord \<Rightarrow> PKIRole" where
  "pkiRoleToDomain r = \<lparr>
     pkr_Name = pkrr_Name r, pkr_CAName = pkrr_CAName r, pkr_AllowedDomains = pkrr_AllowedDomains r,
     pkr_MaxTTLSeconds = pkrr_MaxTTLSeconds r, pkr_KeyUsage = pkrr_KeyUsage r,
     pkr_AllowSubdomains = pkrr_AllowSubdomains r\<rparr>"

definition auditFromDomain :: "Entry \<Rightarrow> AuditRecord" where
  "auditFromDomain e = \<lparr>
     aur_Timestamp = ae_Timestamp e, aur_Actor = ae_Actor e, aur_Action = ae_Action e, aur_Resource = ae_Resource e,
     aur_Status = ae_Status e, aur_Details = ae_Details e, aur_Hash = ae_Hash e\<rparr>"

definition auditToDomain :: "AuditRecord \<Rightarrow> Entry" where
  "auditToDomain r = \<lparr>
     ae_ID = 0, ae_Timestamp = aur_Timestamp r, ae_Actor = aur_Actor r, ae_Action = aur_Action r,
     ae_Resource = aur_Resource r, ae_Status = aur_Status r, ae_Details = aur_Details r, ae_Hash = aur_Hash r,
     ae_Signature = [], ae_AuthMethod = [], ae_SourceIP = [], ae_ClientIdentity = [], ae_FailureReason = [],
     ae_RequestID = [], ae_Namespace = []\<rparr>"

definition sshRoleFromDomain :: "SSHRole \<Rightarrow> SSHRoleRecord" where
  "sshRoleFromDomain role0 =
     (let role = NormalizeSSHRole role0
      in \<lparr>shr_Name = sh_Name role, shr_TTLSeconds = sh_TTLSeconds role, shr_CAKeyPath = sh_CAKeyPath role,
          shr_AllowedUsers = sh_AllowedUsers role, shr_DefaultUser = sh_DefaultUser role,
          shr_KeyType = sh_KeyType role, shr_Extensions = sh_Extensions role\<rparr>)"

definition sshRoleToDomain :: "SSHRoleRecord \<Rightarrow> SSHRole" where
  "sshRoleToDomain r = NormalizeSSHRole \<lparr>
     sh_Name = shr_Name r, sh_TTLSeconds = shr_TTLSeconds r, sh_DefaultTTL = 0, sh_MaxTTL = 0, sh_Period = 0,
     sh_Renewable = False, sh_MaxLeases = 0, sh_CAKeyPath = shr_CAKeyPath r, sh_AllowedUsers = shr_AllowedUsers r,
     sh_DefaultUser = shr_DefaultUser r, sh_KeyType = shr_KeyType r, sh_Extensions = shr_Extensions r,
     sh_CreatedAt = 0, sh_UpdatedAt = 0\<rparr>"

definition databaseRoleFromDomain :: "DatabaseRole \<Rightarrow> DatabaseRoleRecord" where
  "databaseRoleFromDomain role0 =
     (let role = NormalizeDatabaseRole role0
      in \<lparr>dbr_Name = db_Name role, dbr_TTLSeconds = db_TTLSeconds role, dbr_UsernamePrefix = db_UsernamePrefix role,
          dbr_DefaultUsername = db_DefaultUsername role, dbr_CreationStatements = db_CreationStatements role,
          dbr_RevocationStatements = db_RevocationStatements role, dbr_ExecutionMode = db_ExecutionMode role,
          dbr_AdminCredentialsPath = db_AdminCredentialsPath role, dbr_Config = db_Config role\<rparr>)"

definition databaseRoleToDomain :: "DatabaseRoleRecord \<Rightarrow> DatabaseRole" where
  "databaseRoleToDomain r = NormalizeDatabaseRole \<lparr>
     db_Name = dbr_Name r, db_TTLSeconds = dbr_TTLSeconds r, db_DefaultTTL = 0, db_MaxTTL = 0, db_Period = 0,
     db_Renewable = False, db_MaxLeases = 0, db_UsernamePrefix = dbr_UsernamePrefix r,
     db_DefaultUsername = dbr_DefaultUsername r, db_CreationStatements = dbr_CreationStatements r,
     db_RevocationStatements = dbr_RevocationStatements r, db_ExecutionMode = dbr_ExecutionMode r,
     db_AdminCredentialsPath = dbr_AdminCredentialsPath r, db_Config = dbr_Config r,
     db_CreatedAt = 0, db_UpdatedAt = 0\<rparr>"

definition leaseFromDomain :: "Lease \<Rightarrow> LeaseRecord" where
  "leaseFromDomain l = \<lparr>
     ler_ID = le_ID l, ler_Path = le_Path l, ler_RoleName = le_RoleName l, ler_Engine = le_Engine l,
     ler_TTLSeconds = le_TTLSeconds l, ler_CreatedAt = le_CreatedAt l, ler_ExpiresAt = le_ExpiresAt l,
     ler_RevokedAt = le_RevokedAt l, ler_Renewable = le_Renewable l\<rparr>"

definition leaseToDomain :: "LeaseRecord \<Rightarrow> Lease" where
  "leaseToDomain r = \<lparr>
     le_ID = ler_ID r, le_Path = ler_Path r, le_RoleName = ler_RoleName r, le_Engine = ler_Engine r,
     le_TTLSeconds = ler_TTLSeconds r, le_CreatedAt = ler_CreatedAt r, le_ExpiresAt = ler_ExpiresAt r,
     le_RevokedAt = ler_RevokedAt r, le_Renewable = ler_Renewable r, le_TokenID = [], le_Metadata = []\<rparr>"

definition issuedFromDomain :: "IssuedCertificate \<Rightarrow> IssuedCertRecord" where
  "issuedFromDomain c = \<lparr>
     icr_ID = ic_ID c, icr_CAID = ic_CAID c, icr_Role = ic_Role c, icr_Serial = ic_Serial c,
     icr_CommonName = ic_CommonName c, icr_DNSNames = ic_DNSNames c, icr_TTLSeconds = ic_TTLSeconds c,
     icr_IssuedAt = ic_IssuedAt c, icr_ExpiresAt = ic_ExpiresAt c, icr_AutoRenew = ic_AutoRenew c,
     icr_RenewedFromSerial = ic_RenewedFromSerial c\<rparr>"

definition issuedToDomain :: "IssuedCertRecord \<Rightarrow> IssuedCertificate" where
  "issuedToDomain r = \<lparr>
     ic_ID = icr_ID r, ic_CAID = icr_CAID r, ic_Role = icr_Role r, ic_Serial = icr_Serial r,
     ic_CommonName = icr_CommonName r, ic_DNSNames = icr_DNSNames r, ic_TTLSeconds = icr_TTLSeconds r,
     ic_IssuedAt = icr_IssuedAt r, ic_ExpiresAt = icr_ExpiresAt r, ic_AutoRenew = icr_AutoRenew r,
     ic_RenewedFromSerial = icr_RenewedFromSerial r\<rparr>"

definition policyFromDomain :: "Policy \<Rightarrow> PolicyRecord" where
  "policyFromDomain p = \<lparr>
     por_Name = pol_Name p, por_Effect = pol_Effect p, por_Resources = pol_Resources p, por_Actions = pol_Actions p,
     por_Conditions = pol_Conditions p\<rparr>"

definition policyToDomain :: "PolicyRecord \<Rightarrow> Policy" where
  "policyToDomain r = \<lparr>
     pol_ID = uuid_Nil, pol_Name = por_Name r, pol_Effect = por_Effect r, pol_Resources = por_Resources r,
     pol_Actions = por_Actions r, pol_Capabilities = [], pol_Includes = [], pol_Conditions = por_Conditions r\<rparr>"

definition roleFromDomain :: "Role \<Rightarrow> RoleRecord" where
  "roleFromDomain r = \<lparr>
     ror_Name = role_Name r, ror_Policies = role_Policies r,
     ror_BoundServiceAccountNames = role_BoundServiceAccountNames r,
     ror_BoundServiceAccountNamespaces = role_BoundServiceAccountNamespaces r\<rparr>"

definition roleToDomain :: "RoleRecord \<Rightarrow> Role" where
  "roleToDomain r = \<lparr>
     role_Name = ror_Name r, role_Policies = ror_Policies r, role_PolicyGroups = [],
     role_BoundServiceAccountNames = ror_BoundServiceAccountNames r,
     role_BoundServiceAccountNamespaces = ror_BoundServiceAccountNamespaces r,
     role_AuthMethod = [], role_OIDC = None, role_RequireMFA = False\<rparr>"

definition tokenFromDomain :: "ClientToken \<Rightarrow> TokenRecord" where
  "tokenFromDomain t = \<lparr>
     tor_ID = ct_ID t, tor_Subject = ct_Subject t, tor_Policies = ct_Policies t, tor_ExpiresAt = ct_ExpiresAt t,
     tor_Renewable = ct_Renewable t, tor_Revoked = ct_Revoked t\<rparr>"

definition tokenToDomain :: "TokenRecord \<Rightarrow> ClientToken" where
  "tokenToDomain r = \<lparr>
     ct_ID = tor_ID r, ct_Subject = tor_Subject r, ct_Policies = tor_Policies r, ct_ExpiresAt = tor_ExpiresAt r,
     ct_Renewable = tor_Renewable r, ct_Revoked = tor_Revoked r, ct_ParentIdentityID = [], ct_AgentID = [],
     ct_AllowedActions = [], ct_PathPrefix = [], ct_MaxExpiresAt = 0\<rparr>"

definition revokedFromDomain :: "RevokedCertificate \<Rightarrow> RevokedRecord" where
  "revokedFromDomain r = \<lparr>
     rvr_Serial = rcert_Serial r, rvr_CAID = rcert_CAID r, rvr_RevokedAt = rcert_RevokedAt r, rvr_Reason = rcert_Reason r\<rparr>"

definition revokedToDomain :: "RevokedRecord \<Rightarrow> RevokedCertificate" where
  "revokedToDomain r = \<lparr>
     rcert_Serial = rvr_Serial r, rcert_CAID = rvr_CAID r, rcert_RevokedAt = rvr_RevokedAt r, rcert_Reason = rvr_Reason r\<rparr>"

section \<open>Export\<close>

record ExportOptions =
  eo_IncludeAudit :: bool
  eo_AuditLimit :: int

text \<open>The records of a repository, none when it is nil.\<close>

definition records :: "('v \<Rightarrow> 'r) \<Rightarrow> ('t \<Rightarrow> 'v list) \<Rightarrow> 't option \<Rightarrow> 'r list" where
  "records conv lst repo = (case repo of None \<Rightarrow> [] | Some t \<Rightarrow> map conv (lst t))"

definition all_secrets :: "secret_store \<Rightarrow> SecretVersion list" where
  "all_secrets r = (case ListByPath [] r of Inr l \<Rightarrow> l | Inl _ \<Rightarrow> [])"

definition export_audit :: "ExportOptions \<Rightarrow> audit_log option \<Rightarrow> AuditRecord list" where
  "export_audit opts repo =
     (case (eo_IncludeAudit opts, repo) of
        (True, Some r) \<Rightarrow>
          (let limit = (if eo_AuditLimit opts \<le> 0 then 10000 else eo_AuditLimit opts)
           in case audit_List \<lparr>al_Since = None, al_Limit = limit, al_Offset = 0, al_OrderAsc = True\<rparr> r of
                Inr entries \<Rightarrow> map auditFromDomain entries
              | Inl _ \<Rightarrow> [])
      | _ \<Rightarrow> [])"

definition backup_Export :: "go_time \<Rightarrow> Repos \<Rightarrow> ExportOptions \<Rightarrow> Snapshot res" where
  "backup_Export now repos opts =
     (case (rp_CA repos, rp_Secret repos) of
        (Some ca, Some sec) \<Rightarrow>
          Inr \<lparr>sn_Version = formatVersion, sn_CreatedAt = now,
               sn_CAs = map caFromDomain (CARepository_List ca),
               sn_Secrets = map secretFromDomain (all_secrets sec),
               sn_Revoked =
                 records revokedFromDomain
                   (\<lambda>rv. concat (map (\<lambda>c. RevocationRepository_ListByCA (ca_ID c) rv) (CARepository_List ca)))
                   (rp_Revoke repos),
               sn_Policies = records policyFromDomain PolicyRepository_List (rp_Policy repos),
               sn_Roles = records roleFromDomain RoleRepository_List (rp_Role repos),
               sn_PKIRoles = records pkiRoleFromDomain PKIRoleRepository_List (rp_PKIRole repos),
               sn_DBRoles = records databaseRoleFromDomain DatabaseRoleRepository_List (rp_DBRole repos),
               sn_SSHRoles = records sshRoleFromDomain SSHRoleRepository_List (rp_SSHRole repos),
               sn_Leases = records leaseFromDomain LeaseRepository_List (rp_Lease repos),
               sn_Issued = records issuedFromDomain IssuedCertRepository_List (rp_IssuedCert repos),
               sn_Audit = export_audit opts (rp_Audit repos),
               sn_Tokens = records tokenFromDomain TokenRepository_List (rp_Token repos)\<rparr>
      | _ \<Rightarrow> Inl (Plain ''backup repositories not configured''))"

section \<open>Validation\<close>

text \<open>The first of a sequence of checks that fails.\<close>

fun first_error :: "error option list \<Rightarrow> error option" where
  "first_error [] = None"
| "first_error (e # es) = (case e of None \<Rightarrow> first_error es | Some err \<Rightarrow> Some err)"

fun check_cas :: "uuid list \<Rightarrow> string list \<Rightarrow> CARecord list \<Rightarrow> error option" where
  "check_cas seen names [] = None"
| "check_cas seen names (ca # cas) =
     (if car_ID ca = uuid_Nil then Some (Plain ''ca id is required'')
      else if car_ID ca \<in> set seen then Some (Plain ''duplicate ca id %s'')
      else if car_Name ca = [] then Some (Plain ''ca name is required'')
      else if car_Name ca \<in> set names then Some (Plain ''duplicate ca name %s'')
      else check_cas (car_ID ca # seen) (car_Name ca # names) cas)"

definition check_parent :: "uuid list \<Rightarrow> CARecord \<Rightarrow> error option" where
  "check_parent seen ca =
     (case car_ParentID ca of
        None \<Rightarrow> None
      | Some p \<Rightarrow> if p \<in> set seen then None else Some (Plain ''ca %s references unknown parent''))"

definition check_policy :: "PolicyRecord \<Rightarrow> error option" where
  "check_policy p = (if por_Name p = [] then Some (Plain ''policy name is required'') else None)"

definition check_role :: "string list \<Rightarrow> RoleRecord \<Rightarrow> error option" where
  "check_role policyNames r =
     (if ror_Name r = [] then Some (Plain ''role name is required'')
      else if list_all (\<lambda>p. p \<in> set policyNames) (ror_Policies r) then None
      else Some (Plain ''role %s references unknown policy %s''))"

definition check_pki_role :: "string list \<Rightarrow> PKIRoleRecord \<Rightarrow> error option" where
  "check_pki_role caNames r =
     (if pkrr_Name r = [] then Some (Plain ''pki role name is required'')
      else if pkrr_CAName r = [] then Some (Plain ''pki role %s ca_name is required'')
      else if pkrr_CAName r \<notin> set caNames then Some (Plain ''pki role %s references unknown ca %s'')
      else None)"

fun check_issued :: "uuid list \<Rightarrow> string list \<Rightarrow> IssuedCertRecord list \<Rightarrow> error option" where
  "check_issued seen used [] = None"
| "check_issued seen used (c # cs) =
     (let key = icr_CAID c @ '':'' @ icr_Serial c
      in if icr_CAID c = uuid_Nil then Some (Plain ''issued cert %s ca_id is required'')
         else if icr_CAID c \<notin> set seen then Some (Plain ''issued cert %s references unknown ca'')
         else if key \<in> set used then Some (Plain ''duplicate issued cert serial %s'')
         else check_issued seen (key # used) cs)"

fun ValidateRecordChain :: "(any_map \<Rightarrow> string) \<Rightarrow> string \<Rightarrow> AuditRecord list \<Rightarrow> error option" where
  "ValidateRecordChain marshal prevHash [] = None"
| "ValidateRecordChain marshal prevHash (r # rs) =
     (if aur_Hash r \<noteq> computeHash marshal prevHash (aur_Actor r) (aur_Action r) (aur_Resource r) (aur_Status r)
                        (aur_Details r) (aur_Timestamp r)
      then Some (Plain ''audit record %d hash mismatch'')
      else ValidateRecordChain marshal (aur_Hash r) rs)"

definition validateAuditRecords :: "(any_map \<Rightarrow> string) \<Rightarrow> AuditRecord list \<Rightarrow> error option" where
  "validateAuditRecords marshal rs =
     (if rs = [] then None
      else if \<not> list_ex (\<lambda>r. aur_Hash r \<noteq> []) rs then None
      else map_option (Errorf ''audit chain: %w'') (ValidateRecordChain marshal [] rs))"

definition ValidateSnapshot :: "(any_map \<Rightarrow> string) \<Rightarrow> Snapshot \<Rightarrow> error option" where
  "ValidateSnapshot marshal s =
     (if sn_Version s \<noteq> formatVersion then Some (Plain ''unsupported backup version %d'')
      else first_error
        ([check_cas [] [] (sn_CAs s)] @
         map (check_parent (map car_ID (sn_CAs s))) (sn_CAs s) @
         map check_policy (sn_Policies s) @
         map (check_role (map por_Name (sn_Policies s))) (sn_Roles s) @
         map (check_pki_role (map car_Name (sn_CAs s))) (sn_PKIRoles s) @
         [check_issued (map car_ID (sn_CAs s)) [] (sn_Issued s),
          validateAuditRecords marshal (sn_Audit s)]))"

section \<open>Restore\<close>

text \<open>
  The library functions that the restore calls: the question asked of \<^verbatim>\<open>net/url\<close> and the JSON text of
  audit details. The identifiers drawn for policies without one are given by the name of the policy.
\<close>

record vault_lib =
  vl_url_password :: "string \<Rightarrow> bool"
  vl_Marshal :: "any_map \<Rightarrow> string"

type_synonym uuid_source = "string \<Rightarrow> uuid"

definition ClearRepos :: "Repos \<Rightarrow> Repos" where
  "ClearRepos r = \<lparr>
     rp_CA = map_option CARepository_Clear (rp_CA r), rp_Secret = map_option SecretRepository_Clear (rp_Secret r),
     rp_Audit = map_option AuditRepository_Clear (rp_Audit r), rp_Revoke = map_option RevocationRepository_Clear (rp_Revoke r),
     rp_Lease = map_option LeaseRepository_Clear (rp_Lease r), rp_Policy = map_option PolicyRepository_Clear (rp_Policy r),
     rp_Role = map_option RoleRepository_Clear (rp_Role r), rp_PKIRole = map_option PKIRoleRepository_Clear (rp_PKIRole r),
     rp_DBRole = map_option DatabaseRoleRepository_Clear (rp_DBRole r),
     rp_SSHRole = map_option SSHRoleRepository_Clear (rp_SSHRole r),
     rp_IssuedCert = map_option IssuedCertRepository_Clear (rp_IssuedCert r),
     rp_Token = map_option TokenRepository_Clear (rp_Token r)\<rparr>"

definition sortCAs :: "CARecord list \<Rightarrow> CARecord list" where
  "sortCAs rs = sort_key (\<lambda>r. (car_ParentID r \<noteq> None, car_Name r)) rs"

text \<open>One loop of the restore: skipped for a nil repository, stopped by the first error.\<close>

definition restore_loop :: "string \<Rightarrow> ('v \<Rightarrow> 't \<Rightarrow> 't res) \<Rightarrow> 'v list \<Rightarrow> (Repos \<Rightarrow> 't option) \<Rightarrow> ('t option \<Rightarrow> Repos \<Rightarrow> Repos)
    \<Rightarrow> Repos \<Rightarrow> error option \<times> Repos" where
  "restore_loop msg save vs get put rs =
     (case get rs of
        None \<Rightarrow> (None, rs)
      | Some t \<Rightarrow> (case save_all save vs t of (err, t') \<Rightarrow> (map_option (Errorf msg) err, put (Some t') rs)))"

fun run_all :: "('s \<Rightarrow> error option \<times> 's) list \<Rightarrow> 's \<Rightarrow> error option \<times> 's" where
  "run_all [] s = (None, s)"
| "run_all (f # fs) s = (case f s of (Some err, s') \<Rightarrow> (Some err, s') | (None, s') \<Rightarrow> run_all fs s')"

definition restore_loops :: "vault_lib \<Rightarrow> uuid_source \<Rightarrow> Snapshot \<Rightarrow> (Repos \<Rightarrow> error option \<times> Repos) list" where
  "restore_loops lib draw s =
     [restore_loop ''restore ca %s: %w'' CARepository_Save (map caToDomain (sortCAs (sn_CAs s))) rp_CA
        (\<lambda>t. rp_CA_update (\<lambda>_. t)),
      restore_loop ''restore secret %s v%d: %w'' SaveVersion (map secretToDomain (sn_Secrets s)) rp_Secret
        (\<lambda>t. rp_Secret_update (\<lambda>_. t)),
      restore_loop ''restore revocation %s: %w'' RevocationRepository_Revoke (map revokedToDomain (sn_Revoked s)) rp_Revoke
        (\<lambda>t. rp_Revoke_update (\<lambda>_. t)),
      restore_loop ''restore policy %s: %w'' (\<lambda>p. PolicyRepository_Save (draw (pol_Name p)) p)
        (map policyToDomain (sn_Policies s)) rp_Policy (\<lambda>t. rp_Policy_update (\<lambda>_. t)),
      restore_loop ''restore role %s: %w'' RoleRepository_Save (map roleToDomain (sn_Roles s)) rp_Role
        (\<lambda>t. rp_Role_update (\<lambda>_. t)),
      restore_loop ''restore pki role %s: %w'' PKIRoleRepository_Save (map pkiRoleToDomain (sn_PKIRoles s)) rp_PKIRole
        (\<lambda>t. rp_PKIRole_update (\<lambda>_. t)),
      restore_loop ''restore database role %s: %w'' (DatabaseRoleRepository_Save (vl_url_password lib))
        (map databaseRoleToDomain (sn_DBRoles s)) rp_DBRole (\<lambda>t. rp_DBRole_update (\<lambda>_. t)),
      restore_loop ''restore ssh role %s: %w'' SSHRoleRepository_Save (map sshRoleToDomain (sn_SSHRoles s)) rp_SSHRole
        (\<lambda>t. rp_SSHRole_update (\<lambda>_. t)),
      restore_loop ''restore lease %s: %w'' LeaseRepository_Save (map leaseToDomain (sn_Leases s)) rp_Lease
        (\<lambda>t. rp_Lease_update (\<lambda>_. t)),
      restore_loop ''restore issued cert %s: %w'' IssuedCertRepository_Save (map issuedToDomain (sn_Issued s)) rp_IssuedCert
        (\<lambda>t. rp_IssuedCert_update (\<lambda>_. t)),
      restore_loop ''restore token %s: %w'' TokenRepository_Save (map tokenToDomain (sn_Tokens s)) rp_Token
        (\<lambda>t. rp_Token_update (\<lambda>_. t)),
      restore_loop ''restore audit entry %s: %w'' Append (map auditToDomain (sn_Audit s)) rp_Audit
        (\<lambda>t. rp_Audit_update (\<lambda>_. t))]"

definition Restore :: "vault_lib \<Rightarrow> uuid_source \<Rightarrow> Snapshot \<Rightarrow> Repos \<Rightarrow> error option \<times> Repos" where
  "Restore lib draw s repos =
     (case ValidateSnapshot (vl_Marshal lib) s of
        Some err \<Rightarrow> (Some err, repos)
      | None \<Rightarrow>
          if rp_CA repos = None \<or> rp_Secret repos = None
          then (Some (Plain ''backup repositories not configured''), repos)
          else run_all (restore_loops lib draw s) (ClearRepos repos))"

section \<open>The sealed archive\<close>

record Archive =
  ar_Format :: string
  ar_Version :: int
  ar_CreatedAt :: go_time
  ar_Ciphertext :: bytes
  ar_DEKEnc :: bytes

text \<open>The two JSON encodings, of a snapshot and of an archive, and their decoders.\<close>

record backup_json =
  bj_snapshot :: "Snapshot \<Rightarrow> bytes"
  bj_parse_snapshot :: "bytes \<Rightarrow> Snapshot option"
  bj_archive :: "Archive \<Rightarrow> bytes"
  bj_parse_archive :: "bytes \<Rightarrow> Archive option"

definition archive_Seal :: "backup_json \<Rightarrow> aead \<Rightarrow> seal_entropy \<Rightarrow> go_time \<Rightarrow> KeyRing option \<Rightarrow> Snapshot option \<Rightarrow> bytes res" where
  "archive_Seal J A rnd now cryptoSvc snapshot =
     (case cryptoSvc of
        None \<Rightarrow> Inl (Plain ''crypto service not configured'')
      | Some k \<Rightarrow>
          (case snapshot of
             None \<Rightarrow> Inl (Plain ''snapshot is required'')
           | Some s \<Rightarrow>
               (case Seal A rnd k (bj_snapshot J s) of
                  Inl err \<Rightarrow> Inl (Errorf ''seal snapshot: %w'' err)
                | Inr (ciphertext, dekEnc) \<Rightarrow>
                    Inr (bj_archive J
                      \<lparr>ar_Format = ''knxvault-backup'', ar_Version = formatVersion, ar_CreatedAt = now,
                       ar_Ciphertext = ciphertext, ar_DEKEnc = dekEnc\<rparr>))))"

definition archive_Open :: "backup_json \<Rightarrow> (any_map \<Rightarrow> string) \<Rightarrow> aead \<Rightarrow> KeyRing option \<Rightarrow> bytes \<Rightarrow> Snapshot res" where
  "archive_Open J marshal A cryptoSvc data =
     (case cryptoSvc of
        None \<Rightarrow> Inl (Plain ''crypto service not configured'')
      | Some k \<Rightarrow>
          (case bj_parse_archive J data of
             None \<Rightarrow> Inl (Plain ''parse archive: %w'')
           | Some archive \<Rightarrow>
               if ar_Format archive \<noteq> ''knxvault-backup'' then Inl (Plain ''unsupported archive format %q'')
               else if ar_Version archive \<noteq> formatVersion then Inl (Plain ''unsupported archive version %d'')
               else (case Open A k (ar_Ciphertext archive) (ar_DEKEnc archive) of
                       Inl err \<Rightarrow> Inl (Errorf ''decrypt archive: %w'' err)
                     | Inr raw \<Rightarrow>
                         (case bj_parse_snapshot J raw of
                            None \<Rightarrow> Inl (Plain ''unmarshal snapshot: %w'')
                          | Some s \<Rightarrow> (case ValidateSnapshot marshal s of Some err \<Rightarrow> Inl err | None \<Rightarrow> Inr s)))))"

end
