(* ===== verification/RaftStore.thy ===== *)
theory RaftStore
  imports Backup
begin

text \<open>
  The replicated store of \<^verbatim>\<open>internal/raft\<close>: the state of a replica (store.go), the commands
  (commands.go), one function per handler (handlers.go), the dispatch, the read path and the snapshots
  of the state machine (statemachine.go). A command is given with its payload decoded; a payload that does
  not decode and an operation without a handler are commands of their own. A handler gets the instant
  that it reads from the clock and the source of identifiers where it uses them; both differ from
  replica to replica.
\<close>

section \<open>The store\<close>

record Store =
  st_CA :: "CA table"
  st_Secret :: secret_store
  st_Audit :: audit_log
  st_Revoke :: revocations
  st_Lease :: "Lease table"
  st_Policy :: "Policy table"
  st_Role :: "Role table"
  st_DBRole :: "DatabaseRole table"
  st_SSHRole :: "SSHRole table"
  st_IssuedCert :: "IssuedCertificate table"
  st_PKIRole :: "PKIRole table"
  st_Token :: token_table
  st_MachineIdentity :: "MachineIdentity table"
  st_RotationPolicy :: "RotationPolicy table"

definition NewStore :: Store where
  "NewStore = \<lparr>
     st_CA = [], st_Secret = NewSecretRepository, st_Audit = NewAuditRepository, st_Revoke = NewRevocationRepository,
     st_Lease = [], st_Policy = [], st_Role = [], st_DBRole = [], st_SSHRole = [], st_IssuedCert = [],
     st_PKIRole = [], st_Token = [], st_MachineIdentity = [], st_RotationPolicy = []\<rparr>"

definition Store_Repos :: "Store \<Rightarrow> Repos" where
  "Store_Repos s = \<lparr>
     rp_CA = Some (st_CA s), rp_Secret = Some (st_Secret s), rp_Audit = Some (st_Audit s), rp_Revoke = Some (st_Revoke s),
     rp_Lease = Some (st_Lease s), rp_Policy = Some (st_Policy s), rp_Role = Some (st_Role s),
     rp_PKIRole = Some (st_PKIRole s), rp_DBRole = Some (st_DBRole s), rp_SSHRole = Some (st_SSHRole s),
     rp_IssuedCert = Some (st_IssuedCert s), rp_Token = Some (st_Token s)\<rparr>"

text \<open>The store whose repositories a restore has changed through \<^verbatim>\<open>fresh.Repos()\<close>.\<close>

definition through_repos :: "Store \<Rightarrow> Repos \<Rightarrow> Store" where
  "through_repos s r = \<lparr>
     st_CA = the (rp_CA r), st_Secret = the (rp_Secret r), st_Audit = the (rp_Audit r), st_Revoke = the (rp_Revoke r),
     st_Lease = the (rp_Lease r), st_Policy = the (rp_Policy r), st_Role = the (rp_Role r), st_DBRole = the (rp_DBRole r),
     st_SSHRole = the (rp_SSHRole r), st_IssuedCert = the (rp_IssuedCert r), st_PKIRole = the (rp_PKIRole r),
     st_Token = the (rp_Token r), st_MachineIdentity = st_MachineIdentity s, st_RotationPolicy = st_RotationPolicy s\<rparr>"

definition ExportSnapshot :: "go_time \<Rightarrow> bool \<Rightarrow> Store \<Rightarrow> Snapshot res" where
  "ExportSnapshot now includeAudit s =
     backup_Export now (Store_Repos s) \<lparr>eo_IncludeAudit = includeAudit, eo_AuditLimit = 0\<rparr>"

definition ImportSnapshot :: "vault_lib \<Rightarrow> uuid_source \<Rightarrow> Snapshot \<Rightarrow> Store \<Rightarrow> error option \<times> Store" where
  "ImportSnapshot lib draw snapshot s =
     (case ValidateSnapshot (vl_Marshal lib) snapshot of
        Some err \<Rightarrow> (Some err, s)
      | None \<Rightarrow>
          (case Restore lib draw snapshot (Store_Repos NewStore) of
             (Some err, _) \<Rightarrow> (Some err, s)
           | (None, repos) \<Rightarrow> (None, through_repos NewStore repos)))"

section \<open>Answers\<close>

text \<open>The value a handler returns.\<close>

datatype answer =
    NoData
  | A_CA "CA"
  | A_CAs "CA list"
  | A_Secret "SecretVersion"
  | A_Secrets "SecretVersion list"
  | A_Int "int"
  | A_Bool "bool"
  | A_Text "string"
  | A_Audit "Entry"
  | A_Audits "Entry list"
  | A_Revoked "RevokedCertificate list"
  | A_Lease "Lease"
  | A_Leases "Lease list"
  | A_Policy "Policy"
  | A_Policies "Policy list"
  | A_Role "Role"
  | A_Roles "Role list"
  | A_PKIRole "PKIRole"
  | A_PKIRoles "PKIRole list"
  | A_DBRole "DatabaseRole"
  | A_DBRoles "DatabaseRole list"
  | A_SSHRole "SSHRole"
  | A_SSHRoles "SSHRole list"
  | A_Issued "IssuedCertificate"
  | A_Issueds "IssuedCertificate list"
  | A_Token "ClientToken"
  | A_Tokens "ClientToken list"
  | A_Machine "MachineIdentity"
  | A_Machines "MachineIdentity list"
  | A_Rotation "RotationPolicy"
  | A_Rotations "RotationPolicy list"
  | A_Snapshot "Snapshot"

type_synonym handled = "answer res \<times> Store"

definition wrote :: "Store \<Rightarrow> ('t \<Rightarrow> Store) \<Rightarrow> 't res \<Rightarrow> handled" where
  "wrote s put r = (case r of Inl err \<Rightarrow> (Inl err, s) | Inr t \<Rightarrow> (Inr NoData, put t))"

definition found :: "Store \<Rightarrow> ('v \<Rightarrow> answer) \<Rightarrow> 'v res \<Rightarrow> handled" where
  "found s ans r = (case r of Inl err \<Rightarrow> (Inl err, s) | Inr v \<Rightarrow> (Inr (ans v), s))"

named_theorems handler_defs \<open>definitions of the handlers\<close>

section \<open>Handlers\<close>

definition handleCASave :: "CA \<Rightarrow> Store \<Rightarrow> handled" where [handler_defs]:
  "handleCASave ca s =
     wrote s (\<lambda>t. s\<lparr>st_CA := t\<rparr>) (CARepository_Save ca (st_CA s))"

definition handleCAGetByID :: "uuid \<Rightarrow> Store \<Rightarrow> handled" where [handler_defs]:
  "handleCAGetByID i s =
     found s A_CA (CARepository_GetByID i (st_CA s))"

definition handleCAGetByName :: "string \<Rightarrow> Store \<Rightarrow> handled" where [handler_defs]:
  "handleCAGetByName name s =
     found s A_CA (CARepository_GetByName name (st_CA s))"

definition handleCAList :: "Store \<Rightarrow> handled" where [handler_defs]:
  "handleCAList s =
     (Inr (A_CAs (CARepository_List (st_CA s))), s)"

definition handleSecretSaveVersion :: "SecretVersion \<Rightarrow> Store \<Rightarrow> handled" where [handler_defs]:
  "handleSecretSaveVersion sv s =
     wrote s (\<lambda>t. s\<lparr>st_Secret := t\<rparr>) (SaveVersion sv (st_Secret s))"

definition handleSecretUpdateDEKEnc :: "string \<Rightarrow> int \<Rightarrow> bytes \<Rightarrow> Store \<Rightarrow> handled" where [handler_defs]:
  "handleSecretUpdateDEKEnc path version dekEnc s =
     wrote s (\<lambda>t. s\<lparr>st_Secret := t\<rparr>) (UpdateDEKEnc path version dekEnc (st_Secret s))"

definition handleSecretGetLatest :: "string \<Rightarrow> Store \<Rightarrow> handled" where [handler_defs]:
  "handleSecretGetLatest path s =
     found s A_Secret (GetLatest path (st_Secret s))"

definition handleSecretGetVersion :: "string \<Rightarrow> int \<Rightarrow> Store \<Rightarrow> handled" where [handler_defs]:
  "handleSecretGetVersion path version s =
     found s A_Secret (GetVersion path version (st_Secret s))"

definition handleSecretListByPath :: "string \<Rightarrow> Store \<Rightarrow> handled" where [handler_defs]:
  "handleSecretListByPath prefix s =
     found s A_Secrets (ListByPath prefix (st_Secret s))"

definition handleSecretNextVersion :: "string \<Rightarrow> Store \<Rightarrow> handled" where [handler_defs]:
  "handleSecretNextVersion path s =
     found s A_Int (NextVersion path (st_Secret s))"

definition handleSecretPut :: "SecretVersion \<Rightarrow> (int option) \<Rightarrow> int \<Rightarrow> Store \<Rightarrow> handled" where [handler_defs]:
  "handleSecretPut sv casVersion maxVersions s =
     (case PutAtomic sv casVersion maxVersions (st_Secret s) of
        Inl err \<Rightarrow> (Inl err, s)
      | Inr (version, t) \<Rightarrow> (Inr (A_Int version), s\<lparr>st_Secret := t\<rparr>))"

definition handleSecretDestroyVer :: "string \<Rightarrow> int \<Rightarrow> Store \<Rightarrow> handled" where [handler_defs]:
  "handleSecretDestroyVer path version s =
     wrote s (\<lambda>t. s\<lparr>st_Secret := t\<rparr>) (DestroyVersion path version (st_Secret s))"

definition handlePKIRoleSave :: "PKIRole \<Rightarrow> Store \<Rightarrow> handled" where [handler_defs]:
  "handlePKIRoleSave role s =
     (case CARepository_GetByName (pkr_CAName role) (st_CA s) of
        Inl err \<Rightarrow> (Inl err, s)
      | Inr _ \<Rightarrow>
          (case PKIRoleRepository_Save role (st_PKIRole s) of
             Inl err \<Rightarrow> (Inl err, s)
           | Inr t \<Rightarrow>
               (Inr (A_PKIRole (case PKIRole_Validate role of Inr stored \<Rightarrow> stored | Inl _ \<Rightarrow> role)), s\<lparr>st_PKIRole := t\<rparr>)))"

definition handlePKIRoleGet :: "string \<Rightarrow> Store \<Rightarrow> handled" where [handler_defs]:
  "handlePKIRoleGet name s =
     found s A_PKIRole (PKIRoleRepository_Get name (st_PKIRole s))"

definition handlePKIRoleList :: "Store \<Rightarrow> handled" where [handler_defs]:
  "handlePKIRoleList s =
     (Inr (A_PKIRoles (PKIRoleRepository_List (st_PKIRole s))), s)"

definition handle_audit_append :: "vault_lib \<Rightarrow> go_time \<Rightarrow> Entry \<Rightarrow> Store \<Rightarrow> handled" where [handler_defs]:
  "handle_audit_append lib now entry s =
     (case handleAuditAppend (vl_Marshal lib) now entry (st_Audit s) of
        Inl err \<Rightarrow> (Inl err, s)
      | Inr t \<Rightarrow> (Inr (A_Audit (last (fst t))), s\<lparr>st_Audit := t\<rparr>))"

definition handleAuditList :: "AuditListOptions \<Rightarrow> Store \<Rightarrow> handled" where [handler_defs]:
  "handleAuditList opts s =
     found s A_Audits (audit_List opts (st_Audit s))"

definition handleAuditLatestHash :: "Store \<Rightarrow> handled" where [handler_defs]:
  "handleAuditLatestHash s =
     found s A_Text (LatestHash (st_Audit s))"

definition handleRevoke :: "RevokedCertificate \<Rightarrow> Store \<Rightarrow> handled" where [handler_defs]:
  "handleRevoke cert s =
     wrote s (\<lambda>t. s\<lparr>st_Revoke := t\<rparr>) (RevocationRepository_Revoke cert (st_Revoke s))"

definition handleRevokeIs :: "string \<Rightarrow> Store \<Rightarrow> handled" where [handler_defs]:
  "handleRevokeIs serial s =
     found s A_Bool (RevocationRepository_IsRevoked serial (st_Revoke s))"

definition handleRevokeListByCA :: "uuid \<Rightarrow> Store \<Rightarrow> handled" where [handler_defs]:
  "handleRevokeListByCA caID s =
     (Inr (A_Revoked (RevocationRepository_ListByCA caID (st_Revoke s))), s)"

definition handleLeaseSave :: "Lease \<Rightarrow> Store \<Rightarrow> handled" where [handler_defs]:
  "handleLeaseSave lease s =
     wrote s (\<lambda>t. s\<lparr>st_Lease := t\<rparr>) (LeaseRepository_Save lease (st_Lease s))"

definition handleLeaseGet :: "string \<Rightarrow> Store \<Rightarrow> handled" where [handler_defs]:
  "handleLeaseGet i s =
     found s A_Lease (LeaseRepository_Get i (st_Lease s))"

definition handleLeaseList :: "Store \<Rightarrow> handled" where [handler_defs]:
  "handleLeaseList s =
     (Inr (A_Leases (LeaseRepository_List (st_Lease s))), s)"

definition handleLeaseListExpired :: "go_time \<Rightarrow> int \<Rightarrow> Store \<Rightarrow> handled" where [handler_defs]:
  "handleLeaseListExpired before limit s =
     (Inr (A_Leases (LeaseRepository_ListExpired before limit (st_Lease s))), s)"

definition handleLeaseRevoke :: "string \<Rightarrow> go_time \<Rightarrow> Store \<Rightarrow> handled" where [handler_defs]:
  "handleLeaseRevoke i revokedAt s =
     wrote s (\<lambda>t. s\<lparr>st_Lease := t\<rparr>) (LeaseRepository_Revoke i revokedAt (st_Lease s))"

definition handleLeaseCountActive :: "go_time \<Rightarrow> Store \<Rightarrow> handled" where [handler_defs]:
  "handleLeaseCountActive now s =
     found s A_Int (LeaseRepository_CountActive now (st_Lease s))"

definition handlePolicySave :: "uuid_source \<Rightarrow> Policy \<Rightarrow> Store \<Rightarrow> handled" where [handler_defs]:
  "handlePolicySave draw pol s =
     (case PolicyRepository_Save (draw (pol_Name pol)) pol (st_Policy s) of
        Inl err \<Rightarrow> (Inl err, s)
      | Inr t \<Rightarrow> (Inr (A_Policy (with_id (draw (pol_Name pol)) pol)), s\<lparr>st_Policy := t\<rparr>))"

definition handlePolicyGet :: "string \<Rightarrow> Store \<Rightarrow> handled" where [handler_defs]:
  "handlePolicyGet name s =
     found s A_Policy (PolicyRepository_GetByName name (st_Policy s))"

definition handlePolicyList :: "Store \<Rightarrow> handled" where [handler_defs]:
  "handlePolicyList s =
     (Inr (A_Policies (PolicyRepository_List (st_Policy s))), s)"

definition handlePolicyDelete :: "string \<Rightarrow> Store \<Rightarrow> handled" where [handler_defs]:
  "handlePolicyDelete name s =
     wrote s (\<lambda>t. s\<lparr>st_Policy := t\<rparr>) (PolicyRepository_Delete name (st_Policy s))"

definition handleRoleSave :: "Role \<Rightarrow> Store \<Rightarrow> handled" where [handler_defs]:
  "handleRoleSave role s =
     wrote s (\<lambda>t. s\<lparr>st_Role := t\<rparr>) (RoleRepository_Save role (st_Role s))"

definition handleRoleGet :: "string \<Rightarrow> Store \<Rightarrow> handled" where [handler_defs]:
  "handleRoleGet name s =
     found s A_Role (RoleRepository_Get name (st_Role s))"

definition handleRoleList :: "Store \<Rightarrow> handled" where [handler_defs]:
  "handleRoleList s =
     (Inr (A_Roles (RoleRepository_List (st_Role s))), s)"

definition handleRoleDelete :: "string \<Rightarrow> Store \<Rightarrow> handled" where [handler_defs]:
  "handleRoleDelete name s =
     wrote s (\<lambda>t. s\<lparr>st_Role := t\<rparr>) (RoleRepository_Delete name (st_Role s))"

definition handleDBRoleSave :: "vault_lib \<Rightarrow> DatabaseRole \<Rightarrow> Store \<Rightarrow> handled" where [handler_defs]:
  "handleDBRoleSave lib role s =
     wrote s (\<lambda>t. s\<lparr>st_DBRole := t\<rparr>) (DatabaseRoleRepository_Save (vl_url_password lib) role (st_DBRole s))"

definition handleDBRoleGet :: "string \<Rightarrow> Store \<Rightarrow> handled" where [handler_defs]:
  "handleDBRoleGet name s =
     found s A_DBRole (DatabaseRoleRepository_Get name (st_DBRole s))"

definition handleDBRoleList :: "Store \<Rightarrow> handled" where [handler_defs]:
  "handleDBRoleList s =
     (Inr (A_DBRoles (DatabaseRoleRepository_List (st_DBRole s))), s)"

definition handleDBRoleDelete :: "string \<Rightarrow> Store \<Rightarrow> handled" where [handler_defs]:
  "handleDBRoleDelete name s =
     wrote s (\<lambda>t. s\<lparr>st_DBRole := t\<rparr>) (DatabaseRoleRepository_Delete name (st_DBRole s))"

definition handleSSHRoleSave :: "SSHRole \<Rightarrow> Store \<Rightarrow> handled" where [handler_defs]:
  "handleSSHRoleSave role s =
     wrote s (\<lambda>t. s\<lparr>st_SSHRole := t\<rparr>) (SSHRoleRepository_Save role (st_SSHRole s))"

definition handleSSHRoleGet :: "string \<Rightarrow> Store \<Rightarrow> handled" where [handler_defs]:
  "handleSSHRoleGet name s =
     found s A_SSHRole (SSHRoleRepository_Get name (st_SSHRole s))"

definition handleSSHRoleList :: "Store \<Rightarrow> handled" where [handler_defs]:
  "handleSSHRoleList s =
     (Inr (A_SSHRoles (SSHRoleRepository_List (st_SSHRole s))), s)"

definition handleSSHRoleDelete :: "string \<Rightarrow> Store \<Rightarrow> handled" where [handler_defs]:
  "handleSSHRoleDelete name s =
     wrote s (\<lambda>t. s\<lparr>st_SSHRole := t\<rparr>) (SSHRoleRepository_Delete name (st_SSHRole s))"

definition handleIssuedSave :: "IssuedCertificate \<Rightarrow> Store \<Rightarrow> handled" where [handler_defs]:
  "handleIssuedSave cert s =
     wrote s (\<lambda>t. s\<lparr>st_IssuedCert := t\<rparr>) (IssuedCertRepository_Save cert (st_IssuedCert s))"

definition handleIssuedGetBySerial :: "uuid \<Rightarrow> string \<Rightarrow> Store \<Rightarrow> handled" where [handler_defs]:
  "handleIssuedGetBySerial caID serial s =
     found s A_Issued (IssuedCertRepository_GetBySerial caID serial (st_IssuedCert s))"

definition handleIssuedList :: "Store \<Rightarrow> handled" where [handler_defs]:
  "handleIssuedList s =
     (Inr (A_Issueds (IssuedCertRepository_List (st_IssuedCert s))), s)"

definition handleIssuedListExpiring :: "go_time \<Rightarrow> int \<Rightarrow> Store \<Rightarrow> handled" where [handler_defs]:
  "handleIssuedListExpiring before limit s =
     (Inr (A_Issueds (IssuedCertRepository_ListExpiring before limit (st_IssuedCert s))), s)"

definition handleImportSnapshot :: "vault_lib \<Rightarrow> uuid_source \<Rightarrow> Snapshot \<Rightarrow> Store \<Rightarrow> handled" where [handler_defs]:
  "handleImportSnapshot lib draw snapshot s =
     (case ImportSnapshot lib draw snapshot s of (Some err, s') \<Rightarrow> (Inl err, s') | (None, s') \<Rightarrow> (Inr NoData, s'))"

definition handleExportSnapshot :: "go_time \<Rightarrow> bool \<Rightarrow> Store \<Rightarrow> handled" where [handler_defs]:
  "handleExportSnapshot now includeAudit s =
     found s A_Snapshot (ExportSnapshot now includeAudit s)"

definition handleTokenSave :: "ClientToken \<Rightarrow> Store \<Rightarrow> handled" where [handler_defs]:
  "handleTokenSave tok s =
     wrote s (\<lambda>t. s\<lparr>st_Token := t\<rparr>) (TokenRepository_Save tok (st_Token s))"

definition handleTokenGet :: "string \<Rightarrow> Store \<Rightarrow> handled" where [handler_defs]:
  "handleTokenGet i s =
     found s A_Token (TokenRepository_Get i (st_Token s))"

definition handleTokenRevoke :: "string \<Rightarrow> go_time \<Rightarrow> Store \<Rightarrow> handled" where [handler_defs]:
  "handleTokenRevoke i revokedAt s =
     wrote s (\<lambda>t. s\<lparr>st_Token := t\<rparr>) (TokenRepository_Revoke i revokedAt (st_Token s))"

definition handleTokenList :: "Store \<Rightarrow> handled" where [handler_defs]:
  "handleTokenList s =
     (Inr (A_Tokens (TokenRepository_List (st_Token s))), s)"

definition handleTokenListExpired :: "go_time \<Rightarrow> int \<Rightarrow> Store \<Rightarrow> handled" where [handler_defs]:
  "handleTokenListExpired before limit s =
     (Inr (A_Tokens (TokenRepository_ListExpired before limit (st_Token s))), s)"

definition handleMachineIdentitySave :: "MachineIdentity \<Rightarrow> Store \<Rightarrow> handled" where [handler_defs]:
  "handleMachineIdentitySave m s =
     wrote s (\<lambda>t. s\<lparr>st_MachineIdentity := t\<rparr>) (MachineIdentityRepository_Save m (st_MachineIdentity s))"

definition handleMachineIdentityGet :: "string \<Rightarrow> Store \<Rightarrow> handled" where [handler_defs]:
  "handleMachineIdentityGet i s =
     found s A_Machine (MachineIdentityRepository_Get i (st_MachineIdentity s))"

definition handleMachineIdentityList :: "Store \<Rightarrow> handled" where [handler_defs]:
  "handleMachineIdentityList s =
     (Inr (A_Machines (MachineIdentityRepository_List (st_MachineIdentity s))), s)"

definition handleMachineIdentityRevoke :: "string \<Rightarrow> Store \<Rightarrow> handled" where [handler_defs]:
  "handleMachineIdentityRevoke i s =
     wrote s (\<lambda>t. s\<lparr>st_MachineIdentity := t\<rparr>) (MachineIdentityRepository_Revoke i (st_MachineIdentity s))"

definition handleRotationPolicySave :: "RotationPolicy \<Rightarrow> Store \<Rightarrow> handled" where [handler_defs]:
  "handleRotationPolicySave pol s =
     wrote s (\<lambda>t. s\<lparr>st_RotationPolicy := t\<rparr>) (RotationPolicyRepository_Save pol (st_RotationPolicy s))"

definition handleRotationPolicyGet :: "string \<Rightarrow> Store \<Rightarrow> handled" where [handler_defs]:
  "handleRotationPolicyGet path s =
     found s A_Rotation (RotationPolicyRepository_Get path (st_RotationPolicy s))"

definition handleRotationPolicyList :: "Store \<Rightarrow> handled" where [handler_defs]:
  "handleRotationPolicyList s =
     (Inr (A_Rotations (RotationPolicyRepository_List (st_RotationPolicy s))), s)"

definition handleRotationPolicyDelete :: "string \<Rightarrow> Store \<Rightarrow> handled" where [handler_defs]:
  "handleRotationPolicyDelete path s =
     wrote s (\<lambda>t. s\<lparr>st_RotationPolicy := t\<rparr>) (RotationPolicyRepository_Delete path (st_RotationPolicy s))"

section \<open>Commands\<close>

datatype (plugins only: code) Command =
    OpCASave "CA"
  | OpCAGetByID "uuid"
  | OpCAGetByName "string"
  | OpCAList
  | OpSecretSaveVersion "SecretVersion"
  | OpSecretUpdateDEKEnc "string" "int" "bytes"
  | OpSecretGetLatest "string"
  | OpSecretGetVersion "string" "int"
  | OpSecretListByPath "string"
  | OpSecretNextVersion "string"
  | OpSecretPut "SecretVersion" "int option" "int"
  | OpSecretDestroyVer "string" "int"
  | OpPKIRoleSave "PKIRole"
  | OpPKIRoleGet "string"
  | OpPKIRoleList
  | OpAuditAppend "Entry"
  | OpAuditList "AuditListOptions"
  | OpAuditLatestHash
  | OpRevoke "RevokedCertificate"
  | OpRevokeIs "string"
  | OpRevokeListByCA "uuid"
  | OpLeaseSave "Lease"
  | OpLeaseGet "string"
  | OpLeaseList
  | OpLeaseListExpired "go_time" "int"
  | OpLeaseRevoke "string" "go_time"
  | OpLeaseCountActive
  | OpPolicySave "Policy"
  | OpPolicyGet "string"
  | OpPolicyList
  | OpPolicyDelete "string"
  | OpRoleSave "Role"
  | OpRoleGet "string"
  | OpRoleList
  | OpRoleDelete "string"
  | OpDBRoleSave "DatabaseRole"
  | OpDBRoleGet "string"
  | OpDBRoleList
  | OpDBRoleDelete "string"
  | OpSSHRoleSave "SSHRole"
  | OpSSHRoleGet "string"
  | OpSSHRoleList
  | OpSSHRoleDelete "string"
  | OpIssuedSave "IssuedCertificate"
  | OpIssuedGetBySerial "uuid" "string"
  | OpIssuedList
  | OpIssuedListExpiring "go_time" "int"
  | OpImportSnapshotCmd "Snapshot"
  | OpExportSnapshotCmd "bool"
  | OpTokenSave "ClientToken"
  | OpTokenGet "string"
  | OpTokenRevoke "string" "go_time"
  | OpTokenList
  | OpTokenListExpired "go_time" "int"
  | OpMachineIdentitySave "MachineIdentity"
  | OpMachineIdentityGet "string"
  | OpMachineIdentityList
  | OpMachineIdentityRevoke "string"
  | OpRotationPolicySave "RotationPolicy"
  | OpRotationPolicyGet "string"
  | OpRotationPolicyList
  | OpRotationPolicyDelete "string"
  | Malformed string
  | Unknown string

primrec storeHandlers :: "vault_lib \<Rightarrow> uuid_source \<Rightarrow> go_time \<Rightarrow> Command \<Rightarrow> Store \<Rightarrow> handled" where
  "storeHandlers lib draw now (OpCASave ca) s = handleCASave ca s"
| "storeHandlers lib draw now (OpCAGetByID i) s = handleCAGetByID i s"
| "storeHandlers lib draw now (OpCAGetByName name) s = handleCAGetByName name s"
| "storeHandlers lib draw now OpCAList s = handleCAList s"
| "storeHandlers lib draw now (OpSecretSaveVersion sv) s = handleSecretSaveVersion sv s"
| "storeHandlers lib draw now (OpSecretUpdateDEKEnc path version dekEnc) s = handleSecretUpdateDEKEnc path version dekEnc s"
| "storeHandlers lib draw now (OpSecretGetLatest path) s = handleSecretGetLatest path s"
| "storeHandlers lib draw now (OpSecretGetVersion path version) s = handleSecretGetVersion path version s"
| "storeHandlers lib draw now (OpSecretListByPath prefix) s = handleSecretListByPath prefix s"
| "storeHandlers lib draw now (OpSecretNextVersion path) s = handleSecretNextVersion path s"
| "storeHandlers lib draw now (OpSecretPut sv casVersion maxVersions) s = handleSecretPut sv casVersion maxVersions s"
| "storeHandlers lib draw now (OpSecretDestroyVer path version) s = handleSecretDestroyVer path version s"
| "storeHandlers lib draw now (OpPKIRoleSave role) s = handlePKIRoleSave role s"
| "storeHandlers lib draw now (OpPKIRoleGet name) s = handlePKIRoleGet name s"
| "storeHandlers lib draw now OpPKIRoleList s = handlePKIRoleList s"
| "storeHandlers lib draw now (OpAuditAppend entry) s = handle_audit_append lib now entry s"
| "storeHandlers lib draw now (OpAuditList opts) s = handleAuditList opts s"
| "storeHandlers lib draw now OpAuditLatestHash s = handleAuditLatestHash s"
| "storeHandlers lib draw now (OpRevoke cert) s = handleRevoke cert s"
| "storeHandlers lib draw now (OpRevokeIs serial) s = handleRevokeIs serial s"
| "storeHandlers lib draw now (OpRevokeListByCA caID) s = handleRevokeListByCA caID s"
| "storeHandlers lib draw now (OpLeaseSave lease) s = handleLeaseSave lease s"
| "storeHandlers lib draw now (OpLeaseGet i) s = handleLeaseGet i s"
| "storeHandlers lib draw now OpLeaseList s = handleLeaseList s"
| "storeHandlers lib draw now (OpLeaseListExpired before limit) s = handleLeaseListExpired before limit s"
| "storeHandlers lib draw now (OpLeaseRevoke i revokedAt) s = handleLeaseRevoke i revokedAt s"
| "storeHandlers lib draw now OpLeaseCountActive s = handleLeaseCountActive now s"
| "storeHandlers lib draw now (OpPolicySave pol) s = handlePolicySave draw pol s"
| "storeHandlers lib draw now (OpPolicyGet name) s = handlePolicyGet name s"
| "storeHandlers lib draw now OpPolicyList s = handlePolicyList s"
| "storeHandlers lib draw now (OpPolicyDelete name) s = handlePolicyDelete name s"
| "storeHandlers lib draw now (OpRoleSave role) s = handleRoleSave role s"
| "storeHandlers lib draw now (OpRoleGet name) s = handleRoleGet name s"
| "storeHandlers lib draw now OpRoleList s = handleRoleList s"
| "storeHandlers lib draw now (OpRoleDelete name) s = handleRoleDelete name s"
| "storeHandlers lib draw now (OpDBRoleSave role) s = handleDBRoleSave lib role s"
| "storeHandlers lib draw now (OpDBRoleGet name) s = handleDBRoleGet name s"
| "storeHandlers lib draw now OpDBRoleList s = handleDBRoleList s"
| "storeHandlers lib draw now (OpDBRoleDelete name) s = handleDBRoleDelete name s"
| "storeHandlers lib draw now (OpSSHRoleSave role) s = handleSSHRoleSave role s"
| "storeHandlers lib draw now (OpSSHRoleGet name) s = handleSSHRoleGet name s"
| "storeHandlers lib draw now OpSSHRoleList s = handleSSHRoleList s"
| "storeHandlers lib draw now (OpSSHRoleDelete name) s = handleSSHRoleDelete name s"
| "storeHandlers lib draw now (OpIssuedSave cert) s = handleIssuedSave cert s"
| "storeHandlers lib draw now (OpIssuedGetBySerial caID serial) s = handleIssuedGetBySerial caID serial s"
| "storeHandlers lib draw now OpIssuedList s = handleIssuedList s"
| "storeHandlers lib draw now (OpIssuedListExpiring before limit) s = handleIssuedListExpiring before limit s"
| "storeHandlers lib draw now (OpImportSnapshotCmd snapshot) s = handleImportSnapshot lib draw snapshot s"
| "storeHandlers lib draw now (OpExportSnapshotCmd includeAudit) s = handleExportSnapshot now includeAudit s"
| "storeHandlers lib draw now (OpTokenSave tok) s = handleTokenSave tok s"
| "storeHandlers lib draw now (OpTokenGet i) s = handleTokenGet i s"
| "storeHandlers lib draw now (OpTokenRevoke i revokedAt) s = handleTokenRevoke i revokedAt s"
| "storeHandlers lib draw now OpTokenList s = handleTokenList s"
| "storeHandlers lib draw now (OpTokenListExpired before limit) s = handleTokenListExpired before limit s"
| "storeHandlers lib draw now (OpMachineIdentitySave m) s = handleMachineIdentitySave m s"
| "storeHandlers lib draw now (OpMachineIdentityGet i) s = handleMachineIdentityGet i s"
| "storeHandlers lib draw now OpMachineIdentityList s = handleMachineIdentityList s"
| "storeHandlers lib draw now (OpMachineIdentityRevoke i) s = handleMachineIdentityRevoke i s"
| "storeHandlers lib draw now (OpRotationPolicySave pol) s = handleRotationPolicySave pol s"
| "storeHandlers lib draw now (OpRotationPolicyGet path) s = handleRotationPolicyGet path s"
| "storeHandlers lib draw now OpRotationPolicyList s = handleRotationPolicyList s"
| "storeHandlers lib draw now (OpRotationPolicyDelete path) s = handleRotationPolicyDelete path s"
| "storeHandlers lib draw now (Malformed op) s = (Inl (Plain ''json: cannot unmarshal''), s)"
| "storeHandlers lib draw now (Unknown op) s = (Inl (New ErrCodeValidation ''unknown raft command''), s)"

fun IsReadOnlyOp :: "Command \<Rightarrow> bool" where
  "IsReadOnlyOp (OpCAGetByID _) = True"
| "IsReadOnlyOp (OpCAGetByName _) = True"
| "IsReadOnlyOp OpCAList = True"
| "IsReadOnlyOp (OpSecretGetLatest _) = True"
| "IsReadOnlyOp (OpSecretGetVersion _ _) = True"
| "IsReadOnlyOp (OpSecretListByPath _) = True"
| "IsReadOnlyOp (OpSecretNextVersion _) = True"
| "IsReadOnlyOp (OpPKIRoleGet _) = True"
| "IsReadOnlyOp OpPKIRoleList = True"
| "IsReadOnlyOp (OpAuditList _) = True"
| "IsReadOnlyOp OpAuditLatestHash = True"
| "IsReadOnlyOp (OpRevokeIs _) = True"
| "IsReadOnlyOp (OpRevokeListByCA _) = True"
| "IsReadOnlyOp (OpLeaseGet _) = True"
| "IsReadOnlyOp OpLeaseList = True"
| "IsReadOnlyOp (OpLeaseListExpired _ _) = True"
| "IsReadOnlyOp OpLeaseCountActive = True"
| "IsReadOnlyOp (OpPolicyGet _) = True"
| "IsReadOnlyOp OpPolicyList = True"
| "IsReadOnlyOp (OpRoleGet _) = True"
| "IsReadOnlyOp OpRoleList = True"
| "IsReadOnlyOp (OpDBRoleGet _) = True"
| "IsReadOnlyOp OpDBRoleList = True"
| "IsReadOnlyOp (OpSSHRoleGet _) = True"
| "IsReadOnlyOp OpSSHRoleList = True"
| "IsReadOnlyOp (OpIssuedGetBySerial _ _) = True"
| "IsReadOnlyOp OpIssuedList = True"
| "IsReadOnlyOp (OpIssuedListExpiring _ _) = True"
| "IsReadOnlyOp (OpExportSnapshotCmd _) = True"
| "IsReadOnlyOp (OpTokenGet _) = True"
| "IsReadOnlyOp OpTokenList = True"
| "IsReadOnlyOp (OpTokenListExpired _ _) = True"
| "IsReadOnlyOp (OpMachineIdentityGet _) = True"
| "IsReadOnlyOp OpMachineIdentityList = True"
| "IsReadOnlyOp (OpRotationPolicyGet _) = True"
| "IsReadOnlyOp OpRotationPolicyList = True"
| "IsReadOnlyOp _ = False"

section \<open>Responses and dispatch\<close>

text \<open>A response carries an error code and its message, or data; \<open>None\<close> is the empty code.\<close>

record Response =
  resp_ErrorCode :: "ErrorCode option"
  resp_Message :: string
  resp_Data :: answer

fun error_text :: "error \<Rightarrow> string" where
  "error_text (Plain m) = m"
| "error_text (Errorf m _) = m"
| "error_text (KNXVaultError _ m _) = m"

definition encodeResponse :: "answer res \<Rightarrow> Response" where
  "encodeResponse r =
     (case r of
        Inl err \<Rightarrow>
          (case as_knx err of
             Some (code, message) \<Rightarrow> \<lparr>resp_ErrorCode = Some code, resp_Message = message, resp_Data = NoData\<rparr>
           | None \<Rightarrow> \<lparr>resp_ErrorCode = Some ErrCodeInternal, resp_Message = error_text err, resp_Data = NoData\<rparr>)
      | Inr data \<Rightarrow> \<lparr>resp_ErrorCode = None, resp_Message = [], resp_Data = data\<rparr>)"

definition DecodeResult :: "Response \<Rightarrow> answer res" where
  "DecodeResult resp =
     (case resp_ErrorCode resp of Some code \<Rightarrow> Inl (New code (resp_Message resp)) | None \<Rightarrow> Inr (resp_Data resp))"

definition Handle :: "vault_lib \<Rightarrow> uuid_source \<Rightarrow> go_time \<Rightarrow> Command \<Rightarrow> Store \<Rightarrow> Response \<times> Store" where
  "Handle lib draw now cmd s = (case storeHandlers lib draw now cmd s of (r, s') \<Rightarrow> (encodeResponse r, s'))"

definition Lookup :: "vault_lib \<Rightarrow> uuid_source \<Rightarrow> go_time \<Rightarrow> Command \<Rightarrow> Store \<Rightarrow> Response \<times> Store" where
  "Lookup lib draw now query s =
     (if \<not> IsReadOnlyOp query
      then (encodeResponse (Inl (New ErrCodeValidation ''write command not allowed on read path'')), s)
      else Handle lib draw now query s)"

section \<open>The state machine\<close>

definition SM_Update :: "('b \<Rightarrow> Command res) \<Rightarrow> vault_lib \<Rightarrow> uuid_source \<Rightarrow> go_time \<Rightarrow> 'b \<Rightarrow> Store \<Rightarrow> Response res \<times> Store" where
  "SM_Update decodeCommand lib draw now data s =
     (case decodeCommand data of
        Inl err \<Rightarrow> (Inl err, s)
      | Inr cmd \<Rightarrow> (case Handle lib draw now cmd s of (resp, s') \<Rightarrow> (Inr resp, s')))"

text \<open>
  What the JSON encoding with \<^verbatim>\<open>omitempty\<close> does to a snapshot: an empty map comes back as a nil map. The
  fields it concerns are the extensions of SSH roles, the configuration of database roles and the details of audit
  records.
\<close>

definition omit_empty :: "'a list option \<Rightarrow> 'a list option" where
  "omit_empty m = (if m = Some [] then None else m)"

definition snapshot_wire :: "Snapshot \<Rightarrow> Snapshot" where
  "snapshot_wire s = s\<lparr>
     sn_DBRoles := map (\<lambda>r. r\<lparr>dbr_Config := omit_empty (dbr_Config r)\<rparr>) (sn_DBRoles s),
     sn_SSHRoles := map (\<lambda>r. r\<lparr>shr_Extensions := omit_empty (shr_Extensions r)\<rparr>) (sn_SSHRoles s),
     sn_Audit := map (\<lambda>r. r\<lparr>aur_Details := omit_empty (aur_Details r)\<rparr>) (sn_Audit s)\<rparr>"

definition SaveSnapshot :: "go_time \<Rightarrow> Store \<Rightarrow> Snapshot res" where
  "SaveSnapshot now s = (case ExportSnapshot now True s of Inl err \<Rightarrow> Inl err | Inr sn \<Rightarrow> Inr (snapshot_wire sn))"

definition RecoverFromSnapshot :: "vault_lib \<Rightarrow> uuid_source \<Rightarrow> Snapshot \<Rightarrow> Store \<Rightarrow> error option \<times> Store" where
  "RecoverFromSnapshot lib draw sn s = ImportSnapshot lib draw sn s"

end
