(* ===== verification/Replication.thy ===== *)
theory Replication
  imports RaftStore
begin

text \<open>
  What replication relies on: the read path changes nothing, every command keeps the store well formed,
  and a command that brings its identifiers and instants has the same effect on every replica.
\<close>

section \<open>The read path\<close>

lemma snd_found [simp]: "snd (found s ans r) = s"
  by (auto simp: found_def split: sum.splits)

lemma read_only_pure: "IsReadOnlyOp cmd \<Longrightarrow> snd (storeHandlers lib draw now cmd s) = s"
  by (cases cmd) (simp_all add: handler_defs)

text \<open>
  C29. A query on the read path never changes the store, whatever the command; a command that is not read-only
  is refused there.
\<close>
theorem Lookup_pure:
  "snd (Lookup lib draw now query s) = s \<and>
   (IsReadOnlyOp query \<or>
    fst (Lookup lib draw now query s) =
      \<lparr>resp_ErrorCode = Some ErrCodeValidation, resp_Message = ''write command not allowed on read path'', resp_Data = NoData\<rparr>)"
proof (cases "IsReadOnlyOp query")
  case True
  then show ?thesis using read_only_pure [OF True, of lib draw now s]
    by (cases "storeHandlers lib draw now query s") (simp add: Lookup_def Handle_def)
next
  case False
  then show ?thesis by (simp add: Lookup_def encodeResponse_def)
qed

section \<open>Well-formed stores\<close>

definition ca_names_ok :: "CA table \<Rightarrow> bool" where
  "ca_names_ok r \<longleftrightarrow> (\<forall>(k, c) \<in> set r. \<forall>(k', c') \<in> set r. ca_Name c = ca_Name c' \<longrightarrow> k = k')"

definition secrets_ok :: "secret_store \<Rightarrow> bool" where
  "secrets_ok r \<longleftrightarrow> store_wf r \<and> (\<forall>(k, sv) \<in> set r. SecretVersion_Validate sv = Inr ())"

definition entries_ok :: "audit_log \<Rightarrow> bool" where
  "entries_ok l \<longleftrightarrow> map ae_ID (fst l) = [1..int (length (fst l))] \<and> snd l = int (length (fst l)) + 1 \<and>
     (\<forall>e \<in> set (fst l). Entry_Validate e = Inr ())"

text \<open>The two indexes of the revocations agree.\<close>

definition revocations_ok :: "revocations \<Rightarrow> bool" where
  "revocations_ok r \<longleftrightarrow>
     (\<forall>(serial, c) \<in> set (rv_serial r). rcert_Serial c = serial \<and> c \<in> set (revoked_of (rcert_CAID c) r)) \<and>
     (\<forall>(caID, l) \<in> set (rv_byCA r).
        distinct l \<and> (\<forall>c \<in> set l. rcert_CAID c = caID \<and> map_of (rv_serial r) (rcert_Serial c) = Some c)) \<and>
     distinct (map fst (rv_serial r)) \<and> distinct (map fst (rv_byCA r))"

definition ca_table_ok :: "CA table \<Rightarrow> bool" where
  "ca_table_ok r \<longleftrightarrow> table_ok ca_ID (\<lambda>c. CA_Validate c = None) r \<and> ca_names_ok r"

definition repos_ok :: "vault_lib \<Rightarrow> Repos \<Rightarrow> bool" where
  "repos_ok lib r \<longleftrightarrow>
     (\<exists>t. rp_CA r = Some t \<and> ca_table_ok t) \<and>
     (\<exists>t. rp_Secret r = Some t \<and> secrets_ok t) \<and>
     (\<exists>t. rp_Audit r = Some t \<and> entries_ok t) \<and>
     (\<exists>t. rp_Revoke r = Some t \<and> revocations_ok t) \<and>
     (\<exists>t. rp_Lease r = Some t \<and> table_ok le_ID (\<lambda>l. Lease_Validate l = None) t) \<and>
     (\<exists>t. rp_Policy r = Some t \<and> table_ok pol_Name (\<lambda>p. Policy_Validate p = Inr ()) t) \<and>
     (\<exists>t. rp_Role r = Some t \<and> table_ok role_Name (\<lambda>r. Role_Validate r = None) t) \<and>
     (\<exists>t. rp_PKIRole r = Some t \<and> table_ok pkr_Name (\<lambda>r. PKIRole_Validate r = Inr r) t) \<and>
     (\<exists>t. rp_DBRole r = Some t \<and> table_ok db_Name (\<lambda>r. DatabaseRole_Validate (vl_url_password lib) r = Inr r) t) \<and>
     (\<exists>t. rp_SSHRole r = Some t \<and> table_ok sh_Name (\<lambda>r. SSHRole_Validate r = Inr r) t) \<and>
     (\<exists>t. rp_IssuedCert r = Some t \<and> table_ok cert_key_of (\<lambda>c. IssuedCertificate_Validate c = None) t) \<and>
     (\<exists>t. rp_Token r = Some t \<and> table_ok ct_ID (\<lambda>t. ct_ID t \<noteq> []) t)"

definition store_ok :: "vault_lib \<Rightarrow> Store \<Rightarrow> bool" where
  "store_ok lib s \<longleftrightarrow> repos_ok lib (Store_Repos s) \<and>
     table_ok mi_ID (\<lambda>m. MachineIdentity_Validate m = None) (st_MachineIdentity s) \<and>
     table_ok rot_Path (\<lambda>p. RotationPolicy_Validate p = None) (st_RotationPolicy s)"

lemmas store_ok_defs = store_ok_def repos_ok_def Store_Repos_def

lemma table_ok_Nil [simp]: "table_ok key valid []"
  by (simp add: table_ok_def)

lemma NewStore_ok: "store_ok lib NewStore"
  by (simp add: store_ok_defs NewStore_def ca_table_ok_def ca_names_ok_def secrets_ok_def store_wf_def NewSecretRepository_def
      entries_ok_def NewAuditRepository_def revocations_ok_def NewRevocationRepository_def)

section \<open>The repositories keep their tables well formed\<close>

lemma table_ok_removed: "table_ok key valid t \<Longrightarrow> table_ok key valid (AList.delete k t)"
  unfolding table_ok_def by (intro conjI distinct_delete) (auto simp: AList.delete_eq)

lemma CA_Save_ok: "ca_table_ok r \<Longrightarrow> CARepository_Save ca r = Inr r' \<Longrightarrow> ca_table_ok r'"
proof -
  assume ok: "ca_table_ok r" and s: "CARepository_Save ca r = Inr r'"
  have v: "CA_Validate ca = None" and r': "r' = AList.update (ca_ID ca) ca r"
    and nm: "\<And>k c. (k, c) \<in> set r \<Longrightarrow> ca_Name c = ca_Name ca \<Longrightarrow> ca_ID c = ca_ID ca"
    using s by (auto simp: CARepository_Save_def list_ex_iff split: option.splits if_splits)
  have sub: "set r' \<subseteq> insert (ca_ID ca, ca) (set r)" using set_update_subset r' by metis
  have key: "k = ca_ID c" "CA_Validate c = None" if "(k, c) \<in> set r" for k c
    using ok that by (auto simp: ca_table_ok_def table_ok_def)
  have "distinct (map fst r')" using ok by (simp add: r' ca_table_ok_def table_ok_def distinct_update)
  moreover have "k = ca_ID c \<and> CA_Validate c = None" if "(k, c) \<in> set r'" for k c
    using that sub key v by blast
  ultimately have "table_ok ca_ID (\<lambda>c. CA_Validate c = None) r'" unfolding table_ok_def by blast
  moreover have "ca_names_ok r'"
    unfolding ca_names_ok_def
  proof (clarify)
    fix k c k' c' assume "(k, c) \<in> set r'" "(k', c') \<in> set r'" "ca_Name c = ca_Name c'"
    then consider "(k, c) = (ca_ID ca, ca)" "(k', c') \<in> set r" | "(k', c') = (ca_ID ca, ca)" "(k, c) \<in> set r" | "k = k'"
      | "(k, c) \<in> set r" "(k', c') \<in> set r" using sub by blast
    then show "k = k'"
    proof cases
      case 4
      then show ?thesis using ok \<open>ca_Name c = ca_Name c'\<close> unfolding ca_table_ok_def ca_names_ok_def by blast
    qed (use nm key \<open>ca_Name c = ca_Name c'\<close> in auto)
  qed
  ultimately show ?thesis by (simp add: ca_table_ok_def)
qed

lemma secrets_ok_update:
  "secrets_ok r \<Longrightarrow> SecretVersion_Validate sv = Inr () \<Longrightarrow> sv_Path sv = p \<Longrightarrow> sv_Version sv = v \<Longrightarrow>
   secrets_ok (AList.update (p, v) sv r)"
  using set_update_subset [of "(p, v)" sv r]
  by (fastforce simp: secrets_ok_def SecretVersion_Validate_def intro: store_wf_update split: if_splits)

lemma secrets_ok_delete: "secrets_ok r \<Longrightarrow> secrets_ok (AList.delete k r)"
  unfolding secrets_ok_def by (intro conjI store_wf_delete) (auto simp: AList.delete_eq)

lemma secrets_ok_trim: "secrets_ok r \<Longrightarrow> secrets_ok (trimVersionsLocked p m r)"
proof -
  have "secrets_ok r \<Longrightarrow> secrets_ok (fold (\<lambda>v. AList.delete (p, v)) vs r)" for vs
    by (induction vs arbitrary: r) (auto intro: secrets_ok_delete)
  then show "secrets_ok r \<Longrightarrow> ?thesis" by (simp add: trimVersionsLocked_def Let_def)
qed

lemma secrets_ok_lookup: "secrets_ok r \<Longrightarrow> map_of r (p, v) = Some sv \<Longrightarrow>
    SecretVersion_Validate sv = Inr () \<and> sv_Path sv = p \<and> sv_Version sv = v"
  by (fastforce simp: secrets_ok_def store_wf_def dest!: map_of_SomeD)

lemma SaveVersion_ok: "secrets_ok r \<Longrightarrow> SaveVersion sv r = Inr r' \<Longrightarrow> secrets_ok r'"
  by (auto simp: SaveVersion_def Let_def intro!: secrets_ok_update split: sum.splits if_splits)

lemma PutAtomic_ok: "secrets_ok r \<Longrightarrow> PutAtomic sv cas mx r = Inr (v, r') \<Longrightarrow> secrets_ok r'"
  by (auto simp: PutAtomic_def Let_def intro!: secrets_ok_update secrets_ok_trim split: sum.splits if_splits)

lemma UpdateDEKEnc_ok:
  assumes "secrets_ok r" "UpdateDEKEnc p v d r = Inr r'" shows "secrets_ok r'"
proof -
  obtain sv where sv: "map_of r (p, v) = Some sv" "d \<noteq> []" "r' = AList.update (p, v) (sv\<lparr>sv_DEKEnc := d\<rparr>) r"
    using assms(2) by (auto simp: UpdateDEKEnc_def split: if_splits option.splits)
  show ?thesis unfolding sv(3) using secrets_ok_lookup [OF assms(1) sv(1)] sv(2)
    by (intro secrets_ok_update [OF assms(1)]) (auto simp: SecretVersion_Validate_def split: if_splits)
qed

lemma DestroyVersion_ok:
  assumes "secrets_ok r" "DestroyVersion p v r = Inr r'" shows "secrets_ok r'"
proof -
  obtain sv where sv: "map_of r (p, v) = Some sv" "r' = AList.update (p, v) (sv\<lparr>sv_Destroyed := True\<rparr>) r"
    using assms(2) by (auto simp: DestroyVersion_def split: if_splits option.splits)
  show ?thesis unfolding sv(2) using secrets_ok_lookup [OF assms(1) sv(1)]
    by (intro secrets_ok_update [OF assms(1)]) (auto simp: SecretVersion_Validate_def split: if_splits)
qed

lemma Append_keeps: "entries_ok l \<Longrightarrow> Append e l = Inr l' \<Longrightarrow> entries_ok l'"
  by (auto simp: entries_ok_def Append_def Entry_Validate_def upto_rec2 split: sum.splits if_splits)

lemma audit_append_ok: "entries_ok l \<Longrightarrow> handleAuditAppend m now e l = Inr l' \<Longrightarrow> entries_ok l'"
  by (auto simp: handleAuditAppend_def Let_def split: sum.splits intro: Append_keeps)

lemma Revoke_ok:
  assumes "revocations_ok r" "RevocationRepository_Revoke c r = Inr r'" shows "revocations_ok r'"
proof (cases "map_of (rv_serial r) (rcert_Serial c)")
  case (Some x)
  then show ?thesis using assms by (simp add: RevocationRepository_Revoke_def)
next
  case None
  let ?l = "revoked_of (rcert_CAID c) r @ [c]"
  have r': "r' = \<lparr>rv_serial = AList.update (rcert_Serial c) c (rv_serial r), rv_byCA = AList.update (rcert_CAID c) ?l (rv_byCA r)\<rparr>"
    using assms(2) None by (simp add: RevocationRepository_Revoke_def)
  have of': "revoked_of i r' = (if i = rcert_CAID c then ?l else revoked_of i r)" for i
    by (simp add: r' revoked_of_def update_conv)
  have s': "map_of (rv_serial r') k = (if k = rcert_Serial c then Some c else map_of (rv_serial r) k)" for k
    by (simp add: r' update_conv)
  have old: "x \<in> set (revoked_of i r) \<Longrightarrow> rcert_CAID x = i \<and> map_of (rv_serial r) (rcert_Serial x) = Some x" for x i
    using assms(1) unfolding revocations_ok_def revoked_of_def
    by (auto split: option.splits dest!: map_of_SomeD)
  have old_distinct: "distinct (revoked_of i r)" for i
    using assms(1) unfolding revocations_ok_def revoked_of_def
    by (auto split: option.splits dest!: map_of_SomeD)
  have c_fresh: "c \<notin> set (revoked_of i r)" for i using old [of c i] None by auto
  have mem: "i = rcert_CAID c \<and> l = ?l \<or> (i, l) \<in> set (rv_byCA r)" if "(i, l) \<in> set (rv_byCA r')" for i l
    using that set_update_subset [of "rcert_CAID c" ?l "rv_byCA r"] by (auto simp: r')
  have ser: "k = rcert_Serial c \<and> x = c \<or> (k, x) \<in> set (rv_serial r)" if "(k, x) \<in> set (rv_serial r')" for k x
    using that set_update_subset [of "rcert_Serial c" c "rv_serial r"] by (auto simp: r')
  have keep: "map_of (rv_serial r') (rcert_Serial x) = Some x" if "map_of (rv_serial r) (rcert_Serial x) = Some x" for x
    using that None by (auto simp: s')
  show ?thesis
    unfolding revocations_ok_def
  proof (intro conjI)
    show "\<forall>(serial, x) \<in> set (rv_serial r'). rcert_Serial x = serial \<and> x \<in> set (revoked_of (rcert_CAID x) r')"
      using ser assms(1) unfolding revocations_ok_def of' by fastforce
    have dist: "distinct l" if "(i, l) \<in> set (rv_byCA r')" for i l
      using mem [OF that] old_distinct c_fresh assms(1) unfolding revocations_ok_def by fastforce
    have "rcert_CAID x = i \<and> map_of (rv_serial r') (rcert_Serial x) = Some x"
      if in_l: "(i, l) \<in> set (rv_byCA r')" "x \<in> set l" for i l x
    proof -
      consider "x = c" "i = rcert_CAID c" | "x \<in> set (revoked_of i r)" | "(i, l) \<in> set (rv_byCA r)" "x \<in> set l"
        using mem in_l by fastforce
      then show ?thesis
      proof cases
        case 3
        then show ?thesis using keep assms(1) unfolding revocations_ok_def by blast
      qed (use old keep in \<open>auto simp: s'\<close>)
    qed
    then show "\<forall>(i, l) \<in> set (rv_byCA r'). distinct l \<and> (\<forall>x \<in> set l. rcert_CAID x = i \<and> map_of (rv_serial r') (rcert_Serial x) = Some x)"
      using dist by blast
    show "distinct (map fst (rv_serial r'))" "distinct (map fst (rv_byCA r'))"
      using assms(1) by (auto simp: r' revocations_ok_def distinct_update)
  qed
qed

section \<open>Every command keeps the store well formed\<close>

text \<open>A repository of a well-formed store may be replaced by a well-formed one.\<close>

lemma store_ok_update:
  assumes "store_ok lib s"
  shows
    "\<And>t. ca_table_ok t \<Longrightarrow> store_ok lib (s\<lparr>st_CA := t\<rparr>)"
    "\<And>t. secrets_ok t \<Longrightarrow> store_ok lib (s\<lparr>st_Secret := t\<rparr>)"
    "\<And>t. entries_ok t \<Longrightarrow> store_ok lib (s\<lparr>st_Audit := t\<rparr>)"
    "\<And>t. revocations_ok t \<Longrightarrow> store_ok lib (s\<lparr>st_Revoke := t\<rparr>)"
    "\<And>t. table_ok le_ID (\<lambda>l. Lease_Validate l = None) t \<Longrightarrow> store_ok lib (s\<lparr>st_Lease := t\<rparr>)"
    "\<And>t. table_ok pol_Name (\<lambda>p. Policy_Validate p = Inr ()) t \<Longrightarrow> store_ok lib (s\<lparr>st_Policy := t\<rparr>)"
    "\<And>t. table_ok role_Name (\<lambda>r. Role_Validate r = None) t \<Longrightarrow> store_ok lib (s\<lparr>st_Role := t\<rparr>)"
    "\<And>t. table_ok pkr_Name (\<lambda>r. PKIRole_Validate r = Inr r) t \<Longrightarrow> store_ok lib (s\<lparr>st_PKIRole := t\<rparr>)"
    "\<And>t. table_ok db_Name (\<lambda>r. DatabaseRole_Validate (vl_url_password lib) r = Inr r) t \<Longrightarrow> store_ok lib (s\<lparr>st_DBRole := t\<rparr>)"
    "\<And>t. table_ok sh_Name (\<lambda>r. SSHRole_Validate r = Inr r) t \<Longrightarrow> store_ok lib (s\<lparr>st_SSHRole := t\<rparr>)"
    "\<And>t. table_ok cert_key_of (\<lambda>c. IssuedCertificate_Validate c = None) t \<Longrightarrow> store_ok lib (s\<lparr>st_IssuedCert := t\<rparr>)"
    "\<And>t. table_ok ct_ID (\<lambda>t. ct_ID t \<noteq> []) t \<Longrightarrow> store_ok lib (s\<lparr>st_Token := t\<rparr>)"
    "\<And>t. table_ok mi_ID (\<lambda>m. MachineIdentity_Validate m = None) t \<Longrightarrow> store_ok lib (s\<lparr>st_MachineIdentity := t\<rparr>)"
    "\<And>t. table_ok rot_Path (\<lambda>p. RotationPolicy_Validate p = None) t \<Longrightarrow> store_ok lib (s\<lparr>st_RotationPolicy := t\<rparr>)"
  using assms by (simp_all add: store_ok_defs)

lemma store_ok_parts:
  assumes "store_ok lib s"
  shows "ca_table_ok (st_CA s)"
    "secrets_ok (st_Secret s)"
    "entries_ok (st_Audit s)"
    "revocations_ok (st_Revoke s)"
    "table_ok le_ID (\<lambda>l. Lease_Validate l = None) (st_Lease s)"
    "table_ok pol_Name (\<lambda>p. Policy_Validate p = Inr ()) (st_Policy s)"
    "table_ok role_Name (\<lambda>r. Role_Validate r = None) (st_Role s)"
    "table_ok pkr_Name (\<lambda>r. PKIRole_Validate r = Inr r) (st_PKIRole s)"
    "table_ok db_Name (\<lambda>r. DatabaseRole_Validate (vl_url_password lib) r = Inr r) (st_DBRole s)"
    "table_ok sh_Name (\<lambda>r. SSHRole_Validate r = Inr r) (st_SSHRole s)"
    "table_ok cert_key_of (\<lambda>c. IssuedCertificate_Validate c = None) (st_IssuedCert s)"
    "table_ok ct_ID (\<lambda>t. ct_ID t \<noteq> []) (st_Token s)"
    "table_ok mi_ID (\<lambda>m. MachineIdentity_Validate m = None) (st_MachineIdentity s)"
    "table_ok rot_Path (\<lambda>p. RotationPolicy_Validate p = None) (st_RotationPolicy s)"
  using assms by (simp_all add: store_ok_defs)

lemma wrote_ok: "store_ok lib s \<Longrightarrow> (\<And>t. r = Inr t \<Longrightarrow> store_ok lib (put t)) \<Longrightarrow> store_ok lib (snd (wrote s put r))"
  by (auto simp: wrote_def split: sum.splits)

lemma table_delete_Inr: "table_delete err k t = Inr t' \<Longrightarrow> t' = AList.delete k t"
  by (auto simp: table_delete_def split: if_splits)

text \<open>An entry that is modified keeping its key and its validity.\<close>

lemma table_ok_modify:
  assumes "table_ok key valid t" "map_of t k = Some v" "key v' = key v" "valid v \<Longrightarrow> valid v'"
  shows "table_ok key valid (AList.update k v' t)"
proof -
  have k: "k = key v'" "valid v'" using assms by (auto simp: table_ok_def dest!: map_of_SomeD)
  show ?thesis using assms(1) k(2) set_update_subset [of k v' t] unfolding k(1) table_ok_def by (fastforce simp: distinct_update)
qed

lemma Validate_revoked [simp]:
  "Lease_Validate (l\<lparr>le_RevokedAt := x\<rparr>) = Lease_Validate l" "MachineIdentity_Validate (m\<lparr>mi_Revoked := b\<rparr>) = MachineIdentity_Validate m"
  by (simp_all add: Lease_Validate_def MachineIdentity_Validate_def)

lemma Lease_Revoke_ok: "table_ok le_ID (\<lambda>l. Lease_Validate l = None) t \<Longrightarrow> LeaseRepository_Revoke i r t = Inr t' \<Longrightarrow> table_ok le_ID (\<lambda>l. Lease_Validate l = None) t'"
  unfolding LeaseRepository_Revoke_def by (cases "map_of t i") (auto elim!: table_ok_modify)

lemma Token_Revoke_ok: "table_ok ct_ID (\<lambda>t. ct_ID t \<noteq> []) t \<Longrightarrow> TokenRepository_Revoke i r t = Inr t' \<Longrightarrow> table_ok ct_ID (\<lambda>t. ct_ID t \<noteq> []) t'"
  unfolding TokenRepository_Revoke_def by (cases "map_of t i") (auto elim!: table_ok_modify)

lemma Machine_Revoke_ok: "table_ok mi_ID (\<lambda>m. MachineIdentity_Validate m = None) t \<Longrightarrow> MachineIdentityRepository_Revoke i t = Inr t' \<Longrightarrow> table_ok mi_ID (\<lambda>m. MachineIdentity_Validate m = None) t'"
  unfolding MachineIdentityRepository_Revoke_def by (cases "map_of t i") (auto elim!: table_ok_modify)

section \<open>A restore builds a well-formed store\<close>

lemma save_all_inv:
  assumes "\<And>v t t'. P t \<Longrightarrow> save v t = Inr t' \<Longrightarrow> P t'" "P t" shows "P (snd (save_all save vs t))"
  using assms(2) by (induction vs arbitrary: t) (auto split: sum.splits intro: assms(1))

lemma restore_loop_ok:
  assumes "\<And>v t t'. P t \<Longrightarrow> save v t = Inr t' \<Longrightarrow> P t'" "I rs" "\<And>t. get rs = Some t \<Longrightarrow> P t"
    and "\<And>t. P t \<Longrightarrow> I (put (Some t) rs)"
  shows "I (snd (restore_loop msg save vs get put rs))"
proof (cases "get rs")
  case None
  then show ?thesis using assms(2) by (simp add: restore_loop_def)
next
  case (Some t)
  have "P (snd (save_all save vs t))" using save_all_inv [of P save t vs] assms(1,3) Some by blast
  then show ?thesis using Some assms(4) by (cases "save_all save vs t") (simp add: restore_loop_def)
qed

lemma run_all_inv: "(\<And>f s. f \<in> set fs \<Longrightarrow> I s \<Longrightarrow> I (snd (f s))) \<Longrightarrow> I s \<Longrightarrow> I (snd (run_all fs s))"
proof (induction fs arbitrary: s)
  case (Cons f fs)
  then have "I (snd (f s))" by simp
  then show ?case using Cons by (cases "f s"; cases "fst (f s)") auto
qed simp

lemma policy_draw_ok: "table_ok pol_Name (\<lambda>p. Policy_Validate p = Inr ()) t \<Longrightarrow> PolicyRepository_Save (draw (pol_Name p)) p t = Inr t' \<Longrightarrow>
    table_ok pol_Name (\<lambda>p. Policy_Validate p = Inr ()) t'"
  by (rule policy_table.Save_table_ok)

lemmas save_ok = CA_Save_ok SaveVersion_ok Append_keeps Revoke_ok lease_table.Save_table_ok policy_draw_ok role_tbl.Save_table_ok
  pki_role_table.Save_table_ok db_role_table.Save_table_ok ssh_role_table.Save_table_ok issued_table.Save_table_ok
  token_tbl.Save_table_ok machine_table.Save_table_ok rotation_table.Save_table_ok

lemma repos_ok_part:
  assumes "repos_ok lib rs"
  shows "\<And>t. rp_CA rs = Some t \<Longrightarrow> ca_table_ok t"
    "\<And>t. rp_Secret rs = Some t \<Longrightarrow> secrets_ok t"
    "\<And>t. rp_Audit rs = Some t \<Longrightarrow> entries_ok t"
    "\<And>t. rp_Revoke rs = Some t \<Longrightarrow> revocations_ok t"
    "\<And>t. rp_Lease rs = Some t \<Longrightarrow> table_ok le_ID (\<lambda>l. Lease_Validate l = None) t"
    "\<And>t. rp_Policy rs = Some t \<Longrightarrow> table_ok pol_Name (\<lambda>p. Policy_Validate p = Inr ()) t"
    "\<And>t. rp_Role rs = Some t \<Longrightarrow> table_ok role_Name (\<lambda>r. Role_Validate r = None) t"
    "\<And>t. rp_PKIRole rs = Some t \<Longrightarrow> table_ok pkr_Name (\<lambda>r. PKIRole_Validate r = Inr r) t"
    "\<And>t. rp_DBRole rs = Some t \<Longrightarrow> table_ok db_Name (\<lambda>r. DatabaseRole_Validate (vl_url_password lib) r = Inr r) t"
    "\<And>t. rp_SSHRole rs = Some t \<Longrightarrow> table_ok sh_Name (\<lambda>r. SSHRole_Validate r = Inr r) t"
    "\<And>t. rp_IssuedCert rs = Some t \<Longrightarrow> table_ok cert_key_of (\<lambda>c. IssuedCertificate_Validate c = None) t"
    "\<And>t. rp_Token rs = Some t \<Longrightarrow> table_ok ct_ID (\<lambda>t. ct_ID t \<noteq> []) t"
  using assms by (simp_all add: repos_ok_def)

lemma repos_ok_update:
  assumes "repos_ok lib rs"
  shows "\<And>t. ca_table_ok t \<Longrightarrow> repos_ok lib (rs\<lparr>rp_CA := Some t\<rparr>)"
    "\<And>t. secrets_ok t \<Longrightarrow> repos_ok lib (rs\<lparr>rp_Secret := Some t\<rparr>)"
    "\<And>t. entries_ok t \<Longrightarrow> repos_ok lib (rs\<lparr>rp_Audit := Some t\<rparr>)"
    "\<And>t. revocations_ok t \<Longrightarrow> repos_ok lib (rs\<lparr>rp_Revoke := Some t\<rparr>)"
    "\<And>t. table_ok le_ID (\<lambda>l. Lease_Validate l = None) t \<Longrightarrow> repos_ok lib (rs\<lparr>rp_Lease := Some t\<rparr>)"
    "\<And>t. table_ok pol_Name (\<lambda>p. Policy_Validate p = Inr ()) t \<Longrightarrow> repos_ok lib (rs\<lparr>rp_Policy := Some t\<rparr>)"
    "\<And>t. table_ok role_Name (\<lambda>r. Role_Validate r = None) t \<Longrightarrow> repos_ok lib (rs\<lparr>rp_Role := Some t\<rparr>)"
    "\<And>t. table_ok pkr_Name (\<lambda>r. PKIRole_Validate r = Inr r) t \<Longrightarrow> repos_ok lib (rs\<lparr>rp_PKIRole := Some t\<rparr>)"
    "\<And>t. table_ok db_Name (\<lambda>r. DatabaseRole_Validate (vl_url_password lib) r = Inr r) t \<Longrightarrow> repos_ok lib (rs\<lparr>rp_DBRole := Some t\<rparr>)"
    "\<And>t. table_ok sh_Name (\<lambda>r. SSHRole_Validate r = Inr r) t \<Longrightarrow> repos_ok lib (rs\<lparr>rp_SSHRole := Some t\<rparr>)"
    "\<And>t. table_ok cert_key_of (\<lambda>c. IssuedCertificate_Validate c = None) t \<Longrightarrow> repos_ok lib (rs\<lparr>rp_IssuedCert := Some t\<rparr>)"
    "\<And>t. table_ok ct_ID (\<lambda>t. ct_ID t \<noteq> []) t \<Longrightarrow> repos_ok lib (rs\<lparr>rp_Token := Some t\<rparr>)"
  using assms by (simp_all add: repos_ok_def)

lemma restore_loops_ok:
  assumes "f \<in> set (restore_loops lib draw sn)" "repos_ok lib rs"
  shows "repos_ok lib (snd (f rs))"
  using assms unfolding restore_loops_def list.set
  by (elim insertE emptyE)
    (hypsubst, rule restore_loop_ok, erule (1) save_ok, assumption, erule (1) repos_ok_part, erule (1) repos_ok_update)+

lemma ClearRepos_ok: "repos_ok lib (ClearRepos (Store_Repos s))"
  by (simp add: repos_ok_def ClearRepos_def Store_Repos_def ca_table_ok_def ca_names_ok_def secrets_ok_def store_wf_def
      entries_ok_def revocations_ok_def CARepository_Clear_def SecretRepository_Clear_def AuditRepository_Clear_def
      RevocationRepository_Clear_def LeaseRepository_Clear_def PolicyRepository_Clear_def RoleRepository_Clear_def
      PKIRoleRepository_Clear_def DatabaseRoleRepository_Clear_def SSHRoleRepository_Clear_def
      IssuedCertRepository_Clear_def TokenRepository_Clear_def)

lemma Restore_repos_ok:
  assumes "Restore lib draw sn (Store_Repos s) = (None, rs)" shows "repos_ok lib rs"
proof -
  have "run_all (restore_loops lib draw sn) (ClearRepos (Store_Repos s)) = (None, rs)"
    using assms by (simp add: Restore_def Store_Repos_def split: option.splits)
  then show ?thesis using run_all_inv [of "restore_loops lib draw sn" "repos_ok lib"] restore_loops_ok ClearRepos_ok by (metis snd_conv)
qed

lemma through_repos_ok: "repos_ok lib rs \<Longrightarrow> store_ok lib (through_repos NewStore rs)"
  unfolding repos_ok_def store_ok_defs through_repos_def NewStore_def by (elim conjE exE) simp

lemma ImportSnapshot_ok:
  assumes "store_ok lib s" shows "store_ok lib (snd (ImportSnapshot lib draw sn s))"
proof (cases "ValidateSnapshot (vl_Marshal lib) sn")
  case None
  obtain e rs where r: "Restore lib draw sn (Store_Repos NewStore) = (e, rs)" by fastforce
  show ?thesis
  proof (cases e)
    assume "e = None"
    then show ?thesis
      using through_repos_ok [OF Restore_repos_ok] r None by (simp add: ImportSnapshot_def)
  qed (simp add: ImportSnapshot_def r None assms)
qed (simp add: ImportSnapshot_def assms)

section \<open>Every handler keeps the store well formed\<close>

lemma Delete_ok:
  "table_ok pol_Name v1 t1 \<Longrightarrow> PolicyRepository_Delete n t1 = Inr t1' \<Longrightarrow> table_ok pol_Name v1 t1'"
  "table_ok role_Name v2 t2 \<Longrightarrow> RoleRepository_Delete n t2 = Inr t2' \<Longrightarrow> table_ok role_Name v2 t2'"
  "table_ok db_Name v3 t3 \<Longrightarrow> DatabaseRoleRepository_Delete n t3 = Inr t3' \<Longrightarrow> table_ok db_Name v3 t3'"
  "table_ok sh_Name v4 t4 \<Longrightarrow> SSHRoleRepository_Delete n t4 = Inr t4' \<Longrightarrow> table_ok sh_Name v4 t4'"
  "table_ok rot_Path v5 t5 \<Longrightarrow> RotationPolicyRepository_Delete n t5 = Inr t5' \<Longrightarrow> table_ok rot_Path v5 t5'"
  using table_ok_removed
  by (auto simp: PolicyRepository_Delete_def RoleRepository_Delete_def DatabaseRoleRepository_Delete_def
      SSHRoleRepository_Delete_def RotationPolicyRepository_Delete_def dest!: table_delete_Inr)

lemmas write_ok = save_ok UpdateDEKEnc_ok DestroyVersion_ok Lease_Revoke_ok Token_Revoke_ok Machine_Revoke_ok Delete_ok

text \<open>The handlers that answer with a value.\<close>

lemma handlers_with_answer_ok:
  assumes "store_ok lib s"
  shows "store_ok lib (snd (handleSecretPut sv cas mx s))" "store_ok lib (snd (handlePKIRoleSave role s))"
    "store_ok lib (snd (handle_audit_append lib now e s))" "store_ok lib (snd (handlePolicySave draw pol s))"
    "store_ok lib (snd (handleImportSnapshot lib draw sn s))"
proof -
  show "store_ok lib (snd (handleSecretPut sv cas mx s))"
    using assms store_ok_update(2) [OF assms] PutAtomic_ok [OF store_ok_parts(2) [OF assms]]
    by (auto simp: handleSecretPut_def split: sum.splits prod.splits)
  show "store_ok lib (snd (handlePKIRoleSave role s))"
    using assms store_ok_update(8) [OF assms] pki_role_table.Save_table_ok [OF store_ok_parts(8) [OF assms]]
    by (auto simp: handlePKIRoleSave_def split: sum.splits)
  show "store_ok lib (snd (handle_audit_append lib now e s))"
    using assms store_ok_update(3) [OF assms] audit_append_ok [OF store_ok_parts(3) [OF assms]]
    by (auto simp: handle_audit_append_def split: sum.splits)
  show "store_ok lib (snd (handlePolicySave draw pol s))"
    using assms store_ok_update(6) [OF assms] policy_draw_ok [OF store_ok_parts(6) [OF assms]]
    by (auto simp: handlePolicySave_def split: sum.splits)
  show "store_ok lib (snd (handleImportSnapshot lib draw sn s))"
    using ImportSnapshot_ok [OF assms, of draw sn] by (auto simp: handleImportSnapshot_def split: prod.splits option.splits)
qed

lemma handlers_ok: "store_ok lib s \<Longrightarrow> store_ok lib (snd (storeHandlers lib draw now cmd s))"
proof (cases "IsReadOnlyOp cmd")
  case True
  then show "store_ok lib s \<Longrightarrow> ?thesis" using read_only_pure by simp
next
  case False
  assume ok: "store_ok lib s"
  note answer = handlers_with_answer_ok [OF ok]
  have step: "store_ok lib (snd (wrote s put r))" if "\<And>t. r = Inr t \<Longrightarrow> store_ok lib (put t)" for put :: "'t \<Rightarrow> Store" and r
    using wrote_ok [OF ok that] .
  show ?thesis
    using False
  proof (cases cmd)
  qed (simp_all only: storeHandlers.simps answer IsReadOnlyOp.simps not_True_eq_False snd_conv ok,
      (simp only: handler_defs, rule wrote_ok [OF ok], rule store_ok_update [OF ok], rule write_ok, rule store_ok_parts [OF ok], assumption)+)
qed

text \<open>
  C6. Starting from the empty store, after any sequence of commands, with any clock readings and identifiers,
  every repository is well formed: records are stored under their own keys and are valid, names of
  authorities are unique, audit entries are numbered consecutively, the two indexes of the revocations agree.
\<close>
theorem commands_keep_store_ok:
  "store_ok lib (fold (\<lambda>(draw, now, cmd) s. snd (Handle lib draw now cmd s)) steps NewStore)"
proof -
  have "store_ok lib s \<Longrightarrow> store_ok lib (fold (\<lambda>(draw, now, cmd) s. snd (Handle lib draw now cmd s)) steps s)" for s
  proof (induction steps arbitrary: s)
    case (Cons x steps)
    obtain draw now cmd where x: "x = (draw, now, cmd)" by (cases x)
    have "store_ok lib (snd (Handle lib draw now cmd s))"
      using handlers_ok [OF Cons.prems, of draw now cmd] by (cases "storeHandlers lib draw now cmd s") (simp add: Handle_def)
    then show ?case using Cons.IH by (simp add: x)
  qed simp
  then show ?thesis using NewStore_ok .
qed

section \<open>Replicas\<close>

text \<open>
  A replica applies the committed commands in order; its identifiers and clock readings are its own.
\<close>

definition replay :: "vault_lib \<Rightarrow> (uuid_source \<times> go_time) list \<Rightarrow> Command list \<Rightarrow> Store \<Rightarrow> Store" where
  "replay lib envs cmds s = fold (\<lambda>((draw, now), cmd) s. snd (Handle lib draw now cmd s)) (zip envs cmds) s"

definition self_contained :: "Command \<Rightarrow> bool" where
  "self_contained cmd =
     (case cmd of
        OpPolicySave pol \<Rightarrow> pol_ID pol \<noteq> uuid_Nil
      | OpAuditAppend e \<Rightarrow> \<not> IsZero (ae_Timestamp e)
      | OpImportSnapshotCmd sn \<Rightarrow> sn_Policies sn = []
      | _ \<Rightarrow> True)"

lemma restore_loop_Nil: "restore_loop m save [] get put = restore_loop m save' [] get put"
  by (intro ext) (simp add: restore_loop_def split: option.splits)

lemma Restore_draw: "sn_Policies sn = [] \<Longrightarrow> Restore lib draw sn rs = Restore lib draw' sn rs"
proof -
  assume "sn_Policies sn = []"
  then have "restore_loops lib draw sn = restore_loops lib draw' sn"
    unfolding restore_loops_def by (simp only: list.map list.inject simp_thms) (rule restore_loop_Nil)
  then show ?thesis unfolding Restore_def by (simp only:)
qed

lemma self_contained_same:
  assumes "self_contained cmd"
  shows "snd (storeHandlers lib draw now cmd s) = snd (storeHandlers lib draw' now' cmd s)"
proof (cases "IsReadOnlyOp cmd")
  case True
  then show ?thesis using read_only_pure by simp
next
  case False
  show ?thesis
  proof (cases cmd)
    case (OpPolicySave pol)
    then have "with_id (draw (pol_Name pol)) pol = with_id (draw' (pol_Name pol)) pol"
      using assms by (simp add: self_contained_def with_id_def)
    then show ?thesis using OpPolicySave by (simp add: handler_defs PolicyRepository_Save_def split: sum.splits)
  next
    case (OpAuditAppend e)
    then show ?thesis using assms by (simp add: self_contained_def handler_defs handleAuditAppend_def Let_def)
  next
    case (OpImportSnapshotCmd sn)
    then have "sn_Policies sn = []" using assms by (simp add: self_contained_def)
    then have "ImportSnapshot lib draw sn s = ImportSnapshot lib draw' sn s"
      unfolding ImportSnapshot_def by (simp only: Restore_draw [of sn lib draw _ draw'])
    then show ?thesis using OpImportSnapshotCmd by (simp add: handler_defs)
  qed (use False in \<open>simp_all add: handler_defs\<close>)
qed

text \<open>
  C8. Replicas that apply the same commands reach the same store when each policy that is saved has an identifier, each
  audit entry an instant, and no imported snapshot has policies, whatever the replicas' clocks and identifiers.
\<close>
theorem replicas_agree:
  assumes "length envs = length cmds" "length envs' = length cmds" "list_all self_contained cmds"
  shows "replay lib envs cmds s = replay lib envs' cmds s"
  using assms
proof (induction cmds arbitrary: envs envs' s)
  case (Cons cmd cmds)
  obtain d n es d' n' es' where e: "envs = (d, n) # es" "envs' = (d', n') # es'"
    using Cons.prems(1,2) by (cases envs; cases envs') auto
  have "snd (Handle lib d n cmd s) = snd (Handle lib d' n' cmd s)"
    using self_contained_same [of cmd lib d n s d' n'] Cons.prems(3)
    by (cases "storeHandlers lib d n cmd s"; cases "storeHandlers lib d' n' cmd s") (simp add: Handle_def)
  then show ?case using Cons.IH [of es es' "snd (Handle lib d n cmd s)"] Cons.prems by (simp add: replay_def e)
qed (simp add: replay_def)

definition demo_lib :: vault_lib where
  "demo_lib = \<lparr>vl_url_password = \<lambda>_. False, vl_Marshal = \<lambda>_. ''{}''\<rparr>"

definition demo_policy :: Policy where
  "demo_policy = \<lparr>pol_ID = uuid_Nil, pol_Name = ''ops'', pol_Effect = ''allow'', pol_Resources = [''secrets/kv/ops''],
     pol_Actions = [''read''], pol_Capabilities = [], pol_Includes = [], pol_Conditions = Map.empty\<rparr>"

theorem replicas_agree_witness:
  "replay demo_lib [(\<lambda>_. ''a'', 1), (\<lambda>_. ''a'', 2)] [OpPolicySave (demo_policy\<lparr>pol_ID := ''x''\<rparr>), OpPolicyDelete ''ops''] NewStore =
   replay demo_lib [(\<lambda>_. ''b'', 3), (\<lambda>_. ''c'', 4)] [OpPolicySave (demo_policy\<lparr>pol_ID := ''x''\<rparr>), OpPolicyDelete ''ops''] NewStore"
  by (rule replicas_agree) (simp_all add: self_contained_def uuid_Nil_def demo_policy_def)

lemma demo_policy_valid: "Policy_Validate demo_policy = Inr ()"
  by code_simp



end
