(* ===== verification/NamedTables.thy ===== *)
theory NamedTables
  imports Replication
begin

text \<open>
  An abstract specification of the tables that the replicated store keeps under a name or a path
  (policies, roles, database roles, SSH roles, rotation policies): each is a finite map, and a command
  writes, reads, lists or removes an entry of it. The store refines it: whatever sequence of commands
  is served, the answers to the commands of these tables are those of the maps. The locale
  \<open>named_repository\<close> extends the contract of a keyed repository by the order of its listing and by
  its answers, and is interpreted on the five repositories.
\<close>

section \<open>The specification of a table\<close>

datatype 'v call = SaveCall 'v | GetCall string | ListCall | DeleteCall string

text \<open>
  The functions that a table has of its own: what a record is stored as, the error for an invalid
  record and for a missing one, the name of a record, and the answers.
\<close>

record 'v table_sig =
  ts_prep :: "'v \<Rightarrow> 'v res"
  ts_invalid :: "error \<Rightarrow> error"
  ts_missing :: error
  ts_key :: "'v \<Rightarrow> string"
  ts_saved :: "'v \<Rightarrow> answer"
  ts_one :: "'v \<Rightarrow> answer"
  ts_many :: "'v list \<Rightarrow> answer"

fun table_spec :: "'v table_sig \<Rightarrow> 'v call \<Rightarrow> (string \<rightharpoonup> 'v) \<Rightarrow> answer res \<times> (string \<rightharpoonup> 'v)" where
  "table_spec ts (SaveCall v) m =
     (case ts_prep ts v of
        Inl err \<Rightarrow> (Inl (ts_invalid ts err), m)
      | Inr w \<Rightarrow> (Inr (ts_saved ts w), m(ts_key ts w \<mapsto> w)))"
| "table_spec ts (GetCall k) m = (case m k of None \<Rightarrow> Inl (ts_missing ts) | Some v \<Rightarrow> Inr (ts_one ts v), m)"
| "table_spec ts ListCall m = (Inr (ts_many ts (map (the \<circ> m) (sorted_list_of_set (dom m)))), m)"
| "table_spec ts (DeleteCall k) m = (if m k = None then (Inl (ts_missing ts), m) else (Inr NoData, m(k := None)))"

section \<open>The specification of the store\<close>

record vault_maps =
  vm_Policy :: "string \<rightharpoonup> Policy"
  vm_Role :: "string \<rightharpoonup> Role"
  vm_DBRole :: "string \<rightharpoonup> DatabaseRole"
  vm_SSHRole :: "string \<rightharpoonup> SSHRole"
  vm_RotationPolicy :: "string \<rightharpoonup> RotationPolicy"

datatype named_call =
    PolicyCall "Policy call"
  | RoleCall "Role call"
  | DBRoleCall "DatabaseRole call"
  | SSHRoleCall "SSHRole call"
  | RotationCall "RotationPolicy call"

definition named_of :: "Command \<Rightarrow> named_call option" where
  "named_of cmd =
     (case cmd of
        OpPolicySave p \<Rightarrow> Some (PolicyCall (SaveCall p))
      | OpPolicyGet k \<Rightarrow> Some (PolicyCall (GetCall k))
      | OpPolicyList \<Rightarrow> Some (PolicyCall ListCall)
      | OpPolicyDelete k \<Rightarrow> Some (PolicyCall (DeleteCall k))
      | OpRoleSave r \<Rightarrow> Some (RoleCall (SaveCall r))
      | OpRoleGet k \<Rightarrow> Some (RoleCall (GetCall k))
      | OpRoleList \<Rightarrow> Some (RoleCall ListCall)
      | OpRoleDelete k \<Rightarrow> Some (RoleCall (DeleteCall k))
      | OpDBRoleSave r \<Rightarrow> Some (DBRoleCall (SaveCall r))
      | OpDBRoleGet k \<Rightarrow> Some (DBRoleCall (GetCall k))
      | OpDBRoleList \<Rightarrow> Some (DBRoleCall ListCall)
      | OpDBRoleDelete k \<Rightarrow> Some (DBRoleCall (DeleteCall k))
      | OpSSHRoleSave r \<Rightarrow> Some (SSHRoleCall (SaveCall r))
      | OpSSHRoleGet k \<Rightarrow> Some (SSHRoleCall (GetCall k))
      | OpSSHRoleList \<Rightarrow> Some (SSHRoleCall ListCall)
      | OpSSHRoleDelete k \<Rightarrow> Some (SSHRoleCall (DeleteCall k))
      | OpRotationPolicySave r \<Rightarrow> Some (RotationCall (SaveCall r))
      | OpRotationPolicyGet k \<Rightarrow> Some (RotationCall (GetCall k))
      | OpRotationPolicyList \<Rightarrow> Some (RotationCall ListCall)
      | OpRotationPolicyDelete k \<Rightarrow> Some (RotationCall (DeleteCall k))
      | _ \<Rightarrow> None)"

definition policy_sig :: "uuid_source \<Rightarrow> Policy table_sig" where
  "policy_sig draw = \<lparr>ts_prep = \<lambda>p. Policy_prep (draw (pol_Name p)) p, ts_invalid = Wrap ErrCodeValidation ''invalid policy'',
     ts_missing = policy_not_found, ts_key = pol_Name, ts_saved = A_Policy, ts_one = A_Policy, ts_many = A_Policies\<rparr>"

definition role_sig :: "Role table_sig" where
  "role_sig = \<lparr>ts_prep = optional (map_option Plain \<circ> Role_Validate), ts_invalid = Wrap ErrCodeValidation ''invalid role'',
     ts_missing = role_not_found, ts_key = role_Name, ts_saved = \<lambda>_. NoData, ts_one = A_Role, ts_many = A_Roles\<rparr>"

definition db_sig :: "vault_lib \<Rightarrow> DatabaseRole table_sig" where
  "db_sig lib = \<lparr>ts_prep = DatabaseRole_Validate (vl_url_password lib), ts_invalid = Wrap ErrCodeValidation ''invalid database role'',
     ts_missing = db_role_not_found, ts_key = db_Name, ts_saved = \<lambda>_. NoData, ts_one = A_DBRole, ts_many = A_DBRoles\<rparr>"

definition ssh_sig :: "SSHRole table_sig" where
  "ssh_sig = \<lparr>ts_prep = SSHRole_Validate, ts_invalid = Wrap ErrCodeValidation ''invalid ssh role'',
     ts_missing = ssh_role_not_found, ts_key = sh_Name, ts_saved = \<lambda>_. NoData, ts_one = A_SSHRole, ts_many = A_SSHRoles\<rparr>"

definition rotation_sig :: "RotationPolicy table_sig" where
  "rotation_sig = \<lparr>ts_prep = optional RotationPolicy_Validate, ts_invalid = Wrap ErrCodeValidation ''invalid rotation policy'',
     ts_missing = rotation_not_found, ts_key = rot_Path, ts_saved = \<lambda>_. NoData, ts_one = A_Rotation, ts_many = A_Rotations\<rparr>"

fun vault_spec :: "vault_lib \<Rightarrow> uuid_source \<Rightarrow> named_call \<Rightarrow> vault_maps \<Rightarrow> answer res \<times> vault_maps" where
  "vault_spec lib draw (PolicyCall c) m = map_prod id (\<lambda>t. m\<lparr>vm_Policy := t\<rparr>) (table_spec (policy_sig draw) c (vm_Policy m))"
| "vault_spec lib draw (RoleCall c) m = map_prod id (\<lambda>t. m\<lparr>vm_Role := t\<rparr>) (table_spec role_sig c (vm_Role m))"
| "vault_spec lib draw (DBRoleCall c) m = map_prod id (\<lambda>t. m\<lparr>vm_DBRole := t\<rparr>) (table_spec (db_sig lib) c (vm_DBRole m))"
| "vault_spec lib draw (SSHRoleCall c) m = map_prod id (\<lambda>t. m\<lparr>vm_SSHRole := t\<rparr>) (table_spec ssh_sig c (vm_SSHRole m))"
| "vault_spec lib draw (RotationCall c) m =
     map_prod id (\<lambda>t. m\<lparr>vm_RotationPolicy := t\<rparr>) (table_spec rotation_sig c (vm_RotationPolicy m))"

definition abs_maps :: "Store \<Rightarrow> vault_maps" where
  "abs_maps s = \<lparr>vm_Policy = map_of (st_Policy s), vm_Role = map_of (st_Role s), vm_DBRole = map_of (st_DBRole s),
     vm_SSHRole = map_of (st_SSHRole s), vm_RotationPolicy = map_of (st_RotationPolicy s)\<rparr>"

text \<open>
  Serving a sequence of commands, each with the identifiers and the clock of its time, in the store and
  in the specification; the specification says nothing about the answers to other commands.
\<close>

fun serve :: "vault_lib \<Rightarrow> (uuid_source \<times> go_time \<times> Command) list \<Rightarrow> Store \<Rightarrow> Response list \<times> Store" where
  "serve lib [] s = ([], s)"
| "serve lib ((draw, now, cmd) # steps) s =
     (case Handle lib draw now cmd s of (r, s1) \<Rightarrow> (case serve lib steps s1 of (rs, s2) \<Rightarrow> (r # rs, s2)))"

fun serve_spec :: "vault_lib \<Rightarrow> (uuid_source \<times> go_time \<times> Command) list \<Rightarrow> vault_maps \<Rightarrow> Response option list \<times> vault_maps" where
  "serve_spec lib [] m = ([], m)"
| "serve_spec lib ((draw, now, cmd) # steps) m =
     (case named_of cmd of
        None \<Rightarrow> (case serve_spec lib steps m of (rs, m2) \<Rightarrow> (None # rs, m2))
      | Some c \<Rightarrow>
          (case vault_spec lib draw c m of (a, m1) \<Rightarrow>
             (case serve_spec lib steps m1 of (rs, m2) \<Rightarrow> (Some (encodeResponse a) # rs, m2))))"

section \<open>The contract of a named repository\<close>

lemma sort_key_lookup:
  assumes "distinct (map fst t)" "\<forall>(k, v) \<in> set t. k = key v"
  shows "sort_key key (map snd t) = map (the \<circ> map_of t) (sorted_list_of_set (dom (map_of t)))"
proof -
  let ?vs = "sort_key key (map snd t)"
  have keys: "map key (map snd t) = map fst t" using assms(2) by auto
  have perm: "mset (map key ?vs) = mset (map fst t)" by (simp only: keys [symmetric] mset_map mset_sort)
  have "sorted (map key ?vs)" by simp
  moreover have "distinct (map key ?vs)" using mset_eq_imp_distinct_iff [OF perm] assms(1) by blast
  moreover have "set (map key ?vs) = dom (map_of t)" using mset_eq_setD [OF perm] by (simp only: dom_map_of_conv_image_fst list.set_map)
  ultimately have ks: "map key ?vs = sorted_list_of_set (dom (map_of t))"
    using sorted_list_of_set.idem_if_sorted_distinct [of "map key ?vs"] by simp
  have "the (map_of t (key v)) = v" if "v \<in> set ?vs" for v
  proof -
    obtain k where "(k, v) \<in> set t" using \<open>v \<in> _\<close> by auto
    then show ?thesis using assms by (auto simp: map_of_is_SomeI)
  qed
  then have "map (the \<circ> map_of t \<circ> key) ?vs = ?vs" by (intro map_idI) simp
  then show ?thesis unfolding ks [symmetric] by simp
qed

locale named_repository = keyed_repository key valid prep Save Lst
  for key :: "'v \<Rightarrow> string" and valid :: "'v \<Rightarrow> bool" and prep :: "'v \<Rightarrow> 'v res"
    and Save :: "'v \<Rightarrow> 'v table \<Rightarrow> 'v table res" and Lst :: "'v table \<Rightarrow> 'v list" +
  fixes Get :: "string \<Rightarrow> 'v table \<Rightarrow> 'v res"
    and Delete :: "string \<Rightarrow> 'v table \<Rightarrow> 'v table res"
    and invalid :: "error \<Rightarrow> error"
    and missing :: error
  assumes Save_invalid: "prep v = Inl e \<Longrightarrow> Save v t = Inl (invalid e)"
    and Lst_sorted: "Lst t = sort_key key (map snd t)"
    and Get_lookup: "Get k t = (case map_of t k of None \<Rightarrow> Inl missing | Some v \<Rightarrow> Inr v)"
    and Delete_removes: "Delete k t = (if map_of t k = None then Inl missing else Inr (AList.delete k t))"
begin

text \<open>A call on the repository, and that it refines the call on the map.\<close>

definition call :: "'v table_sig \<Rightarrow> 'v call \<Rightarrow> 'v table \<Rightarrow> answer res \<times> 'v table" where
  "call ts c t =
     (case c of
        SaveCall v \<Rightarrow> (case Save v t of Inl err \<Rightarrow> (Inl err, t) | Inr t' \<Rightarrow> (map_sum id (ts_saved ts) (prep v), t'))
      | GetCall k \<Rightarrow> (map_sum id (ts_one ts) (Get k t), t)
      | ListCall \<Rightarrow> (Inr (ts_many ts (Lst t)), t)
      | DeleteCall k \<Rightarrow> (case Delete k t of Inl err \<Rightarrow> (Inl err, t) | Inr t' \<Rightarrow> (Inr NoData, t')))"

lemma Lst_refines: "table_ok key valid t \<Longrightarrow> Lst t = map (the \<circ> map_of t) (sorted_list_of_set (dom (map_of t)))"
  unfolding Lst_sorted by (rule sort_key_lookup) (auto simp: table_ok_def)

lemma call_refines:
  assumes "table_ok key valid t" "ts_prep ts = prep" "ts_invalid ts = invalid" "ts_missing ts = missing" "ts_key ts = key"
  shows "map_prod id map_of (call ts c t) = table_spec ts c (map_of t)"
proof (cases c)
  case (SaveCall v)
  then show ?thesis using assms Save_invalid Save_ok by (cases "prep v") (auto simp: call_def update_conv')
next
  case (DeleteCall k)
  then show ?thesis using assms by (auto simp: call_def Delete_removes delete_conv')
qed (use assms Lst_refines in \<open>auto simp: call_def Get_lookup split: option.splits\<close>)

end

section \<open>The repositories keep the contract\<close>

lemmas named_defs = table_get_def table_delete_def

interpretation named_policies: named_repository pol_Name "\<lambda>p. Policy_Validate p = Inr ()" "\<lambda>p. Policy_prep (draw (pol_Name p)) p"
  "\<lambda>p. PolicyRepository_Save (draw (pol_Name p)) p" PolicyRepository_List PolicyRepository_GetByName PolicyRepository_Delete
  "Wrap ErrCodeValidation ''invalid policy''" policy_not_found
  by unfold_locales (auto simp: Policy_prep_def PolicyRepository_Save_def PolicyRepository_List_def PolicyRepository_GetByName_def
      PolicyRepository_Delete_def named_defs split: sum.splits)

interpretation named_roles: named_repository role_Name "\<lambda>r. Role_Validate r = None" "optional (map_option Plain \<circ> Role_Validate)"
  RoleRepository_Save RoleRepository_List RoleRepository_Get RoleRepository_Delete
  "Wrap ErrCodeValidation ''invalid role''" role_not_found
  by unfold_locales (auto simp: RoleRepository_Save_def RoleRepository_List_def RoleRepository_Get_def RoleRepository_Delete_def named_defs)

interpretation named_db: named_repository db_Name "\<lambda>r. DatabaseRole_Validate up r = Inr r" "DatabaseRole_Validate up"
  "DatabaseRoleRepository_Save up" DatabaseRoleRepository_List DatabaseRoleRepository_Get DatabaseRoleRepository_Delete
  "Wrap ErrCodeValidation ''invalid database role''" db_role_not_found
  by unfold_locales (auto simp: DatabaseRoleRepository_Save_def DatabaseRoleRepository_List_def DatabaseRoleRepository_Get_def
      DatabaseRoleRepository_Delete_def named_defs)

interpretation named_ssh: named_repository sh_Name "\<lambda>r. SSHRole_Validate r = Inr r" SSHRole_Validate
  SSHRoleRepository_Save SSHRoleRepository_List SSHRoleRepository_Get SSHRoleRepository_Delete
  "Wrap ErrCodeValidation ''invalid ssh role''" ssh_role_not_found
  by unfold_locales (auto simp: SSHRoleRepository_Save_def SSHRoleRepository_List_def SSHRoleRepository_Get_def
      SSHRoleRepository_Delete_def named_defs)

interpretation named_rotation: named_repository rot_Path "\<lambda>p. RotationPolicy_Validate p = None" "optional RotationPolicy_Validate"
  RotationPolicyRepository_Save RotationPolicyRepository_List RotationPolicyRepository_Get RotationPolicyRepository_Delete
  "Wrap ErrCodeValidation ''invalid rotation policy''" rotation_not_found
  by unfold_locales (auto simp: RotationPolicyRepository_Save_def RotationPolicyRepository_List_def RotationPolicyRepository_Get_def
      RotationPolicyRepository_Delete_def named_defs)

section \<open>The store refines the maps\<close>

text \<open>The import of a snapshot replaces all tables at once; the specification leaves it out.\<close>

definition is_import :: "Command \<Rightarrow> bool" where
  "is_import cmd = (case cmd of OpImportSnapshotCmd _ \<Rightarrow> True | _ \<Rightarrow> False)"

lemma other_commands_keep_maps:
  "named_of cmd = None \<Longrightarrow> \<not> is_import cmd \<Longrightarrow> abs_maps (snd (storeHandlers lib draw now cmd s)) = abs_maps s"
  by (cases cmd) (simp_all add: named_of_def is_import_def handler_defs wrote_def abs_maps_def split: sum.splits prod.splits)

lemma handlers_call_repository:
  "named_of cmd = Some (PolicyCall c1) \<Longrightarrow> storeHandlers lib draw now cmd s =
     map_prod id (\<lambda>t. s\<lparr>st_Policy := t\<rparr>) (named_policies.call draw (policy_sig draw) c1 (st_Policy s))"
  "named_of cmd = Some (RoleCall c2) \<Longrightarrow> storeHandlers lib draw now cmd s =
     map_prod id (\<lambda>t. s\<lparr>st_Role := t\<rparr>) (named_roles.call role_sig c2 (st_Role s))"
  "named_of cmd = Some (DBRoleCall c3) \<Longrightarrow> storeHandlers lib draw now cmd s =
     map_prod id (\<lambda>t. s\<lparr>st_DBRole := t\<rparr>) (named_db.call (vl_url_password lib) (db_sig lib) c3 (st_DBRole s))"
  "named_of cmd = Some (SSHRoleCall c4) \<Longrightarrow> storeHandlers lib draw now cmd s =
     map_prod id (\<lambda>t. s\<lparr>st_SSHRole := t\<rparr>) (named_ssh.call ssh_sig c4 (st_SSHRole s))"
  "named_of cmd = Some (RotationCall c5) \<Longrightarrow> storeHandlers lib draw now cmd s =
     map_prod id (\<lambda>t. s\<lparr>st_RotationPolicy := t\<rparr>) (named_rotation.call rotation_sig c5 (st_RotationPolicy s))"
proof -
  show "named_of cmd = Some (PolicyCall c1) \<Longrightarrow> storeHandlers lib draw now cmd s =
     map_prod id (\<lambda>t. s\<lparr>st_Policy := t\<rparr>) (named_policies.call draw (policy_sig draw) c1 (st_Policy s))"
    unfolding named_policies.call_def
    by (cases cmd) (auto simp: named_of_def handler_defs wrote_def found_def policy_sig_def
        PolicyRepository_Save_def Policy_prep_def split: sum.splits)
  show "named_of cmd = Some (RoleCall c2) \<Longrightarrow> storeHandlers lib draw now cmd s =
     map_prod id (\<lambda>t. s\<lparr>st_Role := t\<rparr>) (named_roles.call role_sig c2 (st_Role s))"
    unfolding named_roles.call_def
    by (cases cmd) (auto simp: named_of_def handler_defs wrote_def found_def role_sig_def
        RoleRepository_Save_def optional_def split: sum.splits option.splits)
  show "named_of cmd = Some (DBRoleCall c3) \<Longrightarrow> storeHandlers lib draw now cmd s =
     map_prod id (\<lambda>t. s\<lparr>st_DBRole := t\<rparr>) (named_db.call (vl_url_password lib) (db_sig lib) c3 (st_DBRole s))"
    unfolding named_db.call_def
    by (cases cmd) (auto simp: named_of_def handler_defs wrote_def found_def db_sig_def
        DatabaseRoleRepository_Save_def split: sum.splits)
  show "named_of cmd = Some (SSHRoleCall c4) \<Longrightarrow> storeHandlers lib draw now cmd s =
     map_prod id (\<lambda>t. s\<lparr>st_SSHRole := t\<rparr>) (named_ssh.call ssh_sig c4 (st_SSHRole s))"
    unfolding named_ssh.call_def
    by (cases cmd) (auto simp: named_of_def handler_defs wrote_def found_def ssh_sig_def
        SSHRoleRepository_Save_def split: sum.splits)
  show "named_of cmd = Some (RotationCall c5) \<Longrightarrow> storeHandlers lib draw now cmd s =
     map_prod id (\<lambda>t. s\<lparr>st_RotationPolicy := t\<rparr>) (named_rotation.call rotation_sig c5 (st_RotationPolicy s))"
    unfolding named_rotation.call_def
    by (cases cmd) (auto simp: named_of_def handler_defs wrote_def found_def rotation_sig_def
        RotationPolicyRepository_Save_def optional_def split: sum.splits option.splits)
qed

lemma named_commands_refine:
  assumes "named_of cmd = Some c" "store_ok lib s"
  shows "map_prod id abs_maps (storeHandlers lib draw now cmd s) = vault_spec lib draw c (abs_maps s)"
proof (cases c)
  case (PolicyCall d)
  have "table_spec (policy_sig draw) d (map_of (st_Policy s)) = map_prod id map_of (named_policies.call draw (policy_sig draw) d (st_Policy s))"
    by (rule named_policies.call_refines [OF store_ok_parts(6) [OF assms(2)], symmetric]) (simp_all add: policy_sig_def)
  then show ?thesis using handlers_call_repository(1) [OF assms(1) [unfolded PolicyCall]]
    by (cases "named_policies.call draw (policy_sig draw) d (st_Policy s)") (simp add: PolicyCall abs_maps_def)
next
  case (RoleCall d)
  have "table_spec role_sig d (map_of (st_Role s)) = map_prod id map_of (named_roles.call role_sig d (st_Role s))"
    by (rule named_roles.call_refines [OF store_ok_parts(7) [OF assms(2)], symmetric]) (simp_all add: role_sig_def)
  then show ?thesis using handlers_call_repository(2) [OF assms(1) [unfolded RoleCall]]
    by (cases "named_roles.call role_sig d (st_Role s)") (simp add: RoleCall abs_maps_def)
next
  case (DBRoleCall d)
  have "table_spec (db_sig lib) d (map_of (st_DBRole s)) = map_prod id map_of (named_db.call (vl_url_password lib) (db_sig lib) d (st_DBRole s))"
    by (rule named_db.call_refines [OF store_ok_parts(9) [OF assms(2)], symmetric]) (simp_all add: db_sig_def)
  then show ?thesis using handlers_call_repository(3) [OF assms(1) [unfolded DBRoleCall]]
    by (cases "named_db.call (vl_url_password lib) (db_sig lib) d (st_DBRole s)") (simp add: DBRoleCall abs_maps_def)
next
  case (SSHRoleCall d)
  have "table_spec ssh_sig d (map_of (st_SSHRole s)) = map_prod id map_of (named_ssh.call ssh_sig d (st_SSHRole s))"
    by (rule named_ssh.call_refines [OF store_ok_parts(10) [OF assms(2)], symmetric]) (simp_all add: ssh_sig_def)
  then show ?thesis using handlers_call_repository(4) [OF assms(1) [unfolded SSHRoleCall]]
    by (cases "named_ssh.call ssh_sig d (st_SSHRole s)") (simp add: SSHRoleCall abs_maps_def)
next
  case (RotationCall d)
  have "table_ok rot_Path (\<lambda>p. RotationPolicy_Validate p = None) (st_RotationPolicy s)" using assms(2) by (simp add: store_ok_def)
  then have "table_spec rotation_sig d (map_of (st_RotationPolicy s)) = map_prod id map_of (named_rotation.call rotation_sig d (st_RotationPolicy s))"
    by (rule named_rotation.call_refines [symmetric]) (simp_all add: rotation_sig_def)
  then show ?thesis using handlers_call_repository(5) [OF assms(1) [unfolded RotationCall]]
    by (cases "named_rotation.call rotation_sig d (st_RotationPolicy s)") (simp add: RotationCall abs_maps_def)
qed

lemma serve_refines:
  assumes "store_ok lib s" "list_all (\<lambda>(_, _, cmd). \<not> is_import cmd) steps" "serve lib steps s = (rs, s')"
    "serve_spec lib steps (abs_maps s) = (os, m)"
  shows "abs_maps s' = m \<and> list_all2 (\<lambda>r x. x = None \<or> x = Some r) rs os"
  using assms
proof (induction steps arbitrary: s rs os)
  case (Cons x steps)
  obtain draw now cmd where x: "x = (draw, now, cmd)" by (cases x)
  obtain a s1 where h: "storeHandlers lib draw now cmd s = (a, s1)" by (cases "storeHandlers lib draw now cmd s")
  have ok: "store_ok lib s1" using handlers_ok [OF Cons.prems(1), of draw now cmd] h by simp
  have ni: "\<not> is_import cmd" "list_all (\<lambda>(_, _, cmd). \<not> is_import cmd) steps" using Cons.prems(2) x by auto
  obtain rs1 where r: "serve lib steps s1 = (rs1, s')" "rs = encodeResponse a # rs1"
    using Cons.prems(3) by (auto simp: x h Handle_def split: prod.splits)
  show ?case
  proof (cases "named_of cmd")
    case None
    then have "abs_maps s1 = abs_maps s" using other_commands_keep_maps [OF None ni(1), of lib draw now s] h by simp
    then obtain os1 where "serve_spec lib steps (abs_maps s1) = (os1, m)" "os = None # os1"
      using Cons.prems(4) None by (auto simp: x split: prod.splits)
    then show ?thesis using Cons.IH [OF ok ni(2) r(1)] r(2) by auto
  next
    case (Some c)
    then have "vault_spec lib draw c (abs_maps s) = (a, abs_maps s1)"
      using named_commands_refine [OF Some Cons.prems(1), of draw now] h by simp
    then obtain os1 where "serve_spec lib steps (abs_maps s1) = (os1, m)" "os = Some (encodeResponse a) # os1"
      using Cons.prems(4) Some by (auto simp: x split: prod.splits)
    then show ?thesis using Cons.IH [OF ok ni(2) r(1)] r(2) by auto
  qed
qed auto

text \<open>
  C7. The store refines the specification of its named tables: for every sequence of commands served by an
  empty store, snapshot imports apart, the tables end as the maps of the specification and every answer to a command on
  these tables is the answer of the maps, whatever commands on the other tables come between.
\<close>
theorem store_refines_maps:
  assumes "list_all (\<lambda>(_, _, cmd). \<not> is_import cmd) steps"
  shows "\<exists>rs s os m. serve lib steps NewStore = (rs, s) \<and> serve_spec lib steps (abs_maps NewStore) = (os, m) \<and>
    abs_maps s = m \<and> list_all2 (\<lambda>r x. x = None \<or> x = Some r) rs os"
  using serve_refines [OF NewStore_ok assms]
  by (cases "serve lib steps NewStore"; cases "serve_spec lib steps (abs_maps NewStore)") auto

theorem store_refines_maps_witness:
  "\<exists>rs s os m. serve demo_lib [(\<lambda>n. n, 1, OpPolicySave demo_policy), (\<lambda>n. n, 2, OpCAList), (\<lambda>n. n, 3, OpPolicyList)] NewStore = (rs, s) \<and>
    serve_spec demo_lib [(\<lambda>n. n, 1, OpPolicySave demo_policy), (\<lambda>n. n, 2, OpCAList), (\<lambda>n. n, 3, OpPolicyList)] (abs_maps NewStore) = (os, m) \<and>
    abs_maps s = m \<and> list_all2 (\<lambda>r x. x = None \<or> x = Some r) rs os"
  by (rule store_refines_maps) (simp add: is_import_def)

end
