(* ===== verification/Recovery.thy ===== *)
theory Recovery
  imports Replication
begin

text \<open>
  Recovering a replica from a snapshot: what \<^verbatim>\<open>SaveSnapshot\<close> followed by \<^verbatim>\<open>RecoverFromSnapshot\<close>
  keeps of a store, when it fails, and what it loses. The functions \<open>*_kept\<close> say what remains of a
  record.
\<close>

section \<open>What remains of a record\<close>

definition ca_kept :: "CA \<Rightarrow> CA" where
  "ca_kept c = c\<lparr>ca_Organization := [], ca_OrganizationalUnit := [], ca_Country := []\<rparr>"

definition secret_kept :: "SecretVersion \<Rightarrow> SecretVersion" where
  "secret_kept sv = sv\<lparr>sv_Labels := Map.empty\<rparr>"

definition policy_kept :: "uuid_source \<Rightarrow> Policy \<Rightarrow> Policy" where
  "policy_kept draw p = p\<lparr>pol_ID := draw (pol_Name p), pol_Capabilities := [], pol_Includes := []\<rparr>"

definition role_kept :: "Role \<Rightarrow> Role" where
  "role_kept r = r\<lparr>role_PolicyGroups := [], role_AuthMethod := [], role_OIDC := None, role_RequireMFA := False\<rparr>"

definition db_kept :: "DatabaseRole \<Rightarrow> DatabaseRole" where
  "db_kept r = r\<lparr>db_DefaultTTL := db_TTLSeconds r, db_MaxTTL := db_TTLSeconds r, db_Period := 0, db_Renewable := False,
     db_MaxLeases := 0, db_CreatedAt := 0, db_UpdatedAt := 0\<rparr>"

definition ssh_kept :: "SSHRole \<Rightarrow> SSHRole" where
  "ssh_kept r = r\<lparr>sh_DefaultTTL := sh_TTLSeconds r, sh_MaxTTL := sh_TTLSeconds r, sh_Period := 0, sh_Renewable := False,
     sh_MaxLeases := 0, sh_CreatedAt := 0, sh_UpdatedAt := 0,
     sh_Extensions := (if sh_Extensions r = Some [] then Some [(''permit-pty'', [])] else sh_Extensions r)\<rparr>"

definition lease_kept :: "Lease \<Rightarrow> Lease" where
  "lease_kept l = l\<lparr>le_TokenID := [], le_Metadata := []\<rparr>"

definition token_kept :: "ClientToken \<Rightarrow> ClientToken" where
  "token_kept t = t\<lparr>ct_ParentIdentityID := [], ct_AgentID := [], ct_AllowedActions := [], ct_PathPrefix := [], ct_MaxExpiresAt := 0\<rparr>"

definition audit_kept :: "Entry \<Rightarrow> Entry" where
  "audit_kept e = e\<lparr>ae_Details := omit_empty (ae_Details e), ae_Signature := [], ae_AuthMethod := [], ae_SourceIP := [],
     ae_ClientIdentity := [], ae_FailureReason := [], ae_RequestID := [], ae_Namespace := []\<rparr>"

text \<open>The store after the recovery, up to the order of the association lists.\<close>

definition recovered :: "uuid_source \<Rightarrow> Store \<Rightarrow> Store \<Rightarrow> bool" where
  "recovered draw s s' \<longleftrightarrow>
     map_of (st_CA s') = map_option ca_kept \<circ> map_of (st_CA s) \<and>
     map_of (st_Secret s') = map_option secret_kept \<circ> map_of (st_Secret s) \<and>
     st_Audit s' = (map audit_kept (fst (st_Audit s)), snd (st_Audit s)) \<and>
     (\<forall>i. revoked_of i (st_Revoke s') = (if map_of (st_CA s) i = None then [] else revoked_of i (st_Revoke s))) \<and>
     map_of (st_Lease s') = map_option lease_kept \<circ> map_of (st_Lease s) \<and>
     map_of (st_Policy s') = map_option (policy_kept draw) \<circ> map_of (st_Policy s) \<and>
     map_of (st_Role s') = map_option role_kept \<circ> map_of (st_Role s) \<and>
     map_of (st_PKIRole s') = map_of (st_PKIRole s) \<and>
     map_of (st_DBRole s') = map_option db_kept \<circ> map_of (st_DBRole s) \<and>
     map_of (st_SSHRole s') = map_option ssh_kept \<circ> map_of (st_SSHRole s) \<and>
     map_of (st_IssuedCert s') = map_of (st_IssuedCert s) \<and>
     map_of (st_Token s') = map_option token_kept \<circ> map_of (st_Token s) \<and>
     st_MachineIdentity s' = [] \<and> st_RotationPolicy s' = []"

text \<open>What a snapshot needs to be importable, besides well-formed tables.\<close>

definition recoverable :: "vault_lib \<Rightarrow> Store \<Rightarrow> bool" where
  "recoverable lib s \<longleftrightarrow>
     (\<forall>(_, c) \<in> set (st_CA s). \<forall>p. ca_ParentID c = Some p \<longrightarrow> p \<in> fst ` set (st_CA s)) \<and>
     (\<forall>(_, p) \<in> set (st_Policy s). pol_Actions p \<noteq> []) \<and>
     (\<forall>(_, r) \<in> set (st_Role s). set (role_Policies r) \<subseteq> fst ` set (st_Policy s)) \<and>
     (\<forall>(_, r) \<in> set (st_PKIRole s). pkr_CAName r \<in> (ca_Name \<circ> snd) ` set (st_CA s)) \<and>
     (\<forall>(_, c) \<in> set (st_IssuedCert s). ic_CAID c \<in> fst ` set (st_CA s)) \<and>
     length (fst (st_Audit s)) \<le> 10000 \<and> sorted (map ae_Timestamp (fst (st_Audit s))) \<and>
     ValidateChain (vl_Marshal lib) (fst (st_Audit s)) = None"

section \<open>Conversions\<close>

lemma ca_conv: "caToDomain (caFromDomain c) = ca_kept c"
  by (simp add: caToDomain_def caFromDomain_def ca_kept_def)

lemma secret_conv: "secretToDomain (secretFromDomain sv) = secret_kept sv"
  by (simp add: secretToDomain_def secretFromDomain_def secret_kept_def)

lemma lease_conv: "leaseToDomain (leaseFromDomain l) = lease_kept l"
  by (simp add: leaseToDomain_def leaseFromDomain_def lease_kept_def)

lemma issued_conv: "issuedToDomain (issuedFromDomain c) = c"
  by (simp add: issuedToDomain_def issuedFromDomain_def)

lemma pki_conv: "pkiRoleToDomain (pkiRoleFromDomain r) = r"
  by (simp add: pkiRoleToDomain_def pkiRoleFromDomain_def)

lemma role_conv: "roleToDomain (roleFromDomain r) = role_kept r"
  by (simp add: roleToDomain_def roleFromDomain_def role_kept_def)

lemma token_conv: "tokenToDomain (tokenFromDomain t) = token_kept t"
  by (simp add: tokenToDomain_def tokenFromDomain_def token_kept_def)

lemma revoked_conv: "revokedToDomain (revokedFromDomain c) = c"
  by (simp add: revokedToDomain_def revokedFromDomain_def)

lemma audit_conv: "auditToDomain ((auditFromDomain e)\<lparr>aur_Details := omit_empty (aur_Details (auditFromDomain e))\<rparr>) = (audit_kept e)\<lparr>ae_ID := 0\<rparr>"
  by (simp add: auditToDomain_def auditFromDomain_def audit_kept_def)

lemma policy_conv: "with_id (draw (pol_Name p)) (policyToDomain (policyFromDomain p)) = policy_kept draw p"
  by (simp add: policyToDomain_def policyFromDomain_def policy_kept_def with_id_def)

lemma policy_conv_valid:
  "Policy_Validate p = Inr () \<Longrightarrow> pol_Actions p \<noteq> [] \<Longrightarrow> Policy_Validate (policyToDomain (policyFromDomain p)) = Inr ()"
  by (auto simp: Policy_Validate_def policyToDomain_def policyFromDomain_def split: if_splits)

lemma omit_empty_Some [simp]: "omit_empty (Some m) = (if m = [] then None else Some m)"
  by (simp add: omit_empty_def)

lemma db_conv:
  assumes "db_normal r"
  shows "databaseRoleToDomain ((databaseRoleFromDomain r)\<lparr>dbr_Config := omit_empty (dbr_Config (databaseRoleFromDomain r))\<rparr>) = db_kept r"
proof -
  obtain m where m: "db_Config r = Some m" using assms by (auto simp: db_normal_def)
  have p: "\<not> db_TTLSeconds r \<le> 0" "TrimSpace (db_ExecutionMode r) \<noteq> []" "TrimSpace (db_AdminCredentialsPath r) = db_AdminCredentialsPath r"
    using assms by (auto simp: db_normal_def)
  show ?thesis
    unfolding databaseRoleFromDomain_def NormalizeDatabaseRole_fixed [OF assms] Let_def databaseRoleToDomain_def
    using p m by (cases "m = []") (simp_all add: NormalizeDatabaseRole_def NormalizeDatabaseLeaseTuning_def Let_def db_kept_def)
qed

lemma db_kept_valid:
  assumes "DatabaseRole_Validate up r = Inr r"
  shows "DatabaseRole_Validate up (db_kept r) = Inr (db_kept r)"
proof -
  have n: "db_normal r" using DatabaseRole_Validate_normal [OF assms] NormalizeDatabaseRole_normal by metis
  then have k: "db_normal (db_kept r)" by (simp add: db_normal_def db_kept_def)
  have f: "db_Name (db_kept r) = db_Name r" "db_TTLSeconds (db_kept r) = db_TTLSeconds r"
    "db_UsernamePrefix (db_kept r) = db_UsernamePrefix r" "db_ExecutionMode (db_kept r) = db_ExecutionMode r"
    "db_AdminCredentialsPath (db_kept r) = db_AdminCredentialsPath r" "db_Config (db_kept r) = db_Config r"
    "validate_managed (db_kept r) = validate_managed r"
    by (simp_all add: db_kept_def validate_managed_def split: option.split)
  show ?thesis
    using assms unfolding DatabaseRole_Validate_def Let_def NormalizeDatabaseRole_fixed [OF n] NormalizeDatabaseRole_fixed [OF k] f
    by (auto split: if_splits option.splits)
qed

lemma ssh_conv:
  assumes "ssh_normal r"
  shows "sshRoleToDomain ((sshRoleFromDomain r)\<lparr>shr_Extensions := omit_empty (shr_Extensions (sshRoleFromDomain r))\<rparr>) = ssh_kept r"
  using assms NormalizeSSHRole_fixed [OF assms]
  by (cases "sh_Extensions r")
    (auto simp: sshRoleToDomain_def sshRoleFromDomain_def ssh_normal_def omit_empty_def ssh_kept_def NormalizeSSHRole_def Let_def)

lemma ssh_kept_valid:
  assumes "SSHRole_Validate r = Inr r"
  shows "SSHRole_Validate (ssh_kept r) = Inr (ssh_kept r)"
proof -
  have n: "ssh_normal r" using SSHRole_Validate_normal [OF assms] NormalizeSSHRole_normal by metis
  then have k: "ssh_normal (ssh_kept r)" by (simp add: ssh_normal_def ssh_kept_def)
  have f: "sh_Name (ssh_kept r) = sh_Name r" "sh_TTLSeconds (ssh_kept r) = sh_TTLSeconds r" "sh_CAKeyPath (ssh_kept r) = sh_CAKeyPath r"
    "sh_KeyType (ssh_kept r) = sh_KeyType r" "sh_DefaultUser (ssh_kept r) = sh_DefaultUser r"
    "sh_AllowedUsers (ssh_kept r) = sh_AllowedUsers r" by (simp_all add: ssh_kept_def)
  show ?thesis
    using assms unfolding SSHRole_Validate_def Let_def NormalizeSSHRole_fixed [OF n] NormalizeSSHRole_fixed [OF k] f
    by (auto split: if_splits)
qed

section \<open>The loops of the restore\<close>

text \<open>Records with fresh keys are appended in turn.\<close>

lemma save_all_CAs:
  assumes "\<forall>c \<in> set cs. CA_Validate c = None" "distinct (map ca_ID cs)" "distinct (map ca_Name cs)"
    and "\<forall>(k, c) \<in> set t. k = ca_ID c \<and> ca_ID c \<notin> ca_ID ` set cs \<and> ca_Name c \<notin> ca_Name ` set cs"
  shows "save_all CARepository_Save cs t = (None, t @ map (\<lambda>c. (ca_ID c, c)) cs)"
  using assms
proof (induction cs arbitrary: t)
  case (Cons c cs)
  have "ca_ID c \<notin> fst ` set t" using Cons.prems(4) by fastforce
  then have "CARepository_Save c t = Inr (t @ [(ca_ID c, c)])"
    using Cons.prems(1,4) by (auto simp: CARepository_Save_def list_ex_iff update_fresh)
  moreover have "save_all CARepository_Save cs (t @ [(ca_ID c, c)]) = (None, (t @ [(ca_ID c, c)]) @ map (\<lambda>c. (ca_ID c, c)) cs)"
    using Cons.prems by (intro Cons.IH) auto
  ultimately show ?case by simp
qed simp

lemma save_all_secrets:
  assumes "\<forall>sv \<in> set svs. SecretVersion_Validate sv = Inr ()" "distinct (map (\<lambda>sv. (sv_Path sv, sv_Version sv)) svs)"
    and "\<forall>sv \<in> set svs. (sv_Path sv, sv_Version sv) \<notin> fst ` set t"
  shows "save_all SaveVersion svs t = (None, t @ map (\<lambda>sv. ((sv_Path sv, sv_Version sv), sv)) svs)"
  using assms
proof (induction svs arbitrary: t)
  case (Cons sv svs)
  let ?k = "(sv_Path sv, sv_Version sv)"
  have "SaveVersion sv t = Inr (t @ [(?k, sv)])"
    using Cons.prems(1,3) by (auto simp: SaveVersion_def Let_def update_fresh map_of_eq_None_iff)
  moreover have "save_all SaveVersion svs (t @ [(?k, sv)]) = (None, (t @ [(?k, sv)]) @ map (\<lambda>sv. ((sv_Path sv, sv_Version sv), sv)) svs)"
    using Cons.prems by (intro Cons.IH) (auto simp: image_iff)
  ultimately show ?case by simp
qed simp

lemma save_all_revoked:
  assumes "distinct (map rcert_Serial cs)" "\<forall>c \<in> set cs. map_of (rv_serial r) (rcert_Serial c) = None"
  shows "\<exists>r'. save_all RevocationRepository_Revoke cs r = (None, r') \<and>
    (\<forall>i. revoked_of i r' = revoked_of i r @ filter (\<lambda>c. rcert_CAID c = i) cs)"
  using assms
proof (induction cs arbitrary: r)
  case (Cons c cs)
  let ?r = "\<lparr>rv_serial = AList.update (rcert_Serial c) c (rv_serial r),
    rv_byCA = AList.update (rcert_CAID c) (revoked_of (rcert_CAID c) r @ [c]) (rv_byCA r)\<rparr>"
  have s: "RevocationRepository_Revoke c r = Inr ?r" using Cons.prems(2) by (simp add: RevocationRepository_Revoke_def)
  have "\<forall>x \<in> set cs. map_of (rv_serial ?r) (rcert_Serial x) = None"
    using Cons.prems by (auto simp: update_conv) (metis imageI)
  then obtain r' where r': "save_all RevocationRepository_Revoke cs ?r = (None, r')"
    "\<And>i. revoked_of i r' = revoked_of i ?r @ filter (\<lambda>c. rcert_CAID c = i) cs"
    using Cons.IH [of ?r] Cons.prems(1) by auto
  have "revoked_of i r' = revoked_of i r @ filter (\<lambda>c. rcert_CAID c = i) (c # cs)" for i
    unfolding r'(2) by (simp add: revoked_of_def update_conv)
  then show ?case using r'(1) s by auto
qed simp

lemma save_all_audit:
  assumes "\<forall>e \<in> set es. Entry_Validate e = Inr ()"
  shows "save_all Append (map (\<lambda>e. e\<lparr>ae_ID := 0\<rparr>) es) (l, n) =
    (None, l @ map2 (\<lambda>e i. e\<lparr>ae_ID := i\<rparr>) es [n..n + int (length es) - 1], n + int (length es))"
  using assms
proof (induction es arbitrary: l n)
  case (Cons e es)
  have v: "Entry_Validate (e\<lparr>ae_ID := 0\<rparr>) = Inr ()" using Cons.prems by (auto simp: Entry_Validate_def split: if_splits)
  have "[n..n + int (length (e # es)) - 1] = n # [n + 1..n + 1 + int (length es) - 1]" by (simp add: upto_rec1)
  then show ?case using Cons v by (simp add: Append_def algebra_simps)
qed simp

section \<open>The repositories that are not keyed\<close>

lemma map_of_map_key:
  assumes "distinct (map fst t)" "mset xs = mset (map snd t)" "\<And>k v. (k, v) \<in> set t \<Longrightarrow> k = key v" "\<And>v. key (f v) = key v"
  shows "map_of (map (\<lambda>v. (key v, v)) (map f xs)) = map_option f \<circ> map_of t"
proof
  fix k
  have m: "map key (map snd t) = map fst t" using assms(3) by (auto simp: prod_eq_iff)
  have "mset (map key xs) = mset (map fst t)" using assms(2) m by (metis mset_map)
  then have d: "distinct (map key xs)" using assms(1) mset_eq_imp_distinct_iff by metis
  have st: "set xs = snd ` set t" using assms(2) by (metis set_map set_mset_mset)
  have e: "map (\<lambda>v. (key v, v)) (map f xs) = map (\<lambda>v. (key v, f v)) xs" by (simp add: assms(4))
  have dm: "distinct (map fst (map (\<lambda>v. (key v, f v)) xs))" using d by (simp add: comp_def)
  show "map_of (map (\<lambda>v. (key v, v)) (map f xs)) k = (map_option f \<circ> map_of t) k"
  proof (cases "map_of t k")
    case None
    have "k \<noteq> key v" if "v \<in> set xs" for v using that None assms(3) unfolding st map_of_eq_None_iff by force
    then have "map_of (map (\<lambda>v. (key v, f v)) xs) k = None" unfolding map_of_eq_None_iff by fastforce
    then show ?thesis unfolding e using None by simp
  next
    case (Some v)
    then have "(k, v) \<in> set t" "k = key v" using assms(3) map_of_SomeD by fast+
    then have "(k, f v) \<in> set (map (\<lambda>v. (key v, f v)) xs)" using st by force
    then show ?thesis unfolding e using Some map_of_is_SomeI [OF dm] by simp
  qed
qed

lemma insort_key_of_map: "insort_key f (g x) (map g ys) = map g (insort_key (f \<circ> g) x ys)"
  by (induction ys) auto

lemma ca_kept_simps [simp]:
  "ca_ID (ca_kept c) = ca_ID c" "ca_Name (ca_kept c) = ca_Name c" "ca_Type (ca_kept c) = ca_Type c"
  "ca_ParentID (ca_kept c) = ca_ParentID c" "ca_CertPEM (ca_kept c) = ca_CertPEM c"
  "ca_PrivateKeyEnc (ca_kept c) = ca_PrivateKeyEnc c" "ca_DEKEnc (ca_kept c) = ca_DEKEnc c"
  by (simp_all add: ca_kept_def)

lemma CA_Validate_kept [simp]: "CA_Validate (ca_kept c) = CA_Validate c"
  unfolding CA_Validate_def ca_kept_simps by (rule refl)

lemma sort_key_of_map: "sort_key f (map g xs) = map g (sort_key (f \<circ> g) xs)"
  by (induction xs) (simp_all add: insort_key_of_map comp_def)

lemma sortCAs_perm:
  "\<exists>ys. sortCAs (map caFromDomain (CARepository_List t)) = map caFromDomain ys \<and> mset ys = mset (map snd t)"
proof -
  let ?f = "\<lambda>r. (car_ParentID r \<noteq> None, car_Name r)"
  have "sort_key ?f (map caFromDomain xs) = map caFromDomain (sort_key (?f \<circ> caFromDomain) xs)" for xs
    by (rule sort_key_of_map)
  then show ?thesis unfolding sortCAs_def CARepository_List_def by (intro exI conjI) auto
qed

lemma ca_list_facts:
  assumes "ca_table_ok t" "mset ys = mset (map snd t)"
  shows "distinct (map ca_ID ys) \<and> distinct (map ca_Name ys) \<and> (\<forall>c \<in> set ys. CA_Validate c = None)"
proof -
  have ok: "distinct (map fst t)" "\<And>k c. (k, c) \<in> set t \<Longrightarrow> k = ca_ID c \<and> CA_Validate c = None"
    "\<And>k c k' c'. (k, c) \<in> set t \<Longrightarrow> (k', c') \<in> set t \<Longrightarrow> ca_Name c = ca_Name c' \<Longrightarrow> k = k'"
    using assms(1) by (auto simp: ca_table_ok_def table_ok_def ca_names_ok_def)
  have m: "map ca_ID (map snd t) = map fst t" using ok(2) by auto
  have d: "distinct (map ca_ID (map snd t))" unfolding m by (rule ok(1))
  have "distinct t" using ok(1) by (simp add: distinct_map)
  moreover have "inj_on (\<lambda>e. ca_Name (snd e)) (set t)"
    using ok(1,3) by (intro inj_onI) (metis (no_types, lifting) distinct_map inj_on_def prod.collapse)
  ultimately have n: "distinct (map ca_Name (map snd t))" by (simp add: distinct_map comp_def)
  have "distinct (map ca_ID ys)" "distinct (map ca_Name ys)"
    using d n assms(2) by (metis mset_eq_imp_distinct_iff mset_map)+
  moreover have "set ys = snd ` set t" using assms(2) by (metis set_map set_mset_mset)
  ultimately show ?thesis using ok(2) by fastforce
qed

lemma restore_CAs:
  assumes "ca_table_ok t"
  shows "\<exists>t'. save_all CARepository_Save (map caToDomain (sortCAs (map caFromDomain (CARepository_List t)))) [] = (None, t') \<and>
    map_of t' = map_option ca_kept \<circ> map_of t"
proof -
  let ?xs = "map caToDomain (sortCAs (map caFromDomain (CARepository_List t)))"
  obtain ys where ys: "sortCAs (map caFromDomain (CARepository_List t)) = map caFromDomain ys" "mset ys = mset (map snd t)"
    using sortCAs_perm by blast
  have xs: "?xs = map ca_kept ys" by (simp add: ys(1) ca_conv comp_def)
  have ok: "table_ok ca_ID (\<lambda>c. CA_Validate c = None) t" "ca_names_ok t" using assms by (auto simp: ca_table_ok_def)
  have key: "\<And>k v. (k, v) \<in> set t \<Longrightarrow> k = ca_ID v" using ok(1) by (auto simp: table_ok_def)
  have dn: "distinct (map ca_Name ys)" "distinct (map ca_ID ys)" "\<forall>c \<in> set ys. CA_Validate c = None"
    using ca_list_facts [OF assms ys(2)] by auto
  have "save_all CARepository_Save ?xs [] = (None, [] @ map (\<lambda>c. (ca_ID c, c)) ?xs)"
    unfolding xs using dn by (intro save_all_CAs) (auto simp: comp_def)
  moreover have "map_of (map (\<lambda>c. (ca_ID c, c)) ?xs) = map_option ca_kept \<circ> map_of t"
    unfolding xs using ok(1) key by (intro map_of_map_key [OF _ ys(2)]) (auto simp: table_ok_def)
  ultimately show ?thesis by simp
qed

lemma all_secrets_mset: "mset (all_secrets t) = mset (map snd t)"
  by (simp add: all_secrets_def ListByPath_def)

lemma secret_kept_simps [simp]:
  "sv_Path (secret_kept sv) = sv_Path sv" "sv_Version (secret_kept sv) = sv_Version sv"
  "SecretVersion_Validate (secret_kept sv) = SecretVersion_Validate sv"
  by (simp_all add: secret_kept_def SecretVersion_Validate_def)

lemma restore_secrets:
  assumes "secrets_ok t"
  shows "\<exists>t'. save_all SaveVersion (map secretToDomain (map secretFromDomain (all_secrets t))) [] = (None, t') \<and>
    map_of t' = map_option secret_kept \<circ> map_of t"
proof -
  let ?key = "\<lambda>sv. (sv_Path sv, sv_Version sv)" and ?xs = "map secret_kept (all_secrets t)"
  have xs: "map secretToDomain (map secretFromDomain (all_secrets t)) = ?xs" by (simp add: secret_conv comp_def)
  have ok: "distinct (map fst t)" "\<And>k sv. (k, sv) \<in> set t \<Longrightarrow> k = ?key sv \<and> SecretVersion_Validate sv = Inr ()"
    using assms by (auto simp: secrets_ok_def store_wf_def)
  have m: "map ?key (map snd t) = map fst t" using ok(2) by auto
  have "distinct (map ?key (map snd t))" unfolding m by (rule ok(1))
  then have d: "distinct (map ?key (all_secrets t))" by (metis all_secrets_mset mset_eq_imp_distinct_iff mset_map)
  have v: "\<forall>sv \<in> set (all_secrets t). SecretVersion_Validate sv = Inr ()"
    using ok(2) all_secrets_mset [of t] by (metis (no_types, lifting) imageE prod.collapse set_map set_mset_mset)
  have "save_all SaveVersion ?xs [] = (None, [] @ map (\<lambda>sv. (?key sv, sv)) ?xs)"
    using d v by (intro save_all_secrets) (auto simp: comp_def)
  moreover have "map_of (map (\<lambda>sv. (?key sv, sv)) ?xs) = map_option secret_kept \<circ> map_of t"
    using ok by (intro map_of_map_key [OF _ all_secrets_mset]) auto
  ultimately show ?thesis unfolding xs by simp
qed

lemma restore_revoked:
  assumes ok: "revocations_ok r" and d: "distinct ids"
  shows "\<exists>r'. save_all RevocationRepository_Revoke (map revokedToDomain (map revokedFromDomain (concat (map (\<lambda>i. revoked_of i r) ids))))
      NewRevocationRepository = (None, r') \<and> (\<forall>i. revoked_of i r' = (if i \<in> set ids then revoked_of i r else []))"
proof -
  have of: "c \<in> set (revoked_of i r) \<Longrightarrow> rcert_CAID c = i \<and> map_of (rv_serial r) (rcert_Serial c) = Some c" "distinct (revoked_of i r)" for i c
    using ok unfolding revocations_ok_def revoked_of_def by (auto split: option.splits dest!: map_of_SomeD)
  have "distinct (map rcert_Serial (concat (map (\<lambda>i. revoked_of i r) ids)))"
    using d
  proof (induction ids)
    case (Cons i ids)
    have "inj_on rcert_Serial (set (revoked_of i r))" by (intro inj_onI) (metis of(1) option.inject)
    moreover have "rcert_Serial c \<notin> rcert_Serial ` set (concat (map (\<lambda>i. revoked_of i r) ids))" if "c \<in> set (revoked_of i r)" for c
      using that of(1) Cons.prems by (auto simp: image_iff) (metis option.inject)
    ultimately show ?case using Cons of(2) by (auto simp: distinct_map)
  qed simp
  then obtain r' where r': "save_all RevocationRepository_Revoke (concat (map (\<lambda>i. revoked_of i r) ids)) NewRevocationRepository = (None, r')"
    "\<And>i. revoked_of i r' = filter (\<lambda>c. rcert_CAID c = i) (concat (map (\<lambda>i. revoked_of i r) ids))"
    using save_all_revoked [of _ NewRevocationRepository] by (auto simp: NewRevocationRepository_def revoked_of_def)
  have "filter (\<lambda>c. rcert_CAID c = i) (concat (map (\<lambda>i. revoked_of i r) ids)) = (if i \<in> set ids then revoked_of i r else [])" for i
    using d
  proof (induction ids)
    case (Cons j ids)
    have "filter (\<lambda>c. rcert_CAID c = i) (revoked_of j r) = (if i = j then revoked_of j r else [])"
      using of(1) by (auto simp: filter_id_conv filter_empty_conv)
    then show ?case using Cons by auto
  qed simp
  then show ?thesis using r' by (simp add: revoked_conv comp_def)
qed

lemma sorted_pairs: "sorted (map a xs) \<Longrightarrow> sorted (map b xs) \<Longrightarrow> sorted (map (\<lambda>x. (a x, b x)) xs)"
  for a b :: "'a \<Rightarrow> int"
  by (induction xs) (auto simp: less_eq_prod_def)

lemma audit_sorted:
  assumes "entries_ok l" "sorted (map ae_Timestamp (fst l))"
  shows "sort_key (audit_order True) (fst l) = fst l"
proof (rule sort_key_id_if_sorted)
  have "sorted (map ae_ID (fst l))" using assms(1) by (simp add: entries_ok_def)
  then show "sorted (map (audit_order True) (fst l))"
    using sorted_pairs [OF assms(2)] by (simp add: audit_order_def [abs_def])
qed

section \<open>The snapshot validates\<close>

lemma from_domain_keys [simp]:
  "car_ID (caFromDomain c) = ca_ID c" "car_Name (caFromDomain c) = ca_Name c" "por_Name (policyFromDomain p) = pol_Name p"
  by (simp_all add: caFromDomain_def policyFromDomain_def)

lemma first_error_None: "first_error es = None \<longleftrightarrow> (\<forall>e \<in> set es. e = None)"
  by (induction es) (auto split: option.splits)

lemma check_cas_None:
  assumes "\<forall>c \<in> set cs. car_ID c \<noteq> uuid_Nil \<and> car_Name c \<noteq> []" "distinct (map car_ID cs)" "distinct (map car_Name cs)"
    and "set seen \<inter> car_ID ` set cs = {}" "set names \<inter> car_Name ` set cs = {}"
  shows "check_cas seen names cs = None"
  using assms by (induction cs arbitrary: seen names) auto

lemma check_issued_None:
  assumes "\<forall>c \<in> set cs. icr_CAID c \<noteq> uuid_Nil \<and> icr_CAID c \<in> set seen" "distinct (map (\<lambda>c. icr_CAID c @ '':'' @ icr_Serial c) cs)"
    and "\<forall>c \<in> set cs. icr_CAID c @ '':'' @ icr_Serial c \<notin> set used"
  shows "check_issued seen used cs = None"
  using assms
proof (induction cs arbitrary: used)
  case (Cons c cs)
  have "check_issued seen ((icr_CAID c @ '':'' @ icr_Serial c) # used) cs = None"
    using Cons.prems by (intro Cons.IH) (auto simp: image_iff)
  then show ?case using Cons.prems by (simp add: Let_def)
qed simp

definition wire_audit :: "Entry \<Rightarrow> AuditRecord" where
  "wire_audit e = (auditFromDomain e)\<lparr>aur_Details := omit_empty (aur_Details (auditFromDomain e))\<rparr>"

lemma computeHash_omit: "computeHash m h a b c d (omit_empty det) ts = computeHash m h a b c d det ts"
  by (cases det) (simp_all add: computeHash_def hash_payload_def omit_empty_def Let_def)

lemma ValidateRecordChain_wire: "ValidateRecordChain m prev (map wire_audit es) = None \<longleftrightarrow> validate_chain m prev es = None"
proof (induction es arbitrary: prev)
  case (Cons e es)
  have "aur_Hash (wire_audit e) = ae_Hash e"
    "computeHash m prev (aur_Actor (wire_audit e)) (aur_Action (wire_audit e)) (aur_Resource (wire_audit e)) (aur_Status (wire_audit e))
       (aur_Details (wire_audit e)) (aur_Timestamp (wire_audit e)) = EntryHash m prev e"
    by (simp_all add: wire_audit_def auditFromDomain_def EntryHash_def computeHash_omit)
  then show ?case using Cons by simp
qed simp

definition wire_of :: "go_time \<Rightarrow> Store \<Rightarrow> Snapshot" where
  "wire_of now s = \<lparr>
     sn_Version = formatVersion, sn_CreatedAt = now,
     sn_CAs = map caFromDomain (CARepository_List (st_CA s)),
     sn_Secrets = map secretFromDomain (all_secrets (st_Secret s)),
     sn_Revoked = map revokedFromDomain (concat (map (\<lambda>i. revoked_of i (st_Revoke s)) (map ca_ID (CARepository_List (st_CA s))))),
     sn_Policies = map policyFromDomain (PolicyRepository_List (st_Policy s)),
     sn_Roles = map roleFromDomain (RoleRepository_List (st_Role s)),
     sn_PKIRoles = map pkiRoleFromDomain (PKIRoleRepository_List (st_PKIRole s)),
     sn_DBRoles = map (\<lambda>r. (databaseRoleFromDomain r)\<lparr>dbr_Config := omit_empty (dbr_Config (databaseRoleFromDomain r))\<rparr>)
       (DatabaseRoleRepository_List (st_DBRole s)),
     sn_SSHRoles = map (\<lambda>r. (sshRoleFromDomain r)\<lparr>shr_Extensions := omit_empty (shr_Extensions (sshRoleFromDomain r))\<rparr>)
       (SSHRoleRepository_List (st_SSHRole s)),
     sn_Leases = map leaseFromDomain (LeaseRepository_List (st_Lease s)),
     sn_Issued = map issuedFromDomain (IssuedCertRepository_List (st_IssuedCert s)),
     sn_Audit = map wire_audit (fst (st_Audit s)),
     sn_Tokens = map tokenFromDomain (TokenRepository_List (st_Token s))\<rparr>"

lemma wire_of_simps:
  "sn_Version (wire_of now s) = formatVersion"
  "sn_CreatedAt (wire_of now s) = now"
  "sn_CAs (wire_of now s) = map caFromDomain (CARepository_List (st_CA s))"
  "sn_Secrets (wire_of now s) = map secretFromDomain (all_secrets (st_Secret s))"
  "sn_Revoked (wire_of now s) = map revokedFromDomain (concat (map (\<lambda>i. revoked_of i (st_Revoke s)) (map ca_ID (CARepository_List (st_CA s)))))"
  "sn_Policies (wire_of now s) = map policyFromDomain (PolicyRepository_List (st_Policy s))"
  "sn_Roles (wire_of now s) = map roleFromDomain (RoleRepository_List (st_Role s))"
  "sn_PKIRoles (wire_of now s) = map pkiRoleFromDomain (PKIRoleRepository_List (st_PKIRole s))"
  "sn_DBRoles (wire_of now s) = map (\<lambda>r. (databaseRoleFromDomain r)\<lparr>dbr_Config := omit_empty (dbr_Config (databaseRoleFromDomain r))\<rparr>) (DatabaseRoleRepository_List (st_DBRole s))"
  "sn_SSHRoles (wire_of now s) = map (\<lambda>r. (sshRoleFromDomain r)\<lparr>shr_Extensions := omit_empty (shr_Extensions (sshRoleFromDomain r))\<rparr>) (SSHRoleRepository_List (st_SSHRole s))"
  "sn_Leases (wire_of now s) = map leaseFromDomain (LeaseRepository_List (st_Lease s))"
  "sn_Issued (wire_of now s) = map issuedFromDomain (IssuedCertRepository_List (st_IssuedCert s))"
  "sn_Audit (wire_of now s) = map wire_audit (fst (st_Audit s))"
  "sn_Tokens (wire_of now s) = map tokenFromDomain (TokenRepository_List (st_Token s))"
  by (simp_all add: wire_of_def)

lemma SaveSnapshot_eq:
  assumes "entries_ok (st_Audit s)" "recoverable lib s"
  shows "SaveSnapshot now s = Inr (wire_of now s)"
proof -
  have l: "length (fst (st_Audit s)) \<le> 10000" "sorted (map ae_Timestamp (fst (st_Audit s)))"
    using assms(2) by (auto simp: recoverable_def)
  have "export_audit \<lparr>eo_IncludeAudit = True, eo_AuditLimit = 0\<rparr> (Some (st_Audit s)) = map auditFromDomain (fst (st_Audit s))"
    using l(1) audit_sorted [OF assms(1) l(2)] by (simp add: export_audit_def audit_List_def Let_def)
  then show ?thesis
    by (simp add: SaveSnapshot_def ExportSnapshot_def backup_Export_def Store_Repos_def records_def snapshot_wire_def
        RevocationRepository_ListByCA_def comp_def wire_audit_def wire_of_def)
qed

lemma ca_ids:
  assumes "ca_table_ok t" shows "set (map ca_ID (CARepository_List t)) = fst ` set t"
proof -
  have "set (CARepository_List t) = snd ` set t" by (simp add: CARepository_List_def)
  moreover have "\<And>k c. (k, c) \<in> set t \<Longrightarrow> k = ca_ID c" using assms by (auto simp: ca_table_ok_def table_ok_def)
  ultimately show ?thesis by force
qed

lemma ca_ids_distinct: "ca_table_ok t \<Longrightarrow> distinct (map ca_ID (CARepository_List t))"
  using ca_list_facts [of t "CARepository_List t"] by (simp add: CARepository_List_def)

lemma roles_known:
  assumes "store_ok lib s" "recoverable lib s" "r \<in> set (RoleRepository_List (st_Role s))"
  shows "role_Name r \<noteq> [] \<and> (\<forall>p \<in> set (role_Policies r). p \<in> pol_Name ` set (PolicyRepository_List (st_Policy s)))"
proof -
  obtain k where k: "(k, r) \<in> set (st_Role s)" using assms(3) role_tbl.Lst_set by force
  then have "Role_Validate r = None" using store_ok_parts(7) [OF assms(1)] by (auto simp: table_ok_def)
  moreover have "p \<in> pol_Name ` set (PolicyRepository_List (st_Policy s))" if p: "p \<in> set (role_Policies r)" for p
  proof -
    have "set (role_Policies r) \<subseteq> fst ` set (st_Policy s)" using assms(2) k unfolding recoverable_def by blast
    then obtain q where "(p, q) \<in> set (st_Policy s)" using p by fastforce
    moreover from this have "pol_Name q = p" using store_ok_parts(6) [OF assms(1)] by (auto simp: table_ok_def)
    ultimately show ?thesis unfolding policy_table.Lst_set by force
  qed
  ultimately show ?thesis by (auto simp: Role_Validate_def split: if_splits)
qed

lemma pki_known:
  assumes "store_ok lib s" "recoverable lib s" "r \<in> set (PKIRoleRepository_List (st_PKIRole s))"
  shows "pkr_Name r \<noteq> [] \<and> pkr_CAName r \<noteq> [] \<and> pkr_CAName r \<in> (\<lambda>e. ca_Name (snd e)) ` set (st_CA s)"
proof -
  obtain k where k: "(k, r) \<in> set (st_PKIRole s)" using assms(3) pki_role_table.Lst_set by force
  then have "PKIRole_Validate r = Inr r" using store_ok_parts(8) [OF assms(1)] by (auto simp: table_ok_def)
  moreover have "pkr_CAName r \<in> (\<lambda>e. ca_Name (snd e)) ` set (st_CA s)" using k assms(2) by (fastforce simp: recoverable_def comp_def)
  ultimately show ?thesis by (auto simp: PKIRole_Validate_def split: if_splits)
qed

lemma issued_known:
  assumes "store_ok lib s" "recoverable lib s"
  shows "(\<forall>c \<in> set (IssuedCertRepository_List (st_IssuedCert s)). ic_CAID c \<noteq> uuid_Nil \<and> ic_CAID c \<in> fst ` set (st_CA s)) \<and>
    distinct (map (\<lambda>c. ic_CAID c @ '':'' @ ic_Serial c) (IssuedCertRepository_List (st_IssuedCert s)))"
proof -
  note tok = store_ok_parts(11) [OF assms(1)]
  have "ic_CAID c \<noteq> uuid_Nil \<and> ic_CAID c \<in> fst ` set (st_CA s)" if c: "c \<in> set (IssuedCertRepository_List (st_IssuedCert s))" for c
  proof -
    obtain k where k: "(k, c) \<in> set (st_IssuedCert s)" using c issued_table.Lst_set by force
    then have "IssuedCertificate_Validate c = None" using tok by (auto simp: table_ok_def)
    then show ?thesis using k assms(2) by (fastforce simp: recoverable_def IssuedCertificate_Validate_def split: if_splits)
  qed
  then show ?thesis using issued_table.Lst_distinct [OF tok] by (simp add: cert_key_of_def [abs_def] certKey_def)
qed

lemma snapshot_validates:
  assumes ok: "store_ok lib s" and rec: "recoverable lib s"
  shows "ValidateSnapshot (vl_Marshal lib) (wire_of now s) = None"
proof -
  note parts = store_ok_parts [OF ok]
  have cas: "mset (CARepository_List (st_CA s)) = mset (map snd (st_CA s))" by (simp add: CARepository_List_def)
  have st: "set (CARepository_List (st_CA s)) = snd ` set (st_CA s)" using cas by (metis set_map set_mset_mset)
  have key: "\<And>k c. (k, c) \<in> set (st_CA s) \<Longrightarrow> k = ca_ID c" using parts(1) by (auto simp: ca_table_ok_def table_ok_def)
  have ids: "set (map ca_ID (CARepository_List (st_CA s))) = fst ` set (st_CA s)" using key by (force simp: st)
  have facts: "distinct (map ca_ID (CARepository_List (st_CA s)))" "distinct (map ca_Name (CARepository_List (st_CA s)))"
    "\<forall>c \<in> set (CARepository_List (st_CA s)). CA_Validate c = None" using ca_list_facts [OF parts(1) cas] by auto
  have c1: "check_cas [] [] (map caFromDomain (CARepository_List (st_CA s))) = None"
    using facts by (intro check_cas_None) (auto simp: caFromDomain_def comp_def CA_Validate_def split: if_splits)
  have c2: "check_parent (map ca_ID (CARepository_List (st_CA s))) (caFromDomain c) = None" if "c \<in> set (CARepository_List (st_CA s))" for c
    using that rec unfolding check_parent_def caFromDomain_def ids st recoverable_def
    by (auto split: option.splits)
  have c3: "check_policy (policyFromDomain p) = None" if "p \<in> set (PolicyRepository_List (st_Policy s))" for p
    using that policy_table.Lst_set parts(6)
    by (fastforce simp: check_policy_def policyFromDomain_def table_ok_def Policy_Validate_def split: if_splits)
  have c4: "check_role (map pol_Name (PolicyRepository_List (st_Policy s))) (roleFromDomain r) = None"
    if "r \<in> set (RoleRepository_List (st_Role s))" for r
    using that roles_known [OF ok rec] by (simp add: check_role_def roleFromDomain_def list_all_iff)
  have c5: "check_pki_role (map ca_Name (CARepository_List (st_CA s))) (pkiRoleFromDomain r) = None"
    if "r \<in> set (PKIRoleRepository_List (st_PKIRole s))" for r
    using that pki_known [OF ok rec] st by (simp add: check_pki_role_def pkiRoleFromDomain_def image_image comp_def)
  have c6: "check_issued (map ca_ID (CARepository_List (st_CA s))) [] (map issuedFromDomain (IssuedCertRepository_List (st_IssuedCert s))) = None"
    using issued_known [OF ok rec] ids by (intro check_issued_None) (auto simp: issuedFromDomain_def comp_def)
  have c7: "validateAuditRecords (vl_Marshal lib) (map wire_audit (fst (st_Audit s))) = None"
    using rec by (simp add: validateAuditRecords_def ValidateRecordChain_wire recoverable_def ValidateChain_def)
  show ?thesis
    using c1 c2 c3 c4 c5 c6 c7 unfolding ValidateSnapshot_def wire_of_def
    by (simp add: first_error_None comp_def ball_Un)
qed

section \<open>Recovery\<close>

interpretation policy_draw: keyed_repository pol_Name "\<lambda>p. Policy_Validate p = Inr ()" "\<lambda>p. Policy_prep (draw (pol_Name p)) p"
  "\<lambda>p. PolicyRepository_Save (draw (pol_Name p)) p" PolicyRepository_List
  by unfold_locales (auto simp: Policy_prep_def PolicyRepository_Save_def PolicyRepository_List_def split: sum.splits)

lemma restore_loop_eval:
  "get rs = Some t \<Longrightarrow> save_all save vs t = (None, t') \<Longrightarrow> restore_loop m save vs get put rs = (None, put (Some t') rs)"
  by (simp add: restore_loop_def)

lemma keyed_conv:
  "Policy_Validate p = Inr () \<Longrightarrow> pol_Actions p \<noteq> [] \<Longrightarrow>
     Policy_prep (draw (pol_Name (policyToDomain (policyFromDomain p)))) (policyToDomain (policyFromDomain p)) = Inr (policy_kept draw p)"
  "pol_Name (policyToDomain (policyFromDomain p)) = pol_Name p"
  "role_Name (role_kept r) = role_Name r" "Role_Validate (role_kept r) = Role_Validate r"
  "le_ID (lease_kept l) = le_ID l" "Lease_Validate (lease_kept l) = Lease_Validate l"
  "ct_ID (token_kept t) = ct_ID t" "db_Name (db_kept d) = db_Name d" "sh_Name (ssh_kept h) = sh_Name h"
proof -
  show n: "pol_Name (policyToDomain (policyFromDomain p)) = pol_Name p" by (simp add: policyToDomain_def policyFromDomain_def)
  assume "Policy_Validate p = Inr ()" "pol_Actions p \<noteq> []"
  then show "Policy_prep (draw (pol_Name (policyToDomain (policyFromDomain p)))) (policyToDomain (policyFromDomain p)) = Inr (policy_kept draw p)"
    unfolding n by (simp add: Policy_prep_def policy_conv_valid policy_conv)
qed (simp_all add: role_kept_def Role_Validate_def lease_kept_def Lease_Validate_def token_kept_def db_kept_def ssh_kept_def)

text \<open>The keyed tables, one after the other.\<close>

lemma table_ok_valid: "table_ok key valid t \<Longrightarrow> v \<in> snd ` set t \<Longrightarrow> valid v"
  by (auto simp: table_ok_def)

lemma restore_roles:
  assumes "table_ok role_Name (\<lambda>r. Role_Validate r = None) t"
  shows "\<exists>t'. save_all RoleRepository_Save (map roleToDomain (map roleFromDomain (RoleRepository_List t))) [] = (None, t') \<and>
    map_of t' = map_option role_kept \<circ> map_of t"
  using role_tbl.restore_table [OF assms, where conv = role_kept and proj = role_kept] table_ok_valid [OF assms]
  by (auto simp: keyed_conv role_conv comp_def)

lemma restore_leases:
  assumes "table_ok le_ID (\<lambda>l. Lease_Validate l = None) t"
  shows "\<exists>t'. save_all LeaseRepository_Save (map leaseToDomain (map leaseFromDomain (LeaseRepository_List t))) [] = (None, t') \<and>
    map_of t' = map_option lease_kept \<circ> map_of t"
  using lease_table.restore_table [OF assms, where conv = lease_kept and proj = lease_kept] table_ok_valid [OF assms]
  by (auto simp: keyed_conv lease_conv comp_def)

lemma restore_tokens:
  assumes "table_ok ct_ID (\<lambda>t. ct_ID t \<noteq> []) t"
  shows "\<exists>t'. save_all TokenRepository_Save (map tokenToDomain (map tokenFromDomain (TokenRepository_List t))) [] = (None, t') \<and>
    map_of t' = map_option token_kept \<circ> map_of t"
  using token_tbl.restore_table [OF assms, where conv = token_kept and proj = token_kept] table_ok_valid [OF assms]
  by (auto simp: keyed_conv token_conv comp_def)

lemma restore_pki_roles:
  assumes "table_ok pkr_Name (\<lambda>r. PKIRole_Validate r = Inr r) t"
  shows "\<exists>t'. save_all PKIRoleRepository_Save (map pkiRoleToDomain (map pkiRoleFromDomain (PKIRoleRepository_List t))) [] = (None, t') \<and>
    map_of t' = map_of t"
  using pki_role_table.restore_table [OF assms, where conv = "\<lambda>v. v" and proj = "\<lambda>v. v"] table_ok_valid [OF assms]
  by (auto simp: pki_conv comp_def option.map_ident)

lemma restore_issued:
  assumes "table_ok cert_key_of (\<lambda>c. IssuedCertificate_Validate c = None) t"
  shows "\<exists>t'. save_all IssuedCertRepository_Save (map issuedToDomain (map issuedFromDomain (IssuedCertRepository_List t))) [] = (None, t') \<and>
    map_of t' = map_of t"
  using issued_table.restore_table [OF assms, where conv = "\<lambda>v. v" and proj = "\<lambda>v. v"] table_ok_valid [OF assms]
  by (auto simp: issued_conv comp_def option.map_ident)

lemma restore_policies:
  assumes "table_ok pol_Name (\<lambda>p. Policy_Validate p = Inr ()) t" "\<forall>(_, p) \<in> set t. pol_Actions p \<noteq> []"
  shows "\<exists>t'. save_all (\<lambda>p. PolicyRepository_Save (draw (pol_Name p)) p) (map policyToDomain (map policyFromDomain (PolicyRepository_List t))) [] = (None, t') \<and>
    map_of t' = map_option (policy_kept draw) \<circ> map_of t"
proof -
  let ?c = "policyToDomain \<circ> policyFromDomain"
  have "Policy_prep (draw (pol_Name (?c p))) (?c p) = Inr (policy_kept draw p) \<and> pol_Name (?c p) = pol_Name p" if "p \<in> snd ` set t" for p
  proof -
    have "pol_Actions p \<noteq> []" using assms(2) that by force
    then show ?thesis using keyed_conv(1) [OF table_ok_valid [OF assms(1) that]] keyed_conv(2) by simp
  qed
  then show ?thesis using policy_draw.restore_table [OF assms(1), of draw ?c "policy_kept draw"] unfolding list.map_comp by blast
qed

lemma restore_db_roles:
  assumes "table_ok db_Name (\<lambda>r. DatabaseRole_Validate up r = Inr r) t"
  shows "\<exists>t'. save_all (DatabaseRoleRepository_Save up) (map databaseRoleToDomain (map (\<lambda>r. (databaseRoleFromDomain r)\<lparr>dbr_Config := omit_empty (dbr_Config (databaseRoleFromDomain r))\<rparr>) (DatabaseRoleRepository_List t))) [] = (None, t') \<and>
    map_of t' = map_option db_kept \<circ> map_of t"
proof -
  have n: "db_normal r" if "r \<in> snd ` set t" for r using DatabaseRole_Validate_normal NormalizeDatabaseRole_normal table_ok_valid [OF assms that] by metis
  then have eq: "map databaseRoleToDomain (map (\<lambda>r. (databaseRoleFromDomain r)\<lparr>dbr_Config := omit_empty (dbr_Config (databaseRoleFromDomain r))\<rparr>) (DatabaseRoleRepository_List t)) = map db_kept (DatabaseRoleRepository_List t)"
    unfolding list.map_comp using db_role_table.Lst_set [of t] by (intro map_cong refl) (simp add: db_conv)
  show ?thesis unfolding eq
    using db_role_table.restore_table [OF assms, where conv = db_kept and proj = db_kept] table_ok_valid [OF assms]
    by (auto simp: keyed_conv db_kept_valid)
qed

lemma restore_ssh_roles:
  assumes "table_ok sh_Name (\<lambda>r. SSHRole_Validate r = Inr r) t"
  shows "\<exists>t'. save_all SSHRoleRepository_Save (map sshRoleToDomain (map (\<lambda>r. (sshRoleFromDomain r)\<lparr>shr_Extensions := omit_empty (shr_Extensions (sshRoleFromDomain r))\<rparr>) (SSHRoleRepository_List t))) [] = (None, t') \<and>
    map_of t' = map_option ssh_kept \<circ> map_of t"
proof -
  have n: "ssh_normal r" if "r \<in> snd ` set t" for r using SSHRole_Validate_normal NormalizeSSHRole_normal table_ok_valid [OF assms that] by metis
  then have eq: "map sshRoleToDomain (map (\<lambda>r. (sshRoleFromDomain r)\<lparr>shr_Extensions := omit_empty (shr_Extensions (sshRoleFromDomain r))\<rparr>) (SSHRoleRepository_List t)) = map ssh_kept (SSHRoleRepository_List t)"
    unfolding list.map_comp using ssh_role_table.Lst_set [of t] by (intro map_cong refl) (simp add: ssh_conv)
  show ?thesis unfolding eq
    using ssh_role_table.restore_table [OF assms, where conv = ssh_kept and proj = ssh_kept] table_ok_valid [OF assms]
    by (auto simp: keyed_conv ssh_kept_valid)
qed

lemma restore_audit:
  assumes "entries_ok l"
  shows "save_all Append (map auditToDomain (map wire_audit (fst l))) NewAuditRepository = (None, map audit_kept (fst l), snd l)"
proof -
  let ?es = "map audit_kept (fst l)"
  have v: "\<forall>e \<in> set ?es. Entry_Validate e = Inr ()"
    using assms by (auto simp: entries_ok_def audit_kept_def Entry_Validate_def split: if_splits)
  have m: "map auditToDomain (map wire_audit (fst l)) = map (\<lambda>e. e\<lparr>ae_ID := 0\<rparr>) ?es"
    by (simp add: audit_conv wire_audit_def comp_def)
  have ids: "map ae_ID ?es = [1..int (length ?es)]" "snd l = int (length ?es) + 1"
    using assms by (auto simp: entries_ok_def audit_kept_def comp_def)
  have "map2 (\<lambda>e i. e\<lparr>ae_ID := i\<rparr>) ?es (map ae_ID ?es) = ?es" by (intro nth_equalityI) auto
  then show ?thesis using save_all_audit [OF v, of "[]" 1] ids unfolding m by (simp add: NewAuditRepository_def)
qed

lemmas clear_defs = CARepository_Clear_def SecretRepository_Clear_def AuditRepository_Clear_def
  RevocationRepository_Clear_def LeaseRepository_Clear_def PolicyRepository_Clear_def RoleRepository_Clear_def
  PKIRoleRepository_Clear_def DatabaseRoleRepository_Clear_def SSHRoleRepository_Clear_def
  IssuedCertRepository_Clear_def TokenRepository_Clear_def

lemma run_restore:
  assumes "\<exists>t. save_all CARepository_Save (map caToDomain (sortCAs (sn_CAs sn))) [] = (None, t) \<and> P1 t"
    "\<exists>t. save_all SaveVersion (map secretToDomain (sn_Secrets sn)) [] = (None, t) \<and> P2 t"
    "\<exists>t. save_all RevocationRepository_Revoke (map revokedToDomain (sn_Revoked sn)) NewRevocationRepository = (None, t) \<and> P3 t"
    "\<exists>t. save_all (\<lambda>p. PolicyRepository_Save (draw (pol_Name p)) p) (map policyToDomain (sn_Policies sn)) [] = (None, t) \<and> P4 t"
    "\<exists>t. save_all RoleRepository_Save (map roleToDomain (sn_Roles sn)) [] = (None, t) \<and> P5 t"
    "\<exists>t. save_all PKIRoleRepository_Save (map pkiRoleToDomain (sn_PKIRoles sn)) [] = (None, t) \<and> P6 t"
    "\<exists>t. save_all (DatabaseRoleRepository_Save (vl_url_password lib)) (map databaseRoleToDomain (sn_DBRoles sn)) [] = (None, t) \<and> P7 t"
    "\<exists>t. save_all SSHRoleRepository_Save (map sshRoleToDomain (sn_SSHRoles sn)) [] = (None, t) \<and> P8 t"
    "\<exists>t. save_all LeaseRepository_Save (map leaseToDomain (sn_Leases sn)) [] = (None, t) \<and> P9 t"
    "\<exists>t. save_all IssuedCertRepository_Save (map issuedToDomain (sn_Issued sn)) [] = (None, t) \<and> P10 t"
    "\<exists>t. save_all TokenRepository_Save (map tokenToDomain (sn_Tokens sn)) [] = (None, t) \<and> P11 t"
    "\<exists>t. save_all Append (map auditToDomain (sn_Audit sn)) NewAuditRepository = (None, t) \<and> P12 t"
    and v: "ValidateSnapshot (vl_Marshal lib) sn = None"
  shows "\<exists>s'. ImportSnapshot lib draw sn s0 = (None, s') \<and> P1 (st_CA s') \<and> P2 (st_Secret s') \<and> P3 (st_Revoke s') \<and>
    P4 (st_Policy s') \<and> P5 (st_Role s') \<and> P6 (st_PKIRole s') \<and> P7 (st_DBRole s') \<and> P8 (st_SSHRole s') \<and> P9 (st_Lease s') \<and>
    P10 (st_IssuedCert s') \<and> P11 (st_Token s') \<and> P12 (st_Audit s') \<and> st_MachineIdentity s' = [] \<and> st_RotationPolicy s' = []"
proof -
  have "ClearRepos (Store_Repos NewStore) = Store_Repos NewStore"
    by (simp add: ClearRepos_def Store_Repos_def NewStore_def clear_defs NewSecretRepository_def NewAuditRepository_def NewRevocationRepository_def)
  then have r: "Restore lib draw sn (Store_Repos NewStore) = run_all (restore_loops lib draw sn) (Store_Repos NewStore)"
    using v by (simp add: Restore_def) (simp add: Store_Repos_def)
  obtain t1 t2 t3 t4 t5 t6 where
    l1: "save_all CARepository_Save (map caToDomain (sortCAs (sn_CAs sn))) [] = (None, t1)" "P1 t1"
    and l2: "save_all SaveVersion (map secretToDomain (sn_Secrets sn)) [] = (None, t2)" "P2 t2"
    and l3: "save_all RevocationRepository_Revoke (map revokedToDomain (sn_Revoked sn)) NewRevocationRepository = (None, t3)" "P3 t3"
    and l4: "save_all (\<lambda>p. PolicyRepository_Save (draw (pol_Name p)) p) (map policyToDomain (sn_Policies sn)) [] = (None, t4)" "P4 t4"
    and l5: "save_all RoleRepository_Save (map roleToDomain (sn_Roles sn)) [] = (None, t5)" "P5 t5"
    and l6: "save_all PKIRoleRepository_Save (map pkiRoleToDomain (sn_PKIRoles sn)) [] = (None, t6)" "P6 t6"
    using assms(1-6) by (elim exE conjE)
  obtain t7 t8 t9 t10 t11 t12 where
    l7: "save_all (DatabaseRoleRepository_Save (vl_url_password lib)) (map databaseRoleToDomain (sn_DBRoles sn)) [] = (None, t7)" "P7 t7"
    and l8: "save_all SSHRoleRepository_Save (map sshRoleToDomain (sn_SSHRoles sn)) [] = (None, t8)" "P8 t8"
    and l9: "save_all LeaseRepository_Save (map leaseToDomain (sn_Leases sn)) [] = (None, t9)" "P9 t9"
    and l10: "save_all IssuedCertRepository_Save (map issuedToDomain (sn_Issued sn)) [] = (None, t10)" "P10 t10"
    and l11: "save_all TokenRepository_Save (map tokenToDomain (sn_Tokens sn)) [] = (None, t11)" "P11 t11"
    and l12: "save_all Append (map auditToDomain (sn_Audit sn)) NewAuditRepository = (None, t12)" "P12 t12"
    using assms(7-12) by (elim exE conjE)
  have loops: "run_all (restore_loops lib draw sn) (Store_Repos NewStore) = (None, \<lparr>
      rp_CA = Some t1, rp_Secret = Some t2, rp_Audit = Some t12, rp_Revoke = Some t3, rp_Lease = Some t9, rp_Policy = Some t4,
      rp_Role = Some t5, rp_PKIRole = Some t6, rp_DBRole = Some t7, rp_SSHRole = Some t8, rp_IssuedCert = Some t10, rp_Token = Some t11\<rparr>)"
    unfolding restore_loops_def Store_Repos_def NewStore_def NewSecretRepository_def
    by (simp only: run_all.simps restore_loop_def Store.select_convs Repos.select_convs Repos.update_convs option.case prod.case
        l1(1) l2(1) l3(1) l4(1) l5(1) l6(1) l7(1) l8(1) l9(1) l10(1) l11(1) l12(1) option.map)
  show ?thesis
    unfolding ImportSnapshot_def v r loops option.case prod.case
    using l1(2) l2(2) l3(2) l4(2) l5(2) l6(2) l7(2) l8(2) l9(2) l10(2) l11(2) l12(2) by (simp add: through_repos_def NewStore_def)
qed

lemma snapshot_round_trip:
  assumes ok: "store_ok lib s" and rec: "recoverable lib s"
  shows "\<exists>sn s'. SaveSnapshot now s = Inr sn \<and> RecoverFromSnapshot lib draw sn s0 = (None, s') \<and> recovered draw s s'"
proof -
  note parts = store_ok_parts [OF ok]
  have acts: "\<forall>(_, p) \<in> set (st_Policy s). pol_Actions p \<noteq> []" using rec by (simp add: recoverable_def)
  have rev: "\<exists>t. save_all RevocationRepository_Revoke (map revokedToDomain (map revokedFromDomain
      (concat (map (\<lambda>i. revoked_of i (st_Revoke s)) (map ca_ID (CARepository_List (st_CA s))))))) NewRevocationRepository = (None, t) \<and>
    (\<forall>i. revoked_of i t = (if map_of (st_CA s) i = None then [] else revoked_of i (st_Revoke s)))"
    using restore_revoked [OF parts(4) ca_ids_distinct [OF parts(1)]] ca_ids [OF parts(1)] by (auto simp: map_of_eq_None_iff)
  have aud: "\<exists>t. save_all Append (map auditToDomain (map wire_audit (fst (st_Audit s)))) NewAuditRepository = (None, t) \<and>
    t = (map audit_kept (fst (st_Audit s)), snd (st_Audit s))" using restore_audit [OF parts(3)] by simp
  let ?sn = "wire_of now s"
  note run = run_restore [where sn = ?sn and lib = lib and draw = draw and ?s0.0 = s0, unfolded wire_of_simps,
      OF _ _ _ _ _ _ _ _ _ _ _ _ snapshot_validates [OF ok rec]]
  have "\<exists>s'. ImportSnapshot lib draw ?sn s0 = (None, s') \<and> recovered draw s s'"
    unfolding recovered_def
    using run [OF restore_CAs [OF parts(1)] restore_secrets [OF parts(2)] rev restore_policies [OF parts(6) acts]
        restore_roles [OF parts(7)] restore_pki_roles [OF parts(8)] restore_db_roles [OF parts(9)] restore_ssh_roles [OF parts(10)]
        restore_leases [OF parts(5)] restore_issued [OF parts(11)] restore_tokens [OF parts(12)] aud]
    by blast
  then show ?thesis using SaveSnapshot_eq [OF parts(3) rec] by (simp add: RecoverFromSnapshot_def)
qed

section \<open>The properties\<close>


text \<open>A store with an agent token, a policy and a role that names it.\<close>

definition agent_role :: Role where
  "agent_role = \<lparr>role_Name = ''app'', role_Policies = [''ops''], role_PolicyGroups = [], role_BoundServiceAccountNames = [''app''],
     role_BoundServiceAccountNamespaces = [''ns''], role_AuthMethod = [], role_OIDC = None, role_RequireMFA = True\<rparr>"

definition agent_token :: ClientToken where
  "agent_token = \<lparr>ct_ID = ''t1'', ct_Subject = ''agent:a1'', ct_Policies = [''ops''], ct_ExpiresAt = 100, ct_Renewable = False,
     ct_Revoked = False, ct_ParentIdentityID = ''p'', ct_AgentID = ''a1'', ct_AllowedActions = [''read''],
     ct_PathPrefix = ''agent/a1/'', ct_MaxExpiresAt = 100\<rparr>"

definition agent_store :: Store where
  "agent_store = NewStore\<lparr>st_Policy := [(''ops'', demo_policy)], st_Role := [(''app'', agent_role)],
     st_Token := [(''t1'', agent_token)]\<rparr>"

lemma agent_store_ok: "store_ok demo_lib agent_store"
  using NewStore_ok [of demo_lib]
  by (simp add: store_ok_defs agent_store_def NewStore_def table_ok_def demo_policy_valid agent_role_def Role_Validate_def
      agent_token_def) (simp add: demo_policy_def)

lemma agent_store_recoverable: "recoverable demo_lib agent_store"
  by (simp add: recoverable_def agent_store_def NewStore_def NewAuditRepository_def ValidateChain_def demo_policy_def agent_role_def)


text \<open>
  C36. An agent token that is recovered from a snapshot has lost its scope: the decision for a request is the one its
  policies alone give, whatever actions and path prefix it was delegated for.
\<close>
theorem agent_scope_lost:
  assumes "store_ok lib s" and "recoverable lib s" and "map_of (st_Token s) i = Some t"
  shows "\<exists>sn s' t'. SaveSnapshot now s = Inr sn \<and> RecoverFromSnapshot lib draw sn s0 = (None, s') \<and>
    map_of (st_Token s') i = Some t' \<and> ct_Policies t' = ct_Policies t \<and> (\<forall>n. Active t' n = Active t n) \<and>
    (\<forall>resource action r. fst (svc_Authorize None fc clock None (principal_of t') resource action r) = None \<longleftrightarrow>
       Authorize clock r (ct_Policies t) resource action (request_of None (principal_of t') resource action))"
proof -
  obtain sn s' where s': "SaveSnapshot now s = Inr sn" "RecoverFromSnapshot lib draw sn s0 = (None, s')" "recovered draw s s'"
    using snapshot_round_trip [OF assms(1,2)] by blast
  have "map_of (st_Token s') i = Some (token_kept t)" using s'(3) assms(3) by (simp add: recovered_def)
  then show ?thesis using s'(1,2)
    by (auto simp: token_kept_def Active_def svc_Authorize_def principal_of_def ActionAllowedForPrincipal_def
        KVPathAllowedForPrincipal_def syncRBAC_def)
qed

theorem agent_scope_lost_witness:
  "\<exists>sn s' t'. SaveSnapshot 7 agent_store = Inr sn \<and> RecoverFromSnapshot demo_lib (\<lambda>n. n) sn NewStore = (None, s') \<and>
    map_of (st_Token s') ''t1'' = Some t' \<and> ct_Policies t' = ct_Policies agent_token \<and> (\<forall>n. Active t' n = Active agent_token n) \<and>
    (\<forall>resource action r. fst (svc_Authorize None True 1 None (principal_of t') resource action r) = None \<longleftrightarrow>
       Authorize 1 r (ct_Policies agent_token) resource action (request_of None (principal_of t') resource action))"
  by (rule agent_scope_lost [OF agent_store_ok agent_store_recoverable]) (simp add: agent_store_def)

lemma SaveSnapshot_references:
  "\<exists>sn. SaveSnapshot now s = Inr sn \<and> sn_Policies sn = map policyFromDomain (PolicyRepository_List (st_Policy s)) \<and>
     sn_Roles sn = map roleFromDomain (RoleRepository_List (st_Role s))"
  by (simp add: SaveSnapshot_def ExportSnapshot_def backup_Export_def Store_Repos_def records_def snapshot_wire_def)

lemma first_error_found: "e \<in> set es \<Longrightarrow> e \<noteq> None \<Longrightarrow> first_error es \<noteq> None"
  by (auto simp: first_error_None)

text \<open>
  C37. A role that names a policy which is not stored, for example one that was deleted or one of the policies built
  into the server, makes every snapshot of the store unusable: the recovery fails and the replica keeps its old store.
\<close>
theorem unknown_policy_blocks_recovery:
  assumes "store_ok lib s" and "(k, r) \<in> set (st_Role s)" and "p \<in> set (role_Policies r)" and "map_of (st_Policy s) p = None"
  shows "\<exists>sn err. SaveSnapshot now s = Inr sn \<and> RecoverFromSnapshot lib draw sn s0 = (Some err, s0)"
proof -
  obtain sn where sn: "SaveSnapshot now s = Inr sn" "sn_Policies sn = map policyFromDomain (PolicyRepository_List (st_Policy s))"
    "sn_Roles sn = map roleFromDomain (RoleRepository_List (st_Role s))" using SaveSnapshot_references by blast
  have r: "roleFromDomain r \<in> set (sn_Roles sn)" using assms(2) unfolding sn by (force simp: role_tbl.Lst_set)
  have "pol_Name q \<noteq> p" if "q \<in> set (PolicyRepository_List (st_Policy s))" for q
  proof -
    obtain n where "(n, q) \<in> set (st_Policy s)" using \<open>q \<in> _\<close> by (auto simp: policy_table.Lst_set)
    moreover from this have "n = pol_Name q" using store_ok_parts(6) [OF assms(1)] by (auto simp: table_ok_def)
    ultimately show ?thesis using assms(4) by (force simp: map_of_eq_None_iff)
  qed
  then have "p \<notin> set (map por_Name (sn_Policies sn))" by (auto simp: sn policyFromDomain_def)
  then have bad: "check_role (map por_Name (sn_Policies sn)) (roleFromDomain r) \<noteq> None"
    using assms(3) by (auto simp: check_role_def roleFromDomain_def list_all_iff)
  have mem: "check_role (map por_Name (sn_Policies sn)) (roleFromDomain r)
      \<in> set (map (check_role (map por_Name (sn_Policies sn))) (sn_Roles sn))" using r by simp
  have "ValidateSnapshot (vl_Marshal lib) sn \<noteq> None"
    unfolding ValidateSnapshot_def
    by (simp only: split: if_split) (intro conjI impI first_error_found [OF _ bad], simp, simp only: set_append Un_iff mem simp_thms)
  then show ?thesis using sn(1) by (auto simp: RecoverFromSnapshot_def ImportSnapshot_def)
qed

theorem unknown_policy_blocks_recovery_witness:
  "\<exists>sn err. SaveSnapshot 7 (agent_store\<lparr>st_Policy := []\<rparr>) = Inr sn \<and>
     RecoverFromSnapshot demo_lib (\<lambda>n. n) sn NewStore = (Some err, NewStore)"
  by (rule unknown_policy_blocks_recovery [where lib = demo_lib and r = agent_role and k = "''app''" and p = "''ops''"])
    (use agent_store_ok in \<open>simp_all add: store_ok_defs agent_store_def agent_role_def\<close>)

end
