(* ===== verification/Spec2Isabelle.thy ===== *)
theory Spec2Isabelle
  imports Rbac Shamir Crypto Ttl SecretRepo KVv2 Cubbyhole Wrapping Token AuthService Lockout Login SealState AuditLog Sql
    NamedTables Recovery
begin

text \<open>
  Verification of knxvault, a secrets server written in Go. All paths are relative to
  \<^verbatim>\<open>src/internal\<close>.

  \<^bold>\<open>The program.\<close> Requests come with a token or log in with one of several methods
  (\<^verbatim>\<open>auth\<close>); policies decide what a request may do (\<^verbatim>\<open>domain/auth\<close>, \<^verbatim>\<open>auth/rbac.go\<close>).
  Engines keep secrets as encrypted versions under paths (\<^verbatim>\<open>engine/secrets\<close>) in a repository;
  each version is encrypted with its own data key, which is wrapped by a key of a versioned ring
  (\<^verbatim>\<open>crypto\<close>). The vault can be sealed, and is unsealed with a key or with Shamir shares of it
  (\<^verbatim>\<open>app/seal.go\<close>, \<^verbatim>\<open>crypto/shamir\<close>). Every access leaves a record in a hash-chained audit log
  (\<^verbatim>\<open>audit\<close>). All state lives in in-memory repositories (\<^verbatim>\<open>repository/memory\<close>) that a replicated
  state machine changes by commands (\<^verbatim>\<open>raft\<close>) and that snapshots carry to other replicas
  (\<^verbatim>\<open>backup\<close>).

  \<^bold>\<open>The language and its library.\<close> \<open>Prelude\<close>: errors as values, results \<open>error + 'a\<close>, dynamically typed
  values, association lists for maps. A formatted message is represented by its format string. \<open>Bytes\<close>: byte strings and
  random sources as arguments. \<open>GoStrings\<close>, \<open>GoTime\<close>, \<open>GoNet\<close>, \<open>GoEncoding\<close>: the functions of the packages strings, time, net,
  hex, base64, sha256 and hmac that the sources call. Instants are nanoseconds, durations
  64-bit integers that wrap where the source multiplies them.

  \<^bold>\<open>Policies.\<close> \<open>Glob\<close>: both pattern matchers; the enforced one decides the language of the pattern.
  \<open>Policy\<close>: policies, their validation and conditions. \<open>Rbac\<close>: the policy table, the expansion of
  includes, which ends and yields the reachable names, and the decision, which is characterised by the
  reachable policies that grant and deny.

  \<^bold>\<open>Cryptography.\<close> \<open>Shamir\<close>: the field of 256 elements on bytes, splitting and combining; enough shares
  give the secret, fewer say nothing about it. \<open>Crypto\<close>: envelope, key ring, service; what was sealed opens, also after
  later rotations. AES-GCM is a parameter with the laws of an authenticated cipher (\<open>gcm_laws\<close>).

  \<^bold>\<open>Secrets.\<close> \<open>Ttl\<close>: \<^verbatim>\<open>utils/duration.go\<close>. \<open>SecretRepo\<close>: the version store, with the locale for the contract
  that the engines rely on, interpreted on the in-memory repository. \<open>KVv2\<close>, \<open>Cubbyhole\<close>, \<open>Wrapping\<close>:
  the three engines over that contract. Writes are read back, versions only grow, namespaces do not
  interfere, a wrapped value is handed out once, also when calls interleave (a step relation over the load, claim and
  finish of each call). JSON is a parameter with a decoding law.

  \<^bold>\<open>Access.\<close> \<open>Token\<close>: the token store and repository. \<open>AuthService\<close>: authorisation, delegation to agents and the
  permission checks of the HTTP layer. \<open>Lockout\<close>: the tracker of failed logins. \<open>Login\<close>: the login flows, with the
  validation of foreign tokens as a parameter. \<open>SealState\<close>: sealing and unsealing over an arbitrary file system.
  \<open>AuditLog\<close>: entries, redaction, chain, export and verification, on the local and on the replicated repository.

  \<^bold>\<open>Stored records.\<close> \<open>Sql\<close>: the allow list of SQL statements. \<open>Domain\<close>: certificate authorities, certificates, roles, leases,
  rotation policies, with validation and defaults. \<open>Repos\<close>: the remaining in-memory repositories as functions on
  association lists; the locale \<open>keyed_repository\<close> states their common contract and is interpreted on ten of them.

  \<^bold>\<open>Replication.\<close> \<open>Backup\<close>: snapshot records, conversions, export, validation, restore, sealed archives. \<open>RaftStore\<close>: the
  store of a replica, one definition per handler, the dispatch of commands, the read path, snapshots. A command
  carries its decoded payload, or is marked as malformed or unknown. \<open>Replication\<close>: the read path changes nothing,
  all commands keep the store well formed, and replicas agree on commands that carry their identifiers and instants.
  \<open>NamedTables\<close>: the tables with a name or a path refine finite maps, for every sequence of commands. \<open>Recovery\<close>: what a
  snapshot brings back, and which stores it cannot bring back.

  \<^bold>\<open>Conventions.\<close> Code under a mutex for its whole body is one function; where a lock is released in
  between, the pieces are separate functions and the theorems quantify over their interleavings. Clock readings, random bytes,
  fresh identifiers and the iteration order of Go maps are arguments. Recursion is structural or has a termination
  proof; only the parser of IPv6 addresses in \<open>GoNet\<close> counts rounds, eight, since every round adds two of the
  sixteen bytes at which its loop ends. Theorems on errors state what the code does where that is not what it
  means to do.

  \<^bold>\<open>Not modelled.\<close> HTTP routing and binding, the command line tools, configuration, start-up and background jobs, the
  Kubernetes operator, webhooks and CSI driver, and the ACME client: input and output around third-party
  frameworks. The PKI, SSH, database and transit engines: most of their work is done by X.509, SSH, SQL and cipher packages; the records of the first three are
  modelled. LDAP, the shared counters and the HCL import: a network client, an external cache and regular expressions. The services that compose engines,
  repositories and jobs (\<^verbatim>\<open>service\<close>), except response wrapping. The consensus library and the client that
  proposes commands to it: a replica is the function of the commands it applies.
\<close>

end
